theory Spec2Isabelle
  imports Complex_Main "HOL-Library.Word" "HOL-Library.Sublist"
begin

section \<open>Numbers, points and errors\<close>

text \<open>
  The mesher computes on \<^verbatim>\<open>float\<close> and \<^verbatim>\<open>double\<close>. The embedding reads a value of either
  type as a real number; infinities and NaN are outside the model. Arithmetic is read
  as exact, except where a property depends on the rounding: the conversion of a
  \<^verbatim>\<open>double\<close> to a \<^verbatim>\<open>float\<close>, the library's \<^verbatim>\<open>atan2\<close> on floats, the \<^verbatim>\<open>double\<close> addition that
  folds the angle of a wall sample and the \<^verbatim>\<open>double\<close> arithmetic of the triangle rasterizer
  round their exact result to the nearest value of their type, as the section on the
  two precisions says.
  A glog \<^verbatim>\<open>CHECK\<close> that fails aborts the process and a \<^verbatim>\<open>throw\<close> unwinds it;
  both are values of the type \<open>error\<close>, returned on the left of a sum:
  \<open>CheckFailed\<close> for a failed \<^verbatim>\<open>CHECK\<close>, \<open>RuntimeError\<close> for \<^verbatim>\<open>std::runtime_error\<close>,
  and \<open>OutOfRange\<close> for the \<^verbatim>\<open>std::out_of_range\<close> of \<^verbatim>\<open>vector::at\<close>.
\<close>

datatype error = CheckFailed | RuntimeError | OutOfRange

text \<open>\<^verbatim>\<open>cv::Point3f\<close>, which is also \<^verbatim>\<open>Mesh3D::VertexPosition3D\<close> and \<^verbatim>\<open>Plane::Normal\<close>.\<close>

datatype Point3f = Point3f (x: real) (y: real) (z: real)

definition sub3 :: "Point3f \<Rightarrow> Point3f \<Rightarrow> Point3f" where
  "sub3 a b = Point3f (x a - x b) (y a - y b) (z a - z b)"

definition ddot :: "Point3f \<Rightarrow> Point3f \<Rightarrow> real" where
  "ddot a b = x a * x b + y a * y b + z a * z b"

definition cross :: "Point3f \<Rightarrow> Point3f \<Rightarrow> Point3f" where
  "cross a b = Point3f (y a * z b - z a * y b) (z a * x b - x a * z b) (x a * y b - y a * x b)"

definition scale3 :: "real \<Rightarrow> Point3f \<Rightarrow> Point3f" where
  "scale3 k a = Point3f (k * x a) (k * y a) (k * z a)"

definition div3 :: "Point3f \<Rightarrow> real \<Rightarrow> Point3f" where
  "div3 a k = Point3f (x a / k) (y a / k) (z a / k)"

definition norm3 :: "Point3f \<Rightarrow> real" where
  "norm3 a = sqrt (x a * x a + y a * y a + z a * z a)"

text \<open>glog's \<^verbatim>\<open>CHECK_NEAR(val1, val2, margin)\<close>.\<close>

definition check_near :: "real \<Rightarrow> real \<Rightarrow> real \<Rightarrow> bool" where
  "check_near val1 val2 margin = (val1 \<le> val2 + margin \<and> val2 - margin \<le> val1)"

section \<open>Single and double precision\<close>

text \<open>
  The integer nearest to \<open>v\<close>; of the two integers that are equally near, the even one.
\<close>

definition round_half_even :: "real \<Rightarrow> int" where
  "round_half_even v =
    (let f = \<lfloor>v\<rfloor>
     in if v - of_int f < 1 / 2 then f
        else if 1 / 2 < v - of_int f then f + 1
        else if even f then f else f + 1)"

text \<open>
  \<open>exponent_search k lo v\<close> is the greatest \<open>e\<close> among \<open>lo, ..., lo + 2\<^sup>k - 1\<close> with
  \<open>2\<^sup>e \<le> v\<close>, and \<open>lo\<close> when there is none. For \<open>v = |x|\<close> and \<open>lo\<close> the least exponent of a
  binary floating-point format it is the exponent of \<open>x\<close> in the format, the subnormal
  numbers having the exponent \<open>lo\<close>.
\<close>

fun exponent_search :: "nat \<Rightarrow> int \<Rightarrow> real \<Rightarrow> int" where
  "exponent_search 0 lo v = lo"
| "exponent_search (Suc k) lo v =
    (if 2 powi (lo + 2 ^ k) \<le> v then exponent_search k (lo + 2 ^ k) v
     else exponent_search k lo v)"

text \<open>
  Rounding to nearest, ties to even, the default of IEEE 754 arithmetic, in a binary
  format with \<open>p\<close> significant bits and least exponent \<open>emin\<close>: a number of exponent \<open>e\<close> is
  rounded to the nearest multiple of \<open>2 powi (e - p + 1)\<close>. A \<^verbatim>\<open>float\<close> has 24 significant bits and
  the least exponent -126, a \<^verbatim>\<open>double\<close> has 53 and -1022. Beyond the largest finite
  value of the format, where the code obtains an infinity, the function still returns a
  real number.
\<close>

definition round_to_precision :: "nat \<Rightarrow> int \<Rightarrow> nat \<Rightarrow> real \<Rightarrow> real" where
  "round_to_precision p emin k v =
    (let e = exponent_search k emin \<bar>v\<bar>;
         ulp = 2 powi (e - int p + 1)
     in of_int (round_half_even (v / ulp)) * ulp)"

text \<open>
  The conversion \<^verbatim>\<open>float(v)\<close> of a \<^verbatim>\<open>double\<close>, and the value that a \<^verbatim>\<open>double\<close> operation
  returns when its exact result is \<open>v\<close>.
\<close>

definition to_float :: "real \<Rightarrow> real" where
  "to_float v = round_to_precision 24 (- 126) 8 v"

definition to_double :: "real \<Rightarrow> real" where
  "to_double v = round_to_precision 53 (- 1022) 11 v"

text \<open>
  The conversion of a \<^verbatim>\<open>gtsam::Point3\<close>, whose coordinates are doubles, to a \<^verbatim>\<open>cv::Point3f\<close>,
  as \<^verbatim>\<open>cv::Point3f(float(point.x()), float(point.y()), float(point.z()))\<close> does it. The
  model has one type for both kinds of point.
\<close>

definition to_Point3f :: "Point3f \<Rightarrow> Point3f" where
  "to_Point3f point = Point3f (to_float (x point)) (to_float (y point)) (to_float (z point))"

text \<open>
  Modelled from the spec: the constant \<^verbatim>\<open>PI\<close> that \<^verbatim>\<open>Mesher.cpp\<close> adds to a negative angle;
  its definition is in a header that is not among the source files. The specification
  writes \<open>\<pi>\<close>; the constant is taken to be the \<^verbatim>\<open>double\<close> nearest to \<open>\<pi>\<close>,
  3.141592653589793, which is \<open>884279719003555 / 2\<^sup>4\<^sup>8\<close>.
\<close>

definition PI :: real where
  "PI = 884279719003555 / 281474976710656"

text \<open>
  The type \<^verbatim>\<open>int\<close> has 32 bits. The model computes on the integers and brings a result
  that may leave the range of \<^verbatim>\<open>int\<close> back into it by two's complement wrap-around;
  within the range \<open>int32\<close> changes nothing. (C++ leaves the overflow of an \<^verbatim>\<open>int\<close>
  undefined.)
\<close>

definition int32 :: "int \<Rightarrow> int" where
  "int32 i = (i + 2 ^ 31) mod 2 ^ 32 - 2 ^ 31"

section \<open>Mesh vertices and polygons\<close>

type_synonym LandmarkId = int

datatype Vertex = Vertex (getLmkId: LandmarkId) (getVertexPosition: Point3f)

type_synonym Polygon = "Vertex list"

section \<open>Triangle quality\<close>

text \<open>
  \<^verbatim>\<open>Mesher::getRatioBetweenSmallestAndLargestSide\<close>. A \<^verbatim>\<open>boost::optional<double &>\<close>
  receiver is \<open>None\<close> when it is not supplied and \<open>Some v\<close> when it refers to a
  variable that holds \<open>v\<close>; the function returns the ratio and both receivers as
  it leaves them.
\<close>

definition getRatioBetweenSmallestAndLargestSide ::
  "real \<Rightarrow> real \<Rightarrow> real \<Rightarrow> real option \<Rightarrow> real option \<Rightarrow> real \<times> real option \<times> real option" where
  "getRatioBetweenSmallestAndLargestSide d12 d23 d31 minSide_out maxSide_out =
    (let minSide = min d12 (min d23 d31);
         maxSide = max d12 (max d23 d31);
         outs = (if minSide_out \<noteq> None \<and> maxSide_out \<noteq> None
                 then (Some minSide, Some maxSide)
                 else (minSide_out, maxSide_out))
     in (minSide / maxSide, outs))"

text \<open>
  \<^verbatim>\<open>Mesher::getRatioBetweenTangentialAndRadialDisplacement\<close>. The pose type, its
  \<^verbatim>\<open>transform_to\<close> and \<^verbatim>\<open>UtilsGeometry::getRatioBetweenTangentialAndRadialDisplacement\<close>
  belong to other libraries and are parameters.
\<close>

definition getRatioBetweenTangentialAndRadialDisplacement ::
  "('pose \<Rightarrow> Point3f \<Rightarrow> Point3f) \<Rightarrow> (Point3f list \<Rightarrow> real) \<Rightarrow>
   Point3f \<Rightarrow> Point3f \<Rightarrow> Point3f \<Rightarrow> 'pose \<Rightarrow> real" where
  "getRatioBetweenTangentialAndRadialDisplacement transform_to ratio_tr p1 p2 p3 leftCameraPose =
    ratio_tr [transform_to leftCameraPose p1, transform_to leftCameraPose p2,
              transform_to leftCameraPose p3]"

text \<open>\<^verbatim>\<open>Mesher::isBadTriangle\<close>: \<open>Inr True\<close> is a bad triangle.\<close>

definition isBadTriangle ::
  "('pose \<Rightarrow> Point3f \<Rightarrow> Point3f) \<Rightarrow> (Point3f list \<Rightarrow> real) \<Rightarrow>
   Polygon \<Rightarrow> 'pose \<Rightarrow> real \<Rightarrow> real \<Rightarrow> real \<Rightarrow> error + bool" where
  "isBadTriangle transform_to ratio_tr polygon left_camera_pose
      min_ratio_between_largest_an_smallest_side min_elongation_ratio max_triangle_side =
    (if length polygon \<noteq> 3 then Inl CheckFailed
     else
       let p1 = getVertexPosition (polygon ! 0);
           p2 = getVertexPosition (polygon ! 1);
           p3 = getVertexPosition (polygon ! 2);
           d12 = norm3 (sub3 p1 p2);
           d23 = norm3 (sub3 p2 p3);
           d31 = norm3 (sub3 p3 p1);
           ratioSides_i =
             (if min_ratio_between_largest_an_smallest_side > 0
              then fst (getRatioBetweenSmallestAndLargestSide d12 d23 d31 None None)
              else 0);
           ratioTangentialRadial_i =
             (if min_elongation_ratio > 0
              then getRatioBetweenTangentialAndRadialDisplacement transform_to ratio_tr
                     p1 p2 p3 left_camera_pose
              else 0);
           maxTriangleSide_i =
             (if max_triangle_side > 0 then fold max [d23, d31] d12 else 0)
       in if ratioSides_i \<ge> min_ratio_between_largest_an_smallest_side \<and>
             ratioTangentialRadial_i \<ge> min_elongation_ratio \<and>
             maxTriangleSide_i \<le> max_triangle_side
          then Inr False else Inr True)"

section \<open>Normals\<close>

text \<open>
  \<^verbatim>\<open>Mesher::calculateNormal\<close>: \<open>Inr None\<close> is the return value \<^verbatim>\<open>false\<close> (no normal
  written), \<open>Inr (Some n)\<close> is \<^verbatim>\<open>true\<close> with \<open>n\<close> written to the receiver.
\<close>

definition calculateNormal :: "Point3f \<Rightarrow> Point3f \<Rightarrow> Point3f \<Rightarrow> error + Point3f option" where
  "calculateNormal p1 p2 p3 =
    (let v21 = sub3 p2 p1;
         v31 = sub3 p3 p1;
         v21_norm = norm3 v21
     in if \<not> v21_norm > 0 then Inl CheckFailed
        else
          let v21 = div3 v21 v21_norm;
              v31_norm = norm3 v31
          in if \<not> v31_norm > 0 then Inl CheckFailed
             else
               let v31 = div3 v31 v31_norm
               in if \<bar>ddot v21 v31\<bar> \<ge> 1 - 1 / 1000 then Inr None
                  else
                    let normal = cross v21 v31;
                        norm = norm3 normal
                    in if \<not> norm > 0 then Inl CheckFailed
                       else
                         let normal = div3 normal norm
                         in if \<not> check_near (norm3 normal) 1 (1 / 100000) then Inl CheckFailed
                            else Inr (Some normal))"

text \<open>The unit vector along a vector: what \<^verbatim>\<open>v /= cv::norm(v)\<close> leaves in \<open>v\<close>.\<close>

definition normalize3 :: "Point3f \<Rightarrow> Point3f" where
  "normalize3 a = div3 a (norm3 a)"

section \<open>Rasterizing a triangle of the image\<close>

text \<open>\<^verbatim>\<open>cv::Vec6f\<close>: six coordinates, read by index 0 to 5.\<close>

datatype Vec6f = Vec6f real real real real real real

fun vec6_at :: "Vec6f \<Rightarrow> nat \<Rightarrow> real" where
  "vec6_at (Vec6f a0 a1 a2 a3 a4 a5) i =
    (if i = 0 then a0 else if i = 1 then a1 else if i = 2 then a2
     else if i = 3 then a3 else if i = 4 then a4 else a5)"

text \<open>
  \<^verbatim>\<open>std::round\<close>: the nearest integer, halves away from zero. The conversion of its
  result to \<^verbatim>\<open>int\<close> is \<open>int32\<close> of it.
\<close>

definition cround :: "real \<Rightarrow> int" where
  "cround v = (if v \<ge> 0 then \<lfloor>v + 1 / 2\<rfloor> else \<lceil>v - 1 / 2\<rceil>)"

text \<open>
  One of the three blocks ``check triangle 01, 12, 20'' of the row loop: the edge from
  \<open>(xa, ya)\<close> to \<open>(xb, yb)\<close> may move \<open>min_x\<close> to the left and \<open>max_x\<close> to the right. The
  quotient, the two products, the difference and the sum are \<^verbatim>\<open>double\<close> operations, each
  of which rounds; the conversion of an \<^verbatim>\<open>int\<close> to \<^verbatim>\<open>double\<close> is exact.
\<close>

definition check_edge :: "int \<Rightarrow> int \<Rightarrow> int \<Rightarrow> int \<Rightarrow> int \<Rightarrow> int \<times> int \<Rightarrow> int \<times> int" where
  "check_edge r xa ya xb yb mm =
    (if ya \<noteq> yb then
       let lambda = to_double (real_of_int (int32 (r - yb)) / real_of_int (int32 (ya - yb)))
       in if lambda \<ge> 0 \<and> lambda \<le> 1 then
            let xi = int32 (cround (to_double
                       (to_double (lambda * real_of_int xa) +
                        to_double (to_double (1 - lambda) * real_of_int xb))))
            in (min (fst mm) xi, max (snd mm) xi)
          else mm
     else mm)"

text \<open>The pair \<open>(min_x, max_x)\<close> of row \<open>r\<close> when the sanity check is reached.\<close>

definition row_extrema ::
  "int \<Rightarrow> int \<Rightarrow> int \<Rightarrow> int \<Rightarrow> int \<Rightarrow> int \<Rightarrow> int \<Rightarrow> int \<Rightarrow> int \<Rightarrow> int \<times> int" where
  "row_extrema x0 y0 x1 y1 x2 y2 topLeft_x botRight_x r =
    check_edge r x2 y2 x0 y0
      (check_edge r x1 y1 x2 y2
        (check_edge r x0 y0 x1 y1 (botRight_x, topLeft_x)))"

text \<open>
  The column loop of a row, with \<^verbatim>\<open>margin = 4\<close>. The image is read by
  \<^verbatim>\<open>img.at<uint8_t>(r, c)\<close>, which does not check its indices: it is a function of the
  row and the column.
\<close>

definition scan_columns ::
  "(int \<Rightarrow> int \<Rightarrow> 8 word) \<Rightarrow> real \<Rightarrow> int \<Rightarrow> int \<Rightarrow> int \<Rightarrow> ((int \<times> int) \<times> real) list" where
  "scan_columns img intensityThreshold r min_x max_x =
    map (\<lambda>c. ((c, r), real (unat (img r c))))
      (filter (\<lambda>c. real (unat (img r c)) > intensityThreshold)
         [int32 (min_x + 4) .. int32 (max_x - 4) - 1])"

fun scan_rows ::
  "(int \<Rightarrow> int \<Rightarrow> 8 word) \<Rightarrow> real \<Rightarrow> (int \<Rightarrow> int \<times> int) \<Rightarrow> int \<Rightarrow> int \<Rightarrow>
   int list \<Rightarrow> ((int \<times> int) \<times> real) list \<Rightarrow> error + ((int \<times> int) \<times> real) list" where
  "scan_rows img thr extrema topLeft_x botRight_x [] keypointsWithIntensities =
     Inr keypointsWithIntensities"
| "scan_rows img thr extrema topLeft_x botRight_x (r # rs) keypointsWithIntensities =
     (let min_x = fst (extrema r); max_x = snd (extrema r)
      in if min_x < topLeft_x \<or> max_x > botRight_x then Inl RuntimeError
         else scan_rows img thr extrema topLeft_x botRight_x rs
                (keypointsWithIntensities @ scan_columns img thr r min_x max_x))"

text \<open>
  \<^verbatim>\<open>UtilsOpenCV::FindHighIntensityInTriangle\<close>: the key points with their intensities, or
  the error that the sanity check of a row throws.
\<close>

definition FindHighIntensityInTriangle ::
  "(int \<Rightarrow> int \<Rightarrow> 8 word) \<Rightarrow> Vec6f \<Rightarrow> real \<Rightarrow> error + ((int \<times> int) \<times> real) list" where
  "FindHighIntensityInTriangle img px_vertices intensityThreshold =
    (if intensityThreshold < 0 then Inr []
     else
       let x0 = int32 (cround (vec6_at px_vertices 0));
           y0 = int32 (cround (vec6_at px_vertices 1));
           x1 = int32 (cround (vec6_at px_vertices 2));
           y1 = int32 (cround (vec6_at px_vertices 3));
           x2 = int32 (cround (vec6_at px_vertices 4));
           y2 = int32 (cround (vec6_at px_vertices 5));
           topLeft_x = min x0 (min x1 x2);
           topLeft_y = min y0 (min y1 y2);
           botRight_x = max x0 (max x1 x2);
           botRight_y = max y0 (max y1 y2)
       in scan_rows img intensityThreshold
            (row_extrema x0 y0 x1 y1 x2 y2 topLeft_x botRight_x)
            topLeft_x botRight_x [topLeft_y .. botRight_y - 1] [])"


section \<open>Command-line flags\<close>

text \<open>The gflags of \<^verbatim>\<open>Mesher.cpp\<close> that the modelled functions read.\<close>

record MesherFlags =
  FLAGS_add_extra_lmks_from_stereo :: bool
  FLAGS_reduce_mesh_to_time_horizon :: bool
  FLAGS_min_ratio_btw_largest_smallest_side :: real
  FLAGS_min_elongation_ratio :: real
  FLAGS_max_triangle_side :: real
  FLAGS_normal_tolerance_polygon_plane_association :: real
  FLAGS_distance_tolerance_polygon_plane_association :: real
  FLAGS_normal_tolerance_plane_plane_association :: real
  FLAGS_distance_tolerance_plane_plane_association :: real
  FLAGS_do_double_association :: bool
  FLAGS_normal_tolerance_horizontal_surface :: real
  FLAGS_normal_tolerance_walls :: real
  FLAGS_only_use_non_clustered_points :: bool
  FLAGS_z_histogram_min_separation :: real
  FLAGS_z_histogram_max_number_of_peaks_to_select :: int

section \<open>The mesh store\<close>

text \<open>
  Modelled from the spec: the class \<^verbatim>\<open>Mesh3D\<close> (the repository's \<^verbatim>\<open>mesh/Mesh3D\<close>, which is
  not among the source files). Section 4.1 of the specification: a mapping from
  landmark-id to a position slot, and an ordered sequence of polygons, each a sequence
  of slot references.
\<close>

record Mesh3D =
  vertex_slots :: "LandmarkId \<rightharpoonup> Point3f"
  polygons_mesh :: "LandmarkId list list"

text \<open>Modelled from the spec: the mesh that the constructor \<^verbatim>\<open>Mesh3D()\<close> builds, with no polygon.\<close>

definition empty_mesh :: Mesh3D where
  "empty_mesh = \<lparr>vertex_slots = Map.empty, polygons_mesh = []\<rparr>"

text \<open>Modelled from the spec: \<^verbatim>\<open>Mesh3D::getNumberOfPolygons\<close>, the specification's \<^verbatim>\<open>polygon_count\<close>.\<close>

definition getNumberOfPolygons :: "Mesh3D \<Rightarrow> nat" where
  "getNumberOfPolygons m = length (polygons_mesh m)"

text \<open>
  Modelled from the spec: \<^verbatim>\<open>Mesh3D::getMeshPolygonDimension\<close>, the specification's
  \<^verbatim>\<open>polygon_dimension\<close>, which is 3.
\<close>

definition getMeshPolygonDimension :: "Mesh3D \<Rightarrow> nat" where
  "getMeshPolygonDimension m = 3"

text \<open>
  Modelled from the spec: \<^verbatim>\<open>Mesh3D::getPolygon\<close>, the specification's \<^verbatim>\<open>get_polygon\<close>. It
  returns polygon \<open>i\<close> as a freshly built sequence of landmark ids with the current
  positions of their slots, and fails (\<open>None\<close>) when \<open>i\<close> is not below the count; every
  polygon references existing slots, so it fails as well when a slot is missing.
\<close>

definition getPolygon :: "Mesh3D \<Rightarrow> nat \<Rightarrow> Polygon option" where
  "getPolygon m i =
    (if i < length (polygons_mesh m) \<and>
        list_all (\<lambda>k. vertex_slots m k \<noteq> None) (polygons_mesh m ! i)
     then Some (map (\<lambda>k. Vertex k (the (vertex_slots m k))) (polygons_mesh m ! i))
     else None)"

text \<open>
  Modelled from the spec: \<^verbatim>\<open>Mesh3D::addPolygonToMesh\<close>, the specification's \<^verbatim>\<open>add_polygon\<close>.
  For each vertex of the polygon, in order, it writes the supplied position into the
  slot of the vertex's landmark (overwriting), and it appends the polygon to the
  sequence; duplicate triangles are not de-duplicated. A polygon whose size is not 3 is
  a topology violation, which is fatal (section 7).
\<close>

definition addPolygonToMesh :: "Mesh3D \<Rightarrow> Polygon \<Rightarrow> error + Mesh3D" where
  "addPolygonToMesh m polygon =
    (if length polygon \<noteq> 3 then Inl CheckFailed
     else Inr \<lparr>vertex_slots =
                 fold (\<lambda>v s. s(getLmkId v \<mapsto> getVertexPosition v)) polygon (vertex_slots m),
               polygons_mesh = polygons_mesh m @ [map getLmkId polygon]\<rparr>)"

text \<open>The content of a mesh: what \<^verbatim>\<open>getPolygon\<close> returns for each index, in order.\<close>

definition mesh_content :: "Mesh3D \<Rightarrow> Polygon option list" where
  "mesh_content m = map (getPolygon m) [0 ..< getNumberOfPolygons m]"

section \<open>Planes\<close>

text \<open>
  \<^verbatim>\<open>gtsam::Symbol\<close>: a character and a 64-bit index. A data member that the source
  writes with a trailing underscore, such as \<^verbatim>\<open>normal_\<close>, is the field \<open>m_normal\<close>.
\<close>

datatype Symbol = Symbol (chr: char) (index: "64 word")

record TriangleCluster =
  m_cluster_id :: int
  m_triangle_ids :: "nat list"

record Plane =
  m_plane_symbol :: Symbol
  m_normal :: Point3f
  m_distance :: real
  m_lmk_ids :: "LandmarkId list"
  m_triangle_cluster :: TriangleCluster

text \<open>
  Modelled from the spec: the constructor \<^verbatim>\<open>Plane(symbol, normal, distance, lmk_ids,
  cluster_id)\<close> of the repository's \<^verbatim>\<open>Plane\<close> class, which is not among the source files.
  Section 3 of the specification gives a plane its symbol, normal, distance, landmark
  ids and cluster tag; the triangle cluster of a new plane carries the tag and no
  triangle yet.
\<close>

definition Plane_ctor :: "Symbol \<Rightarrow> Point3f \<Rightarrow> real \<Rightarrow> LandmarkId list \<Rightarrow> int \<Rightarrow> Plane" where
  "Plane_ctor plane_symbol normal distance lmk_ids cluster_id =
    \<lparr>m_plane_symbol = plane_symbol, m_normal = normal, m_distance = distance,
     m_lmk_ids = lmk_ids,
     m_triangle_cluster = \<lparr>m_cluster_id = cluster_id, m_triangle_ids = []\<rparr>\<rparr>"

section \<open>Normal and distance predicates\<close>

text \<open>\<^verbatim>\<open>Mesher::isNormalAroundAxis\<close>.\<close>

definition isNormalAroundAxis :: "Point3f \<Rightarrow> Point3f \<Rightarrow> real \<Rightarrow> error + bool" where
  "isNormalAroundAxis axis normal tolerance =
    (if \<not> check_near (norm3 axis) 1 (1 / 100000) then Inl CheckFailed
     else if \<not> check_near (norm3 normal) 1 (1 / 100000) then Inl CheckFailed
     else if \<not> tolerance > 0 then Inl CheckFailed
     else if \<not> tolerance < 1 then Inl CheckFailed
     else Inr (\<bar>ddot normal axis\<bar> > 1 - tolerance))"

text \<open>\<^verbatim>\<open>Mesher::isNormalPerpendicularToAxis\<close>; \<^verbatim>\<open>cv::norm\<close> of a scalar is its absolute value.\<close>

definition isNormalPerpendicularToAxis :: "Point3f \<Rightarrow> Point3f \<Rightarrow> real \<Rightarrow> error + bool" where
  "isNormalPerpendicularToAxis axis normal tolerance =
    (if \<not> check_near (norm3 axis) 1 (1 / 100000) then Inl CheckFailed
     else if \<not> check_near (norm3 normal) 1 (1 / 100000) then Inl CheckFailed
     else if \<not> tolerance > 0 then Inl CheckFailed
     else if \<not> tolerance < 1 then Inl CheckFailed
     else Inr (\<bar>ddot normal axis\<bar> < tolerance))"

text \<open>\<^verbatim>\<open>Mesher::isPointAtDistanceFromPlane\<close>.\<close>

definition isPointAtDistanceFromPlane :: "Point3f \<Rightarrow> real \<Rightarrow> Point3f \<Rightarrow> real \<Rightarrow> error + bool" where
  "isPointAtDistanceFromPlane point plane_distance plane_normal distance_tolerance =
    (if \<not> check_near (norm3 plane_normal) 1 (1 / 100000) then Inl CheckFailed
     else if \<not> distance_tolerance \<ge> 0 then Inl CheckFailed
     else Inr (\<bar>plane_distance - ddot point plane_normal\<bar> \<le> distance_tolerance))"

text \<open>\<^verbatim>\<open>Mesher::isPolygonAtDistanceFromPlane\<close>: the loop over the vertices, then the function.\<close>

fun all_vertices_at_distance :: "Vertex list \<Rightarrow> real \<Rightarrow> Point3f \<Rightarrow> real \<Rightarrow> error + bool" where
  "all_vertices_at_distance [] plane_distance plane_normal distance_tolerance = Inr True"
| "all_vertices_at_distance (vertex # rest) plane_distance plane_normal distance_tolerance =
    (case isPointAtDistanceFromPlane (getVertexPosition vertex) plane_distance plane_normal
            distance_tolerance of
       Inl e \<Rightarrow> Inl e
     | Inr b \<Rightarrow>
         if \<not> b then Inr False
         else all_vertices_at_distance rest plane_distance plane_normal distance_tolerance)"

definition isPolygonAtDistanceFromPlane :: "Polygon \<Rightarrow> real \<Rightarrow> Point3f \<Rightarrow> real \<Rightarrow> error + bool" where
  "isPolygonAtDistanceFromPlane polygon plane_distance plane_normal distance_tolerance =
    (if \<not> check_near (norm3 plane_normal) 1 (1 / 100000) then Inl CheckFailed
     else if \<not> distance_tolerance \<ge> 0 then Inl CheckFailed
     else all_vertices_at_distance polygon plane_distance plane_normal distance_tolerance)"

text \<open>
  \<^verbatim>\<open>std::atan2\<close>, the angle of the point \<open>(x, y)\<close> in \<open>(-\<pi>, \<pi>]\<close>, written with \<open>arctan\<close>.
\<close>

definition atan2 :: "real \<Rightarrow> real \<Rightarrow> real" where
  "atan2 b a =
    (if a > 0 then arctan (b / a)
     else if a < 0 \<and> b \<ge> 0 then arctan (b / a) + pi
     else if a < 0 \<and> b < 0 then arctan (b / a) - pi
     else if b > 0 then pi / 2
     else if b < 0 then - (pi / 2)
     else 0)"

text \<open>
  \<^verbatim>\<open>std::atan2\<close> on two \<^verbatim>\<open>float\<close> arguments, which returns a \<^verbatim>\<open>float\<close>: the \<^verbatim>\<open>float\<close> nearest to
  the angle. Its values range from \<open>-13176795 / 2\<^sup>2\<^sup>2\<close> to \<open>13176795 / 2\<^sup>2\<^sup>2\<close>, the \<^verbatim>\<open>float\<close>
  nearest to \<open>\<pi>\<close>, which is greater than \<open>\<pi>\<close>.
\<close>

definition atan2f :: "real \<Rightarrow> real \<Rightarrow> real" where
  "atan2f b a = to_float (atan2 b a)"

text \<open>
  \<^verbatim>\<open>Mesher::getLongitude\<close>. The members of \<^verbatim>\<open>equatorial_proj\<close> are floats, so that
  \<^verbatim>\<open>std::atan2\<close> is the one on floats; the \<^verbatim>\<open>double\<close> returned holds its value.
\<close>

definition getLongitude :: "Point3f \<Rightarrow> Point3f \<Rightarrow> error + real" where
  "getLongitude triangle_normal vertical =
    (if \<not> check_near (norm3 triangle_normal) 1 (1 / 100000) then Inl CheckFailed
     else if \<not> check_near (norm3 vertical) 1 (1 / 100000) then Inl CheckFailed
     else
       let equatorial_proj =
             sub3 triangle_normal (scale3 (ddot vertical triangle_normal) vertical)
       in if \<not> check_near (ddot equatorial_proj vertical) 0 (1 / 100000) then Inl CheckFailed
          else if \<not> (y equatorial_proj \<noteq> 0 \<or> x equatorial_proj \<noteq> 0) then Inl CheckFailed
          else Inr (atan2f (y equatorial_proj) (x equatorial_proj)))"

section \<open>Landmark ids of a polygon\<close>

text \<open>\<^verbatim>\<open>Mesher::appendLmkIdsOfPolygon\<close>.\<close>

fun appendLmkIdsOfPolygon ::
  "MesherFlags \<Rightarrow> Vertex list \<Rightarrow> LandmarkId list \<Rightarrow> (LandmarkId \<rightharpoonup> Point3f) \<Rightarrow> LandmarkId list" where
  "appendLmkIdsOfPolygon fl [] lmk_ids points_with_id_vio = lmk_ids"
| "appendLmkIdsOfPolygon fl (vertex # rest) lmk_ids points_with_id_vio =
    appendLmkIdsOfPolygon fl rest
      (if getLmkId vertex \<notin> set lmk_ids then
         (if FLAGS_add_extra_lmks_from_stereo fl then
            (if points_with_id_vio (getLmkId vertex) \<noteq> None
             then lmk_ids @ [getLmkId vertex] else lmk_ids)
          else lmk_ids @ [getLmkId vertex])
       else lmk_ids)
      points_with_id_vio"

text \<open>
  \<^verbatim>\<open>Mesher::updatePlanesLmkIdsFromPolygon\<close>: the loop over the planes, which carries
  \<open>is_polygon_on_a_plane\<close>, then the function. The second test of the \<^verbatim>\<open>&&\<close> runs
  only when the first holds.
\<close>

fun update_planes_loop ::
  "MesherFlags \<Rightarrow> Plane list \<Rightarrow> Polygon \<Rightarrow> nat \<Rightarrow> Point3f \<Rightarrow> real \<Rightarrow> real \<Rightarrow>
   (LandmarkId \<rightharpoonup> Point3f) \<Rightarrow> bool \<Rightarrow> error + (Plane list \<times> bool)" where
  "update_planes_loop fl [] polygon triangle_id triangle_normal normal_tolerance
      distance_tolerance points_with_id_vio is_polygon_on_a_plane =
     Inr ([], is_polygon_on_a_plane)"
| "update_planes_loop fl (seed_plane # rest) polygon triangle_id triangle_normal normal_tolerance
      distance_tolerance points_with_id_vio is_polygon_on_a_plane =
    (case isNormalAroundAxis (m_normal seed_plane) triangle_normal normal_tolerance of
       Inl e \<Rightarrow> Inl e
     | Inr around \<Rightarrow>
        (case (if around
               then isPolygonAtDistanceFromPlane polygon (m_distance seed_plane)
                      (m_normal seed_plane) distance_tolerance
               else Inr False) of
           Inl e \<Rightarrow> Inl e
         | Inr on_plane \<Rightarrow>
            (case update_planes_loop fl rest polygon triangle_id triangle_normal
                    normal_tolerance distance_tolerance points_with_id_vio
                    (is_polygon_on_a_plane \<or> on_plane) of
               Inl e \<Rightarrow> Inl e
             | Inr (planes, b) \<Rightarrow>
                 Inr ((if on_plane
                       then seed_plane
                              \<lparr>m_lmk_ids := appendLmkIdsOfPolygon fl polygon (m_lmk_ids seed_plane)
                                             points_with_id_vio,
                               m_triangle_cluster := (m_triangle_cluster seed_plane)
                                 \<lparr>m_triangle_ids :=
                                    m_triangle_ids (m_triangle_cluster seed_plane) @ [triangle_id]\<rparr>\<rparr>
                       else seed_plane) # planes, b))))"

definition updatePlanesLmkIdsFromPolygon ::
  "MesherFlags \<Rightarrow> Plane list \<Rightarrow> Polygon \<Rightarrow> nat \<Rightarrow> Point3f \<Rightarrow> real \<Rightarrow> real \<Rightarrow>
   (LandmarkId \<rightharpoonup> Point3f) \<Rightarrow> error + (Plane list \<times> bool)" where
  "updatePlanesLmkIdsFromPolygon fl seed_planes polygon triangle_id triangle_normal
      normal_tolerance distance_tolerance points_with_id_vio =
    update_planes_loop fl seed_planes polygon triangle_id triangle_normal normal_tolerance
      distance_tolerance points_with_id_vio False"

section \<open>Segmenting new planes from histogram peaks\<close>

text \<open>
  Modelled from the spec: \<^verbatim>\<open>Histogram::PeakInfo\<close> and \<^verbatim>\<open>Histogram::PeakInfo2D\<close> of the
  repository's \<^verbatim>\<open>Histogram\<close> class, which is not among the source files, with the members
  that the mesher reads. The specification orders peaks by their support
  (\<^verbatim>\<open>operator<\<close>); two peaks are taken to be equal (\<^verbatim>\<open>operator==\<close>) when all their members
  are. What \<^verbatim>\<open>calculateHistogram\<close> followed by \<^verbatim>\<open>getLocalMaximum1D\<close> (or
  \<^verbatim>\<open>getLocalMaximum2D\<close>) returns for a batch of samples is a parameter of the functions
  below.
\<close>

record PeakInfo =
  m_pos :: int
  m_support :: real
  m_value :: real

record PeakInfo2D =
  m_pos2d :: "int \<times> int"
  m_support2d :: real
  m_x_value :: real
  m_y_value :: real

text \<open>\<^verbatim>\<open>vector::erase\<close> of the element at a position.\<close>

definition vec_erase :: "'a list \<Rightarrow> nat \<Rightarrow> 'a list" where
  "vec_erase xs n = take n xs @ drop (Suc n) xs"

text \<open>\<^verbatim>\<open>DBL_MAX\<close>.\<close>

definition DBL_MAX :: real where
  "DBL_MAX = (2 - 1 / 2 ^ 52) * 2 ^ 1023"

text \<open>
  The first loop of \<^verbatim>\<open>Mesher::segmentHorizontalPlanes\<close>, which removes repeated and too
  close peaks. \<open>it\<close> is the position of \<^verbatim>\<open>peak_it\<close>, \<open>i\<close> the counter and
  \<open>previous_peak_it\<close> the position of the iterator of that name. The loop reads
  \<^verbatim>\<open>previous_peak_it\<close> only when \<open>i > 0\<close>, that is after its last branch has assigned it; the
  value it starts with is never read.

  After \<^verbatim>\<open>peaks.erase(previous_peak_it)\<close> the source assigns \<^verbatim>\<open>peak_it\<close> anew but neither
  \<^verbatim>\<open>previous_peak_it\<close> nor \<^verbatim>\<open>previous_plane_distance\<close>, and may read the iterator again in
  the next pass. C++ calls the iterator invalid then. An iterator of a \<^verbatim>\<open>std::vector\<close> is
  a position in the vector's storage, which \<^verbatim>\<open>erase\<close> does not reallocate: the compiled
  program finds at the same position the element that followed the erased one, and so
  does the model. When that position is no longer below the size of the vector, the
  program reads or erases behind the last peak, and what the loop leaves then is the
  parameter \<open>past_the_end\<close>, a function of the state of the loop: the peaks that are left,
  or an abort. In \<^verbatim>\<open>segmentHorizontalPlanes\<close> it is also a function of the peaks that the
  loop started with, which determine what the memory behind the last peak holds.
\<close>

function remove_close_peaks ::
  "(real \<Rightarrow> PeakInfo list \<Rightarrow> nat \<Rightarrow> nat \<Rightarrow> nat \<Rightarrow> real \<Rightarrow> error + PeakInfo list) \<Rightarrow>
   real \<Rightarrow> PeakInfo list \<Rightarrow> nat \<Rightarrow> nat \<Rightarrow> nat \<Rightarrow> real \<Rightarrow> error + PeakInfo list" where
  "remove_close_peaks past_the_end min_separation peaks it i previous_peak_it
      previous_plane_distance =
    (if \<not> it < length peaks then Inr peaks
     else
       let plane_distance = m_value (peaks ! it)
       in if i > 0 \<and> \<not> i - 1 < length peaks then Inl OutOfRange
          else if i > 0 \<and> peaks ! it = peaks ! (i - 1) then
            remove_close_peaks past_the_end min_separation (vec_erase peaks it) it (i - 1)
              previous_peak_it previous_plane_distance
          else if i > 0 \<and> \<bar>previous_plane_distance - plane_distance\<bar> < min_separation then
            (if \<not> previous_peak_it < length peaks then
               past_the_end min_separation peaks it i previous_peak_it previous_plane_distance
             else if m_support (peaks ! previous_peak_it) < m_support (peaks ! it) then
               remove_close_peaks past_the_end min_separation (vec_erase peaks previous_peak_it)
                 (i - 1) (i - 1) previous_peak_it previous_plane_distance
             else
               remove_close_peaks past_the_end min_separation (vec_erase peaks it) it (i - 1)
                 previous_peak_it previous_plane_distance)
          else
            remove_close_peaks past_the_end min_separation peaks (Suc it) (Suc i) it
              plane_distance)"
  by pat_completeness auto
termination
  by (relation "measures [\<lambda>(pe, s, peaks, it, i, p, d). length peaks,
                          \<lambda>(pe, s, peaks, it, i, p, d). length peaks - it]")
     (auto simp: vec_erase_def)

declare remove_close_peaks.simps [simp del]

text \<open>
  \<^verbatim>\<open>std::max_element\<close> over the peaks with \<^verbatim>\<open>operator<\<close>: the position of the first peak of
  greatest support, \<open>None\<close> for \<^verbatim>\<open>peaks.end()\<close>.
\<close>

definition max_element :: "PeakInfo list \<Rightarrow> nat option" where
  "max_element peaks =
    (if peaks = [] then None
     else Some (fst (fold (\<lambda>first (largest, j).
                             (if m_support (peaks ! largest) < m_support first then j else largest,
                              Suc j))
                          (tl peaks) (0, 1))))"

text \<open>
  The second loop of \<^verbatim>\<open>Mesher::segmentHorizontalPlanes\<close>; the first argument counts the
  iterations that are left.
\<close>

fun select_peaks ::
  "nat \<Rightarrow> Point3f \<Rightarrow> PeakInfo list \<Rightarrow> Plane list \<Rightarrow> 64 word \<Rightarrow> Plane list \<times> 64 word" where
  "select_peaks 0 normal peaks horizontal_planes plane_id = (horizontal_planes, plane_id)"
| "select_peaks (Suc n) normal peaks horizontal_planes plane_id =
    (case max_element peaks of
       None \<Rightarrow> (horizontal_planes, plane_id)
     | Some it \<Rightarrow>
         select_peaks n normal (vec_erase peaks it)
           (horizontal_planes @
              [Plane_ctor (Symbol CHR ''P'' plane_id) normal (m_value (peaks ! it)) [] 2])
           (plane_id + 1))"

text \<open>\<^verbatim>\<open>Mesher::segmentHorizontalPlanes\<close>: the planes and the counter \<^verbatim>\<open>*plane_id\<close> as it leaves them.\<close>

definition segmentHorizontalPlanes ::
  "(PeakInfo list \<Rightarrow> real \<Rightarrow> PeakInfo list \<Rightarrow> nat \<Rightarrow> nat \<Rightarrow> nat \<Rightarrow> real \<Rightarrow>
     error + PeakInfo list) \<Rightarrow>
   (real list \<Rightarrow> PeakInfo list) \<Rightarrow> MesherFlags \<Rightarrow> Plane list \<Rightarrow> 64 word \<Rightarrow> Point3f \<Rightarrow>
   real list \<Rightarrow> error + (Plane list \<times> 64 word)" where
  "segmentHorizontalPlanes past_the_end getLocalMaximum1D fl horizontal_planes plane_id normal
      z_components =
    (let peaks = getLocalMaximum1D z_components
     in case remove_close_peaks (past_the_end peaks) (FLAGS_z_histogram_min_separation fl)
               peaks 0 0 0 (- DBL_MAX) of
          Inl e \<Rightarrow> Inl e
        | Inr peaks \<Rightarrow>
            Inr (select_peaks (nat (FLAGS_z_histogram_max_number_of_peaks_to_select fl))
                   normal peaks horizontal_planes plane_id))"

text \<open>\<^verbatim>\<open>Mesher::segmentWalls\<close>: the loop over the peaks, then the function.\<close>

fun wall_peaks_loop :: "PeakInfo2D list \<Rightarrow> Plane list \<Rightarrow> 64 word \<Rightarrow> Plane list \<times> 64 word" where
  "wall_peaks_loop [] wall_planes plane_id = (wall_planes, plane_id)"
| "wall_peaks_loop (peak # rest) wall_planes plane_id =
    wall_peaks_loop rest
      (wall_planes @
         [Plane_ctor (Symbol CHR ''P'' plane_id)
            (Point3f (cos (m_x_value peak)) (sin (m_x_value peak)) 0) (m_y_value peak) [] 1])
      (plane_id + 1)"

definition segmentWalls ::
  "((real \<times> real) list \<Rightarrow> PeakInfo2D list) \<Rightarrow> Plane list \<Rightarrow> 64 word \<Rightarrow> (real \<times> real) list \<Rightarrow>
   Plane list \<times> 64 word" where
  "segmentWalls getLocalMaximum2D wall_planes plane_id walls =
    wall_peaks_loop (getLocalMaximum2D walls) wall_planes plane_id"

text \<open>
  \<^verbatim>\<open>Mesher::segmentNewPlanes\<close>. Its \<^verbatim>\<open>static size_t plane_id\<close> lives as long as the process:
  the function takes the counter's value and returns the new one.
\<close>

definition vertical :: Point3f where
  "vertical = Point3f 0 0 1"

definition segmentNewPlanes ::
  "(PeakInfo list \<Rightarrow> real \<Rightarrow> PeakInfo list \<Rightarrow> nat \<Rightarrow> nat \<Rightarrow> nat \<Rightarrow> real \<Rightarrow>
     error + PeakInfo list) \<Rightarrow>
   (real list \<Rightarrow> PeakInfo list) \<Rightarrow> ((real \<times> real) list \<Rightarrow> PeakInfo2D list) \<Rightarrow> MesherFlags \<Rightarrow>
   64 word \<Rightarrow> real list \<Rightarrow> (real \<times> real) list \<Rightarrow> error + (Plane list \<times> 64 word)" where
  "segmentNewPlanes past_the_end getLocalMaximum1D getLocalMaximum2D fl plane_id z_components
      walls =
    (case segmentHorizontalPlanes past_the_end getLocalMaximum1D fl [] plane_id vertical
            z_components of
       Inl e \<Rightarrow> Inl e
     | Inr (new_segmented_planes, plane_id') \<Rightarrow>
         Inr (segmentWalls getLocalMaximum2D new_segmented_planes plane_id' walls))"

text \<open>
  A run of the process: \<^verbatim>\<open>segmentNewPlanes\<close> called once per frame on that frame's
  histogram samples, the counter starting from the value given. The result is the
  planes created by each call, in order, and the counter at the end.
\<close>

fun segmentNewPlanes_run ::
  "(PeakInfo list \<Rightarrow> real \<Rightarrow> PeakInfo list \<Rightarrow> nat \<Rightarrow> nat \<Rightarrow> nat \<Rightarrow> real \<Rightarrow>
     error + PeakInfo list) \<Rightarrow>
   (real list \<Rightarrow> PeakInfo list) \<Rightarrow> ((real \<times> real) list \<Rightarrow> PeakInfo2D list) \<Rightarrow> MesherFlags \<Rightarrow>
   64 word \<Rightarrow> (real list \<times> (real \<times> real) list) list \<Rightarrow> error + (Plane list list \<times> 64 word)" where
  "segmentNewPlanes_run pe lm1 lm2 fl plane_id [] = Inr ([], plane_id)"
| "segmentNewPlanes_run pe lm1 lm2 fl plane_id ((z_components, walls) # frames) =
    (case segmentNewPlanes pe lm1 lm2 fl plane_id z_components walls of
       Inl e \<Rightarrow> Inl e
     | Inr (planes, plane_id') \<Rightarrow>
        (case segmentNewPlanes_run pe lm1 lm2 fl plane_id' frames of
           Inl e \<Rightarrow> Inl e
         | Inr (later, plane_id'') \<Rightarrow> Inr (planes # later, plane_id'')))"

section \<open>Walking the mesh\<close>

text \<open>
  The body of the polygon loop of \<^verbatim>\<open>Mesher::segmentPlanesInMesh\<close> for polygon \<open>i\<close>: it
  updates the seed planes, the buffer \<open>z_components\<close> of the 1D histogram and the buffer
  \<open>walls\<close> of the 2D histogram, whose samples are pairs \<open>(theta, distance)\<close>. The variables
  \<^verbatim>\<open>theta\<close> and \<^verbatim>\<open>distance\<close> are doubles: \<^verbatim>\<open>theta + PI\<close> is a \<^verbatim>\<open>double\<close> addition, and
  \<^verbatim>\<open>cv::Point2f(theta, distance)\<close> converts both to \<^verbatim>\<open>float\<close>.
\<close>

definition segment_polygon ::
  "MesherFlags \<Rightarrow> (LandmarkId \<rightharpoonup> Point3f) \<Rightarrow> real \<Rightarrow> real \<Rightarrow> real \<Rightarrow> real \<Rightarrow> nat \<Rightarrow> Polygon \<Rightarrow>
   Plane list \<times> real list \<times> (real \<times> real) list \<Rightarrow>
   error + (Plane list \<times> real list \<times> (real \<times> real) list)" where
  "segment_polygon fl points_with_id_vio normal_tolerance_polygon_plane_association
      distance_tolerance_polygon_plane_association normal_tolerance_horizontal_surface
      normal_tolerance_walls i polygon st =
    (case st of (seed_planes, z_components, walls) \<Rightarrow>
     if length polygon \<noteq> 3 then Inl CheckFailed
     else
       let p1 = getVertexPosition (polygon ! 0);
           p2 = getVertexPosition (polygon ! 1);
           p3 = getVertexPosition (polygon ! 2)
       in case calculateNormal p1 p2 p3 of
            Inl e \<Rightarrow> Inl e
          | Inr None \<Rightarrow> Inr (seed_planes, z_components, walls)
          | Inr (Some triangle_normal) \<Rightarrow>
             (case updatePlanesLmkIdsFromPolygon fl seed_planes polygon i triangle_normal
                     normal_tolerance_polygon_plane_association
                     distance_tolerance_polygon_plane_association points_with_id_vio of
                Inl e \<Rightarrow> Inl e
              | Inr (seed_planes', is_polygon_on_a_plane) \<Rightarrow>
                 let use_polygon =
                       (if FLAGS_only_use_non_clustered_points fl
                        then \<not> is_polygon_on_a_plane else True)
                 in case (if use_polygon
                          then isNormalAroundAxis vertical triangle_normal
                                 normal_tolerance_horizontal_surface
                          else Inr False) of
                      Inl e \<Rightarrow> Inl e
                    | Inr horizontal \<Rightarrow>
                       let z_components' =
                             (if horizontal then z_components @ [z p1, z p2, z p3]
                              else z_components)
                       in case (if use_polygon
                                then isNormalPerpendicularToAxis vertical triangle_normal
                                       normal_tolerance_walls
                                else Inr False) of
                            Inl e \<Rightarrow> Inl e
                          | Inr False \<Rightarrow> Inr (seed_planes', z_components', walls)
                          | Inr True \<Rightarrow>
                             (case getLongitude triangle_normal vertical of
                                Inl e \<Rightarrow> Inl e
                              | Inr theta \<Rightarrow>
                                 let distance = ddot p1 triangle_normal
                                 in if theta < 0
                                    then Inr (seed_planes', z_components',
                                              walls @ [(to_float (to_double (theta + PI)),
                                                        to_float (- distance))])
                                    else Inr (seed_planes', z_components',
                                              walls @ [(to_float theta, to_float distance)]))))"

text \<open>The polygon loop of \<^verbatim>\<open>segmentPlanesInMesh\<close> over the indices that are left.\<close>

fun segment_loop ::
  "MesherFlags \<Rightarrow> (LandmarkId \<rightharpoonup> Point3f) \<Rightarrow> real \<Rightarrow> real \<Rightarrow> real \<Rightarrow> real \<Rightarrow> Mesh3D \<Rightarrow> nat list \<Rightarrow>
   Plane list \<times> real list \<times> (real \<times> real) list \<Rightarrow>
   error + (Plane list \<times> real list \<times> (real \<times> real) list)" where
  "segment_loop fl pts tn td th tw mesh [] st = Inr st"
| "segment_loop fl pts tn td th tw mesh (i # rest) st =
    (case getPolygon mesh i of
       None \<Rightarrow> Inl CheckFailed
     | Some polygon \<Rightarrow>
        (case segment_polygon fl pts tn td th tw i polygon st of
           Inl e \<Rightarrow> Inl e
         | Inr st' \<Rightarrow> segment_loop fl pts tn td th tw mesh rest st'))"

text \<open>What the first loop of \<^verbatim>\<open>segmentPlanesInMesh\<close> does to a seed plane.\<close>

definition clear_plane :: "Plane \<Rightarrow> Plane" where
  "clear_plane seed_plane =
    seed_plane\<lparr>m_lmk_ids := [],
               m_triangle_cluster := (m_triangle_cluster seed_plane)\<lparr>m_triangle_ids := []\<rparr>\<rparr>"

text \<open>
  \<^verbatim>\<open>Mesher::segmentPlanesInMesh\<close>: the seed planes as it leaves them, the new planes, and
  the plane counter.
\<close>

definition segmentPlanesInMesh ::
  "(PeakInfo list \<Rightarrow> real \<Rightarrow> PeakInfo list \<Rightarrow> nat \<Rightarrow> nat \<Rightarrow> nat \<Rightarrow> real \<Rightarrow>
     error + PeakInfo list) \<Rightarrow>
   (real list \<Rightarrow> PeakInfo list) \<Rightarrow> ((real \<times> real) list \<Rightarrow> PeakInfo2D list) \<Rightarrow> MesherFlags \<Rightarrow>
   Mesh3D \<Rightarrow> 64 word \<Rightarrow> Plane list \<Rightarrow> (LandmarkId \<rightharpoonup> Point3f) \<Rightarrow> real \<Rightarrow> real \<Rightarrow> real \<Rightarrow> real \<Rightarrow>
   error + (Plane list \<times> Plane list \<times> 64 word)" where
  "segmentPlanesInMesh past_the_end getLocalMaximum1D getLocalMaximum2D fl mesh plane_id seed_planes
      points_with_id_vio normal_tolerance_polygon_plane_association
      distance_tolerance_polygon_plane_association normal_tolerance_horizontal_surface
      normal_tolerance_walls =
    (if getMeshPolygonDimension mesh \<noteq> 3 then Inl CheckFailed
     else
       case segment_loop fl points_with_id_vio normal_tolerance_polygon_plane_association
              distance_tolerance_polygon_plane_association normal_tolerance_horizontal_surface
              normal_tolerance_walls mesh [0 ..< getNumberOfPolygons mesh]
              (map clear_plane seed_planes, [], []) of
         Inl e \<Rightarrow> Inl e
       | Inr (seed_planes', z_components, walls) \<Rightarrow>
          (case segmentNewPlanes past_the_end getLocalMaximum1D getLocalMaximum2D fl plane_id
                  z_components walls of
             Inl e \<Rightarrow> Inl e
           | Inr (new_planes, plane_id') \<Rightarrow> Inr (seed_planes', new_planes, plane_id')))"

section \<open>Associating segmented planes with backend planes\<close>

text \<open>
  The inner loop of \<^verbatim>\<open>Mesher::associatePlanes\<close> for one segmented plane over the backend
  planes that are left: the used indices and \<open>is_segmented_plane_associated\<close>. The method
  \<^verbatim>\<open>Plane::geometricEqual\<close> is not among the source files and is a parameter.
\<close>

fun associate_one ::
  "(Plane \<Rightarrow> Plane \<Rightarrow> real \<Rightarrow> real \<Rightarrow> bool) \<Rightarrow> MesherFlags \<Rightarrow> real \<Rightarrow> real \<Rightarrow> Plane \<Rightarrow> Plane list \<Rightarrow>
   64 word list \<Rightarrow> 64 word list \<times> bool" where
  "associate_one geometricEqual fl normal_tolerance distance_tolerance segmented_plane []
      associated_plane_ids = (associated_plane_ids, False)"
| "associate_one geometricEqual fl normal_tolerance distance_tolerance segmented_plane
      (plane_backend # rest) associated_plane_ids =
    (if geometricEqual plane_backend segmented_plane normal_tolerance distance_tolerance then
       let backend_plane_index = index (m_plane_symbol plane_backend)
       in if backend_plane_index \<notin> set associated_plane_ids
          then (associated_plane_ids @ [backend_plane_index], True)
          else if FLAGS_do_double_association fl then (associated_plane_ids, True)
          else associate_one geometricEqual fl normal_tolerance distance_tolerance
                 segmented_plane rest associated_plane_ids
     else associate_one geometricEqual fl normal_tolerance distance_tolerance
            segmented_plane rest associated_plane_ids)"

text \<open>The outer loop: the used indices and \<open>non_associated_planes\<close>.\<close>

fun associate_loop ::
  "(Plane \<Rightarrow> Plane \<Rightarrow> real \<Rightarrow> real \<Rightarrow> bool) \<Rightarrow> MesherFlags \<Rightarrow> real \<Rightarrow> real \<Rightarrow> Plane list \<Rightarrow> Plane list \<Rightarrow>
   64 word list \<Rightarrow> Plane list \<Rightarrow> 64 word list \<times> Plane list" where
  "associate_loop geometricEqual fl normal_tolerance distance_tolerance [] planes
      associated_plane_ids non_associated_planes =
     (associated_plane_ids, non_associated_planes)"
| "associate_loop geometricEqual fl normal_tolerance distance_tolerance
      (segmented_plane # rest) planes associated_plane_ids non_associated_planes =
    (case associate_one geometricEqual fl normal_tolerance distance_tolerance segmented_plane
            planes associated_plane_ids of
       (associated_plane_ids', is_segmented_plane_associated) \<Rightarrow>
         associate_loop geometricEqual fl normal_tolerance distance_tolerance rest planes
           associated_plane_ids'
           (if \<not> is_segmented_plane_associated
            then non_associated_planes @ [segmented_plane]
            else non_associated_planes))"

text \<open>
  \<^verbatim>\<open>Mesher::associatePlanes\<close>. It returns \<open>non_associated_planes\<close> and, beside it, the local
  \<open>associated_plane_ids\<close> as the function leaves it (empty when there is no backend
  plane and the loop does not run).
\<close>

definition associatePlanes ::
  "(Plane \<Rightarrow> Plane \<Rightarrow> real \<Rightarrow> real \<Rightarrow> bool) \<Rightarrow> MesherFlags \<Rightarrow> Plane list \<Rightarrow> Plane list \<Rightarrow> real \<Rightarrow> real \<Rightarrow>
   64 word list \<times> Plane list" where
  "associatePlanes geometricEqual fl segmented_planes planes normal_tolerance distance_tolerance =
    (if length planes = 0 then ([], segmented_planes)
     else associate_loop geometricEqual fl normal_tolerance distance_tolerance
            segmented_planes planes [] [])"

section \<open>Clustering planes from the mesh\<close>

text \<open>\<^verbatim>\<open>Mesher::updatePlanesLmkIdsFromMesh\<close>: the polygon loop, then the function.\<close>

fun update_from_mesh_loop ::
  "MesherFlags \<Rightarrow> Mesh3D \<Rightarrow> real \<Rightarrow> real \<Rightarrow> (LandmarkId \<rightharpoonup> Point3f) \<Rightarrow> nat list \<Rightarrow> Plane list \<Rightarrow>
   error + Plane list" where
  "update_from_mesh_loop fl mesh normal_tolerance distance_tolerance pts [] planes = Inr planes"
| "update_from_mesh_loop fl mesh normal_tolerance distance_tolerance pts (i # rest) planes =
    (case getPolygon mesh i of
       None \<Rightarrow> Inl CheckFailed
     | Some polygon \<Rightarrow>
         if length polygon \<noteq> 3 then Inl CheckFailed
         else
           (case calculateNormal (getVertexPosition (polygon ! 0))
                   (getVertexPosition (polygon ! 1)) (getVertexPosition (polygon ! 2)) of
              Inl e \<Rightarrow> Inl e
            | Inr None \<Rightarrow>
                update_from_mesh_loop fl mesh normal_tolerance distance_tolerance pts rest planes
            | Inr (Some triangle_normal) \<Rightarrow>
               (case updatePlanesLmkIdsFromPolygon fl planes polygon i triangle_normal
                       normal_tolerance distance_tolerance pts of
                  Inl e \<Rightarrow> Inl e
                | Inr (planes', b) \<Rightarrow>
                    update_from_mesh_loop fl mesh normal_tolerance distance_tolerance pts rest
                      planes')))"

definition updatePlanesLmkIdsFromMesh ::
  "MesherFlags \<Rightarrow> Mesh3D \<Rightarrow> Plane list \<Rightarrow> real \<Rightarrow> real \<Rightarrow> (LandmarkId \<rightharpoonup> Point3f) \<Rightarrow>
   error + Plane list" where
  "updatePlanesLmkIdsFromMesh fl mesh planes normal_tolerance distance_tolerance
      points_with_id_vio =
    (if getMeshPolygonDimension mesh \<noteq> 3 then Inl CheckFailed
     else update_from_mesh_loop fl mesh normal_tolerance distance_tolerance points_with_id_vio
            [0 ..< getNumberOfPolygons mesh] planes)"

text \<open>\<^verbatim>\<open>Mesher::clusterPlanesFromMesh\<close>: the planes as it leaves them and the plane counter.\<close>

definition clusterPlanesFromMesh ::
  "(PeakInfo list \<Rightarrow> real \<Rightarrow> PeakInfo list \<Rightarrow> nat \<Rightarrow> nat \<Rightarrow> nat \<Rightarrow> real \<Rightarrow>
     error + PeakInfo list) \<Rightarrow>
   (real list \<Rightarrow> PeakInfo list) \<Rightarrow> ((real \<times> real) list \<Rightarrow> PeakInfo2D list) \<Rightarrow>
   (Plane \<Rightarrow> Plane \<Rightarrow> real \<Rightarrow> real \<Rightarrow> bool) \<Rightarrow> MesherFlags \<Rightarrow> Mesh3D \<Rightarrow> 64 word \<Rightarrow> Plane list \<Rightarrow>
   (LandmarkId \<rightharpoonup> Point3f) \<Rightarrow> error + (Plane list \<times> 64 word)" where
  "clusterPlanesFromMesh past_the_end getLocalMaximum1D getLocalMaximum2D geometricEqual fl mesh
      plane_id planes points_with_id_vio =
    (case segmentPlanesInMesh past_the_end getLocalMaximum1D getLocalMaximum2D fl mesh plane_id
            planes
            points_with_id_vio
            (FLAGS_normal_tolerance_polygon_plane_association fl)
            (FLAGS_distance_tolerance_polygon_plane_association fl)
            (FLAGS_normal_tolerance_horizontal_surface fl)
            (FLAGS_normal_tolerance_walls fl) of
       Inl e \<Rightarrow> Inl e
     | Inr (planes', new_planes, plane_id') \<Rightarrow>
         let new_non_associated_planes =
               snd (associatePlanes geometricEqual fl new_planes planes'
                      (FLAGS_normal_tolerance_plane_plane_association fl)
                      (FLAGS_distance_tolerance_plane_plane_association fl))
         in if length new_non_associated_planes > 0 then
              (case updatePlanesLmkIdsFromMesh fl mesh new_non_associated_planes
                      (FLAGS_normal_tolerance_polygon_plane_association fl)
                      (FLAGS_distance_tolerance_polygon_plane_association fl)
                      points_with_id_vio of
                 Inl e \<Rightarrow> Inl e
               | Inr updated \<Rightarrow> Inr (planes' @ updated, plane_id'))
            else Inr (planes', plane_id'))"

section \<open>Single association, as the specification words it\<close>

text \<open>
  Under the single-association policy a segmented plane takes the first backend plane
  that matches it geometrically and whose index is not yet recorded as used, and the
  index is recorded; a segmented plane with no such backend plane is emitted, as it
  is, as non-associated.
\<close>

definition first_unused_match ::
  "(Plane \<Rightarrow> Plane \<Rightarrow> real \<Rightarrow> real \<Rightarrow> bool) \<Rightarrow> real \<Rightarrow> real \<Rightarrow> Plane \<Rightarrow> Plane list \<Rightarrow> 64 word list \<Rightarrow>
   Plane option" where
  "first_unused_match geometricEqual normal_tolerance distance_tolerance segmented_plane planes used =
    find (\<lambda>b. geometricEqual b segmented_plane normal_tolerance distance_tolerance \<and>
              index (m_plane_symbol b) \<notin> set used) planes"

fun single_association ::
  "(Plane \<Rightarrow> Plane \<Rightarrow> real \<Rightarrow> real \<Rightarrow> bool) \<Rightarrow> real \<Rightarrow> real \<Rightarrow> Plane list \<Rightarrow> Plane list \<Rightarrow>
   64 word list \<Rightarrow> Plane list \<Rightarrow> 64 word list \<times> Plane list" where
  "single_association geometricEqual normal_tolerance distance_tolerance [] planes used emitted =
     (used, emitted)"
| "single_association geometricEqual normal_tolerance distance_tolerance (s # rest) planes used emitted =
    (case first_unused_match geometricEqual normal_tolerance distance_tolerance s planes used of
       None \<Rightarrow>
         single_association geometricEqual normal_tolerance distance_tolerance rest planes used
           (emitted @ [s])
     | Some b \<Rightarrow>
         single_association geometricEqual normal_tolerance distance_tolerance rest planes
           (used @ [index (m_plane_symbol b)]) emitted)"

text \<open>
  The symbols \<open>('P', c)\<close>, \<open>('P', c + 1)\<close>, ... of \<open>n\<close> planes created one after the other
  when the plane counter stands at \<open>c\<close>.
\<close>

definition fresh_symbols :: "64 word \<Rightarrow> nat \<Rightarrow> Symbol list" where
  "fresh_symbols c n = map (\<lambda>j. Symbol CHR ''P'' (c + of_nat j)) [0 ..< n]"

section \<open>The longitude, as the specification words it\<close>

text \<open>
  The longitude of a direction \<open>n\<close> relative to a vertical \<open>v\<close>: \<open>n\<close> is projected onto the
  equatorial plane as \<open>n - (v \<cdot> n) v\<close> and the longitude is \<open>atan2\<close> of the projection's \<open>y\<close>
  and \<open>x\<close>.
\<close>

definition longitude :: "Point3f \<Rightarrow> Point3f \<Rightarrow> real" where
  "longitude n v = (let proj = sub3 n (scale3 (ddot v n) v) in atan2 (y proj) (x proj))"

section \<open>Polygons of a cluster and their plane\<close>

text \<open>
  All vertices of a polygon lie within \<open>tol\<close> of a plane, and every triangle id of a
  plane's cluster names a polygon of the mesh of which this holds.
\<close>

definition on_plane_within :: "real \<Rightarrow> Plane \<Rightarrow> Polygon \<Rightarrow> bool" where
  "on_plane_within tol pl polygon =
     list_all (\<lambda>v. \<bar>ddot (getVertexPosition v) (m_normal pl) - m_distance pl\<bar> \<le> tol) polygon"

definition cluster_within :: "Mesh3D \<Rightarrow> real \<Rightarrow> Plane \<Rightarrow> bool" where
  "cluster_within mesh tol pl =
     list_all (\<lambda>t. getPolygon mesh t \<noteq> None \<and>
                   on_plane_within tol pl (the (getPolygon mesh t)))
       (m_triangle_ids (m_triangle_cluster pl))"

section \<open>Updating the mesh\<close>

text \<open>
  Modelled from the spec: the repository's \<^verbatim>\<open>Frame\<close> and \<^verbatim>\<open>StereoFrame\<close>, which are not among
  the source files, with the members that the mesher reads, and the status \<^verbatim>\<open>Kstatus\<close> of
  a stereo key point, of which the mesher tests \<^verbatim>\<open>VALID\<close>. \<^verbatim>\<open>Frame::findLmkIdFromPixel\<close>, the
  2D triangulation that \<^verbatim>\<open>StereoFrame::createMesh2dVIO\<close> followed by
  \<^verbatim>\<open>StereoFrame::filterTrianglesWithGradients\<close> yields for a landmark table, and
  \<^verbatim>\<open>transform_to\<close> and \<^verbatim>\<open>transform_from\<close> of the camera pose are parameters of the functions
  below.
\<close>

datatype Kstatus = VALID | NO_LEFT_RECT | NO_RIGHT_RECT | NO_DEPTH | FAILED_ARUN

record Frame =
  m_landmarks :: "LandmarkId list"
  m_keypoints :: "(real \<times> real) list"

record StereoFrame =
  m_left_frame :: Frame
  m_right_keypoints_status :: "Kstatus list"
  m_keypoints_3d :: "Point3f list"

text \<open>
  The polygon that \<^verbatim>\<open>populate3dMesh\<close> starts with, \<^verbatim>\<open>polygon.resize(3)\<close>: three default
  vertices, each of which is overwritten before the polygon is used.
\<close>

definition default_polygon :: Polygon where
  "default_polygon = replicate 3 (Vertex (- 1) (Point3f 0 0 0))"

text \<open>
  The loop of \<^verbatim>\<open>Mesher::populate3dMesh\<close> over the vertices \<open>j\<close> of one triangle of the 2D
  mesh. It carries the polygon and the mesh; a landmark that is not in the table ends
  the loop (\<^verbatim>\<open>break\<close>).
\<close>

fun populate_vertices ::
  "('pose \<Rightarrow> Point3f \<Rightarrow> Point3f) \<Rightarrow> (Point3f list \<Rightarrow> real) \<Rightarrow> (Frame \<Rightarrow> real \<times> real \<Rightarrow> LandmarkId) \<Rightarrow>
   (LandmarkId \<rightharpoonup> Point3f) \<Rightarrow> Frame \<Rightarrow> 'pose \<Rightarrow> real \<Rightarrow> real \<Rightarrow> real \<Rightarrow> Vec6f \<Rightarrow> nat list \<Rightarrow>
   Polygon \<times> Mesh3D \<Rightarrow> error + (Polygon \<times> Mesh3D)" where
  "populate_vertices transform_to ratio_tr findLmkIdFromPixel points_with_id_map frame
      leftCameraPose min_ratio min_elongation max_side triangle_2d [] st = Inr st"
| "populate_vertices transform_to ratio_tr findLmkIdFromPixel points_with_id_map frame
      leftCameraPose min_ratio min_elongation max_side triangle_2d (j # js) st =
    (let pixel = (vec6_at triangle_2d (j * 2), vec6_at triangle_2d (j * 2 + 1));
         lmk_id = findLmkIdFromPixel frame pixel
     in if lmk_id = - 1 then Inl CheckFailed
        else
          case points_with_id_map lmk_id of
            None \<Rightarrow> Inr st
          | Some point \<Rightarrow>
              if \<not> j < length (fst st) then Inl OutOfRange
              else
                let lmk = to_Point3f point;
                    polygon = (fst st)[j := Vertex lmk_id lmk]
                in if j = 2 then
                     (case isBadTriangle transform_to ratio_tr polygon leftCameraPose
                             min_ratio min_elongation max_side of
                        Inl e \<Rightarrow> Inl e
                      | Inr True \<Rightarrow>
                          populate_vertices transform_to ratio_tr findLmkIdFromPixel
                            points_with_id_map frame leftCameraPose min_ratio min_elongation
                            max_side triangle_2d js (polygon, snd st)
                      | Inr False \<Rightarrow>
                         (case addPolygonToMesh (snd st) polygon of
                            Inl e \<Rightarrow> Inl e
                          | Inr mesh \<Rightarrow>
                              populate_vertices transform_to ratio_tr findLmkIdFromPixel
                                points_with_id_map frame leftCameraPose min_ratio min_elongation
                                max_side triangle_2d js (polygon, mesh)))
                   else
                     populate_vertices transform_to ratio_tr findLmkIdFromPixel
                       points_with_id_map frame leftCameraPose min_ratio min_elongation
                       max_side triangle_2d js (polygon, snd st))"

text \<open>The loop of \<^verbatim>\<open>populate3dMesh\<close> over the triangles of the 2D mesh.\<close>

fun populate_triangles ::
  "('pose \<Rightarrow> Point3f \<Rightarrow> Point3f) \<Rightarrow> (Point3f list \<Rightarrow> real) \<Rightarrow> (Frame \<Rightarrow> real \<times> real \<Rightarrow> LandmarkId) \<Rightarrow>
   (LandmarkId \<rightharpoonup> Point3f) \<Rightarrow> Frame \<Rightarrow> 'pose \<Rightarrow> real \<Rightarrow> real \<Rightarrow> real \<Rightarrow> Vec6f list \<Rightarrow>
   Polygon \<times> Mesh3D \<Rightarrow> error + (Polygon \<times> Mesh3D)" where
  "populate_triangles transform_to ratio_tr findLmkIdFromPixel points_with_id_map frame
      leftCameraPose min_ratio min_elongation max_side [] st = Inr st"
| "populate_triangles transform_to ratio_tr findLmkIdFromPixel points_with_id_map frame
      leftCameraPose min_ratio min_elongation max_side (triangle_2d # rest) st =
    (case populate_vertices transform_to ratio_tr findLmkIdFromPixel points_with_id_map frame
            leftCameraPose min_ratio min_elongation max_side triangle_2d [0 ..< 3] st of
       Inl e \<Rightarrow> Inl e
     | Inr st' \<Rightarrow>
         populate_triangles transform_to ratio_tr findLmkIdFromPixel points_with_id_map frame
           leftCameraPose min_ratio min_elongation max_side rest st')"

text \<open>\<^verbatim>\<open>Mesher::populate3dMesh\<close>: the mesh \<^verbatim>\<open>mesh_\<close> as it leaves it.\<close>

definition populate3dMesh ::
  "('pose \<Rightarrow> Point3f \<Rightarrow> Point3f) \<Rightarrow> (Point3f list \<Rightarrow> real) \<Rightarrow> (Frame \<Rightarrow> real \<times> real \<Rightarrow> LandmarkId) \<Rightarrow>
   Mesh3D \<Rightarrow> Vec6f list \<Rightarrow> (LandmarkId \<rightharpoonup> Point3f) \<Rightarrow> Frame \<Rightarrow> 'pose \<Rightarrow> real \<Rightarrow> real \<Rightarrow> real \<Rightarrow>
   error + Mesh3D" where
  "populate3dMesh transform_to ratio_tr findLmkIdFromPixel mesh mesh_2d points_with_id_map frame
      leftCameraPose min_ratio_largest_smallest_side min_elongation max_side =
    (case populate_triangles transform_to ratio_tr findLmkIdFromPixel points_with_id_map frame
            leftCameraPose min_ratio_largest_smallest_side min_elongation max_side mesh_2d
            (default_polygon, mesh) of
       Inl e \<Rightarrow> Inl e
     | Inr st \<Rightarrow> Inr (snd st))"

text \<open>
  The loop of \<^verbatim>\<open>Mesher::updatePolygonMeshToTimeHorizon\<close> over the vertices of a polygon: the
  polygon with the positions it has when the loop ends, and \<open>save_polygon\<close>. The
  constructor of \<^verbatim>\<open>Mesh3D::VertexPosition3D\<close>, a \<^verbatim>\<open>cv::Point3f\<close>, converts the table's doubles
  to floats.
\<close>

fun refresh_vertices ::
  "(LandmarkId \<rightharpoonup> Point3f) \<Rightarrow> bool \<Rightarrow> Vertex list \<Rightarrow> Vertex list \<times> bool" where
  "refresh_vertices points_with_id_map reduce [] = ([], True)"
| "refresh_vertices points_with_id_map reduce (vertex # rest) =
    (case points_with_id_map (getLmkId vertex) of
       None \<Rightarrow>
         if reduce then (vertex # rest, False)
         else (vertex # fst (refresh_vertices points_with_id_map reduce rest),
               snd (refresh_vertices points_with_id_map reduce rest))
     | Some point \<Rightarrow>
         (Vertex (getLmkId vertex) (to_Point3f point) #
            fst (refresh_vertices points_with_id_map reduce rest),
          snd (refresh_vertices points_with_id_map reduce rest)))"

text \<open>The loop over the polygons; \<open>mesh_output\<close> is the last argument.\<close>

fun time_horizon_loop ::
  "('pose \<Rightarrow> Point3f \<Rightarrow> Point3f) \<Rightarrow> (Point3f list \<Rightarrow> real) \<Rightarrow> Mesh3D \<Rightarrow> (LandmarkId \<rightharpoonup> Point3f) \<Rightarrow>
   'pose \<Rightarrow> real \<Rightarrow> real \<Rightarrow> bool \<Rightarrow> nat list \<Rightarrow> Mesh3D \<Rightarrow> error + Mesh3D" where
  "time_horizon_loop transform_to ratio_tr mesh points_with_id_map leftCameraPose min_ratio
      max_side reduce [] mesh_output = Inr mesh_output"
| "time_horizon_loop transform_to ratio_tr mesh points_with_id_map leftCameraPose min_ratio
      max_side reduce (i # rest) mesh_output =
    (case getPolygon mesh i of
       None \<Rightarrow> Inl CheckFailed
     | Some polygon0 \<Rightarrow>
         let polygon = fst (refresh_vertices points_with_id_map reduce polygon0);
             save_polygon = snd (refresh_vertices points_with_id_map reduce polygon0)
         in if save_polygon then
              (case isBadTriangle transform_to ratio_tr polygon leftCameraPose min_ratio (- 1)
                      max_side of
                 Inl e \<Rightarrow> Inl e
               | Inr True \<Rightarrow>
                   time_horizon_loop transform_to ratio_tr mesh points_with_id_map
                     leftCameraPose min_ratio max_side reduce rest mesh_output
               | Inr False \<Rightarrow>
                  (case addPolygonToMesh mesh_output polygon of
                     Inl e \<Rightarrow> Inl e
                   | Inr mesh_output' \<Rightarrow>
                       time_horizon_loop transform_to ratio_tr mesh points_with_id_map
                         leftCameraPose min_ratio max_side reduce rest mesh_output'))
            else
              time_horizon_loop transform_to ratio_tr mesh points_with_id_map leftCameraPose
                min_ratio max_side reduce rest mesh_output)"

text \<open>\<^verbatim>\<open>Mesher::updatePolygonMeshToTimeHorizon\<close>: the mesh that replaces \<^verbatim>\<open>mesh_\<close>.\<close>

definition updatePolygonMeshToTimeHorizon ::
  "('pose \<Rightarrow> Point3f \<Rightarrow> Point3f) \<Rightarrow> (Point3f list \<Rightarrow> real) \<Rightarrow> Mesh3D \<Rightarrow> (LandmarkId \<rightharpoonup> Point3f) \<Rightarrow>
   'pose \<Rightarrow> real \<Rightarrow> real \<Rightarrow> bool \<Rightarrow> error + Mesh3D" where
  "updatePolygonMeshToTimeHorizon transform_to ratio_tr mesh points_with_id_map leftCameraPose
      min_ratio_largest_smallest_side max_side reduce_mesh_to_time_horizon =
    time_horizon_loop transform_to ratio_tr mesh points_with_id_map leftCameraPose
      min_ratio_largest_smallest_side max_side reduce_mesh_to_time_horizon
      [0 ..< getNumberOfPolygons mesh] empty_mesh"

text \<open>\<^verbatim>\<open>Mesher::populate3dMeshTimeHorizon\<close>.\<close>

definition populate3dMeshTimeHorizon ::
  "('pose \<Rightarrow> Point3f \<Rightarrow> Point3f) \<Rightarrow> (Point3f list \<Rightarrow> real) \<Rightarrow> (Frame \<Rightarrow> real \<times> real \<Rightarrow> LandmarkId) \<Rightarrow>
   MesherFlags \<Rightarrow> Mesh3D \<Rightarrow> Vec6f list \<Rightarrow> (LandmarkId \<rightharpoonup> Point3f) \<Rightarrow> Frame \<Rightarrow> 'pose \<Rightarrow>
   real \<Rightarrow> real \<Rightarrow> real \<Rightarrow> error + Mesh3D" where
  "populate3dMeshTimeHorizon transform_to ratio_tr findLmkIdFromPixel fl mesh mesh_2d
      points_with_id_map frame leftCameraPose min_ratio_largest_smallest_side min_elongation
      max_side =
    (case populate3dMesh transform_to ratio_tr findLmkIdFromPixel mesh mesh_2d
            points_with_id_map frame leftCameraPose min_ratio_largest_smallest_side
            min_elongation max_side of
       Inl e \<Rightarrow> Inl e
     | Inr mesh' \<Rightarrow>
         updatePolygonMeshToTimeHorizon transform_to ratio_tr mesh' points_with_id_map
           leftCameraPose min_ratio_largest_smallest_side max_side
           (FLAGS_reduce_mesh_to_time_horizon fl))"

text \<open>
  \<^verbatim>\<open>Mesher::appendNonVioStereoPoints\<close>: the loop over the indices of the left frame's
  landmarks, then the function. \<^verbatim>\<open>insert\<close> does not replace an entry of the table.
\<close>

fun append_stereo_loop ::
  "('pose \<Rightarrow> Point3f \<Rightarrow> Point3f) \<Rightarrow> StereoFrame \<Rightarrow> 'pose \<Rightarrow> nat list \<Rightarrow> (LandmarkId \<rightharpoonup> Point3f) \<Rightarrow>
   error + (LandmarkId \<rightharpoonup> Point3f)" where
  "append_stereo_loop transform_from stereoFrame leftCameraPose [] points_with_id_stereo =
     Inr points_with_id_stereo"
| "append_stereo_loop transform_from stereoFrame leftCameraPose (i # rest) points_with_id_stereo =
    (if \<not> i < length (m_right_keypoints_status stereoFrame) then Inl OutOfRange
     else if m_right_keypoints_status stereoFrame ! i = VALID \<and>
             m_landmarks (m_left_frame stereoFrame) ! i \<noteq> - 1 then
       (if \<not> i < length (m_keypoints_3d stereoFrame) then Inl OutOfRange
        else
          let p_i_global = transform_from leftCameraPose (m_keypoints_3d stereoFrame ! i);
              lmk_id = m_landmarks (m_left_frame stereoFrame) ! i
          in append_stereo_loop transform_from stereoFrame leftCameraPose rest
               (if points_with_id_stereo lmk_id = None
                then points_with_id_stereo(lmk_id \<mapsto> p_i_global)
                else points_with_id_stereo))
     else append_stereo_loop transform_from stereoFrame leftCameraPose rest points_with_id_stereo)"

definition appendNonVioStereoPoints ::
  "('pose \<Rightarrow> Point3f \<Rightarrow> Point3f) \<Rightarrow> StereoFrame \<Rightarrow> 'pose \<Rightarrow> (LandmarkId \<rightharpoonup> Point3f) \<Rightarrow>
   error + (LandmarkId \<rightharpoonup> Point3f)" where
  "appendNonVioStereoPoints transform_from stereoFrame leftCameraPose points_with_id_stereo =
    append_stereo_loop transform_from stereoFrame leftCameraPose
      [0 ..< length (m_landmarks (m_left_frame stereoFrame))] points_with_id_stereo"

text \<open>
  The landmark table \<open>*points_with_id_all\<close> that \<^verbatim>\<open>Mesher::updateMesh3D\<close> builds the mesh
  from: the table it is given, to which the stereo landmarks are added when
  \<^verbatim>\<open>add_extra_lmks_from_stereo\<close> is set.
\<close>

definition points_with_id_all ::
  "('pose \<Rightarrow> Point3f \<Rightarrow> Point3f) \<Rightarrow> MesherFlags \<Rightarrow> (LandmarkId \<rightharpoonup> Point3f) \<Rightarrow> StereoFrame \<Rightarrow> 'pose \<Rightarrow>
   error + (LandmarkId \<rightharpoonup> Point3f)" where
  "points_with_id_all transform_from fl points_with_id_VIO stereoFrame leftCameraPose =
    (if FLAGS_add_extra_lmks_from_stereo fl
     then appendNonVioStereoPoints transform_from stereoFrame leftCameraPose points_with_id_VIO
     else Inr points_with_id_VIO)"

text \<open>
  \<^verbatim>\<open>Mesher::updateMesh3D\<close>: the mesh \<^verbatim>\<open>mesh_\<close> as it leaves it. The image of the 2D mesh,
  which it draws when a visualization flag is set, is not modelled.
\<close>

definition updateMesh3D ::
  "('pose \<Rightarrow> Point3f \<Rightarrow> Point3f) \<Rightarrow> ('pose \<Rightarrow> Point3f \<Rightarrow> Point3f) \<Rightarrow> (Point3f list \<Rightarrow> real) \<Rightarrow>
   (Frame \<Rightarrow> real \<times> real \<Rightarrow> LandmarkId) \<Rightarrow> (StereoFrame \<Rightarrow> (LandmarkId \<rightharpoonup> Point3f) \<Rightarrow> Vec6f list) \<Rightarrow>
   MesherFlags \<Rightarrow> Mesh3D \<Rightarrow> (LandmarkId \<rightharpoonup> Point3f) \<Rightarrow> StereoFrame \<Rightarrow> 'pose \<Rightarrow> error + Mesh3D" where
  "updateMesh3D transform_to transform_from ratio_tr findLmkIdFromPixel mesh_2d_filtered fl mesh
      points_with_id_VIO stereoFrame leftCameraPose =
    (case points_with_id_all transform_from fl points_with_id_VIO stereoFrame leftCameraPose of
       Inl e \<Rightarrow> Inl e
     | Inr points \<Rightarrow>
         populate3dMeshTimeHorizon transform_to ratio_tr findLmkIdFromPixel fl mesh
           (mesh_2d_filtered stereoFrame points) points (m_left_frame stereoFrame) leftCameraPose
           (FLAGS_min_ratio_btw_largest_smallest_side fl) (FLAGS_min_elongation_ratio fl)
           (FLAGS_max_triangle_side fl))"

section \<open>Meshes whose slots follow a position function\<close>

text \<open>
  \<open>mk_polygon f ids\<close> is the polygon with the landmark ids \<open>ids\<close> and the positions that
  \<open>f\<close> gives them. A mesh agrees with \<open>f\<close> when the slot of every landmark of every
  polygon holds the position that \<open>f\<close> gives it. \<open>merge_mesh m d\<close> is \<open>m\<close> after the
  polygons of \<open>d\<close> have been added to it in their order.
\<close>

definition mk_polygon :: "(LandmarkId \<Rightarrow> Point3f) \<Rightarrow> LandmarkId list \<Rightarrow> Polygon" where
  "mk_polygon f ids = map (\<lambda>k. Vertex k (f k)) ids"

definition mesh_agrees :: "Mesh3D \<Rightarrow> (LandmarkId \<Rightarrow> Point3f) \<Rightarrow> bool" where
  "mesh_agrees m f =
    list_all (\<lambda>ids. list_all (\<lambda>k. vertex_slots m k = Some (f k)) ids) (polygons_mesh m)"

definition merge_mesh :: "Mesh3D \<Rightarrow> Mesh3D \<Rightarrow> Mesh3D" where
  "merge_mesh m d =
    \<lparr>vertex_slots = vertex_slots m ++ vertex_slots d,
     polygons_mesh = polygons_mesh m @ polygons_mesh d\<rparr>"

text \<open>
  The position that the time-horizon update leaves in the slot of a landmark: the
  table's position, converted to floats, when the landmark is in the table, else the
  position \<open>g\<close> it had.
\<close>

definition refreshed_position ::
  "(LandmarkId \<rightharpoonup> Point3f) \<Rightarrow> (LandmarkId \<Rightarrow> Point3f) \<Rightarrow> LandmarkId \<Rightarrow> Point3f" where
  "refreshed_position tbl g k = (case tbl k of Some p \<Rightarrow> to_Point3f p | None \<Rightarrow> g k)"

section \<open>Concrete inputs\<close>

text \<open>
  A right triangle with unit legs, a camera pose type with one value whose
  \<^verbatim>\<open>transform_to\<close> is the identity, and an elongation helper that always answers 1.
\<close>

definition unit_triangle :: Polygon where
  "unit_triangle = [Vertex 1 (Point3f 0 0 0), Vertex 2 (Point3f 1 0 0), Vertex 3 (Point3f 0 1 0)]"

definition id_pose :: "unit \<Rightarrow> Point3f \<Rightarrow> Point3f" where
  "id_pose u p = p"

definition const_ratio :: "Point3f list \<Rightarrow> real" where
  "const_ratio ps = 1"

text \<open>An image whose pixels are all 0.\<close>

definition dark_image :: "int \<Rightarrow> int \<Rightarrow> 8 word" where
  "dark_image r c = 0"

text \<open>
  Planes for the association: two backend planes \<open>P0\<close> and \<open>P1\<close>, three segmented
  planes \<open>P5\<close>, \<open>P6\<close> and \<open>P7\<close>, and a \<^verbatim>\<open>geometricEqual\<close> that compares the distances only.
\<close>

definition plane_at :: "nat \<Rightarrow> real \<Rightarrow> Plane" where
  "plane_at k d = Plane_ctor (Symbol CHR ''P'' (of_nat k)) (Point3f 0 0 1) d [] 2"

definition same_distance :: "Plane \<Rightarrow> Plane \<Rightarrow> real \<Rightarrow> real \<Rightarrow> bool" where
  "same_distance a b normal_tolerance distance_tolerance =
    (\<bar>m_distance a - m_distance b\<bar> \<le> distance_tolerance)"

definition single_flags :: MesherFlags where
  "single_flags =
    \<lparr>FLAGS_add_extra_lmks_from_stereo = False,
     FLAGS_reduce_mesh_to_time_horizon = True,
     FLAGS_min_ratio_btw_largest_smallest_side = 1 / 2,
     FLAGS_min_elongation_ratio = 1 / 2,
     FLAGS_max_triangle_side = 10,
     FLAGS_normal_tolerance_polygon_plane_association = 11 / 1000,
     FLAGS_distance_tolerance_polygon_plane_association = 1 / 10,
     FLAGS_normal_tolerance_plane_plane_association = 11 / 1000,
     FLAGS_distance_tolerance_plane_plane_association = 1 / 5,
     FLAGS_do_double_association = False,
     FLAGS_normal_tolerance_horizontal_surface = 11 / 1000,
     FLAGS_normal_tolerance_walls = 165 / 10000,
     FLAGS_only_use_non_clustered_points = True,
     FLAGS_z_histogram_min_separation = 1 / 10,
     FLAGS_z_histogram_max_number_of_peaks_to_select = 3\<rparr>"

text \<open>
  Histograms for the plane counter: a 1D histogram that reports three peaks, of which
  the second and the third are closer than the minimal separation and the third has
  the greater support, and a 2D histogram that reports one peak, whatever the samples.
  On these peaks the first loop of \<^verbatim>\<open>segmentHorizontalPlanes\<close> erases the second peak
  through \<^verbatim>\<open>previous_peak_it\<close>, reads the iterator again in the next pass, where it finds
  the third peak, and erases the third peak as well. No iterator past the end is used
  on them; \<open>loop_is_left\<close> is a program that would leave the loop there with the peaks it
  has.
\<close>

definition three_peaks_1d :: "real list \<Rightarrow> PeakInfo list" where
  "three_peaks_1d z_components =
    [\<lparr>m_pos = 200, m_support = 60, m_value = 2\<rparr>, \<lparr>m_pos = 10, m_support = 60, m_value = 0\<rparr>,
     \<lparr>m_pos = 12, m_support = 80, m_value = 1 / 20\<rparr>]"

definition one_peak_2d :: "(real \<times> real) list \<Rightarrow> PeakInfo2D list" where
  "one_peak_2d walls = [\<lparr>m_pos2d = (0, 20), m_support2d = 30, m_x_value = 0, m_y_value = 1\<rparr>]"

definition loop_is_left ::
  "PeakInfo list \<Rightarrow> real \<Rightarrow> PeakInfo list \<Rightarrow> nat \<Rightarrow> nat \<Rightarrow> nat \<Rightarrow> real \<Rightarrow>
   error + PeakInfo list" where
  "loop_is_left all_peaks min_separation peaks it i previous_peak_it previous_plane_distance =
    Inr peaks"

text \<open>The planes that two frames create from these histograms, the counter starting at 0.\<close>

definition four_planes :: "Plane list list" where
  "four_planes =
    [[Plane_ctor (Symbol CHR ''P'' 0) vertical 2 [] 2,
      Plane_ctor (Symbol CHR ''P'' 1) (Point3f 1 0 0) 1 [] 1],
     [Plane_ctor (Symbol CHR ''P'' 2) vertical 2 [] 2,
      Plane_ctor (Symbol CHR ''P'' 3) (Point3f 1 0 0) 1 [] 1]]"



text \<open>
  A triangle whose normal points west and, by \<open>2\<^sup>-\<^sup>2\<^sup>6\<close> of its length, south; the
  coordinates of its vertices are floats.
\<close>

definition west_by_south_triangle :: Polygon where
  "west_by_south_triangle =
    [Vertex 1 (Point3f 0 0 0), Vertex 2 (Point3f (- (1 / 67108864)) 1 0), Vertex 3 (Point3f 0 0 (-1))]"

text \<open>
  A mesh that holds the unit triangle, which lies in the plane \<open>z = 0\<close>, and the planes
  that \<^verbatim>\<open>clusterPlanesFromMesh\<close> leaves when the seed plane is \<open>P0\<close> at distance 0, the
  counter stands at 1 and the histograms are the ones above.
\<close>

definition one_triangle_mesh :: Mesh3D where
  "one_triangle_mesh =
    \<lparr>vertex_slots = [1 \<mapsto> Point3f 0 0 0, 2 \<mapsto> Point3f 1 0 0, 3 \<mapsto> Point3f 0 1 0],
     polygons_mesh = [[1, 2, 3]]\<rparr>"

definition clustered_planes :: "Plane list" where
  "clustered_planes =
    [(plane_at 0 0)\<lparr>m_lmk_ids := [1, 2, 3],
                    m_triangle_cluster := \<lparr>m_cluster_id = 2, m_triangle_ids = [0]\<rparr>\<rparr>,
     Plane_ctor (Symbol CHR ''P'' 1) vertical 2 [] 2,
     Plane_ctor (Symbol CHR ''P'' 2) (Point3f 1 0 0) 1 [] 1]"

text \<open>
  A frame for the mesh update: three landmarks 1, 2 and 3 seen at the pixels \<open>(0,0)\<close>,
  \<open>(3,0)\<close> and \<open>(0,4)\<close>, with valid stereo points that form a right triangle with the sides
  3, 4 and 5; a \<^verbatim>\<open>findLmkIdFromPixel\<close> that looks the pixel up among the frame's key points
  and answers -1 when it is not there; a 2D triangulation of one triangle over the three
  pixels; and the landmark table that holds the three landmarks at the stereo points.
\<close>

definition triangle_345 :: Polygon where
  "triangle_345 = [Vertex 1 (Point3f 0 0 0), Vertex 2 (Point3f 3 0 0), Vertex 3 (Point3f 0 4 0)]"

definition frame_345 :: StereoFrame where
  "frame_345 =
    \<lparr>m_left_frame = \<lparr>m_landmarks = [1, 2, 3], m_keypoints = [(0, 0), (3, 0), (0, 4)]\<rparr>,
     m_right_keypoints_status = [VALID, VALID, VALID],
     m_keypoints_3d = [Point3f 0 0 0, Point3f 3 0 0, Point3f 0 4 0]\<rparr>"

definition lookup_pixel :: "Frame \<Rightarrow> real \<times> real \<Rightarrow> LandmarkId" where
  "lookup_pixel frame pixel =
    (case find (\<lambda>kl. fst kl = pixel) (zip (m_keypoints frame) (m_landmarks frame)) of
       None \<Rightarrow> - 1
     | Some kl \<Rightarrow> snd kl)"

definition one_triangle_2d :: "StereoFrame \<Rightarrow> (LandmarkId \<rightharpoonup> Point3f) \<Rightarrow> Vec6f list" where
  "one_triangle_2d stereoFrame points = [Vec6f 0 0 3 0 0 4]"

definition table_345 :: "LandmarkId \<rightharpoonup> Point3f" where
  "table_345 = [1 \<mapsto> Point3f 0 0 0, 2 \<mapsto> Point3f 3 0 0, 3 \<mapsto> Point3f 0 4 0]"

definition no_landmarks :: "LandmarkId \<rightharpoonup> Point3f" where
  "no_landmarks = Map.empty"

definition stereo_flags :: MesherFlags where
  "stereo_flags = single_flags\<lparr>FLAGS_add_extra_lmks_from_stereo := True\<rparr>"

text \<open>The mesh after one update from the empty mesh, and after a second update.\<close>

definition mesh_345 :: Mesh3D where
  "mesh_345 = \<lparr>vertex_slots = table_345, polygons_mesh = [[1, 2, 3]]\<rparr>"

definition mesh_345_twice :: Mesh3D where
  "mesh_345_twice = \<lparr>vertex_slots = table_345, polygons_mesh = [[1, 2, 3], [1, 2, 3]]\<rparr>"

section \<open>Rounding\<close>

lemma round_half_even_bounds:
  "\<lfloor>v\<rfloor> \<le> round_half_even v" "round_half_even v \<le> \<lfloor>v\<rfloor> + 1"
  by (simp_all add: round_half_even_def Let_def)

lemma round_half_even_error: "\<bar>of_int (round_half_even v) - v\<bar> \<le> 1 / 2"
proof -
  have "of_int \<lfloor>v\<rfloor> \<le> v" "v < of_int \<lfloor>v\<rfloor> + 1" by linarith+
  then show ?thesis
    by (auto simp: round_half_even_def Let_def abs_le_iff)
qed

lemma round_half_even_of_int [simp]: "round_half_even (of_int n) = n"
  by (simp add: round_half_even_def)

lemma round_half_even_mono:
  assumes "v \<le> w"
  shows "round_half_even v \<le> round_half_even w"
proof (cases "\<lfloor>v\<rfloor> < \<lfloor>w\<rfloor>")
  case True
  then show ?thesis
    using round_half_even_bounds(2)[of v] round_half_even_bounds(1)[of w] by linarith
next
  case False
  then have eq: "\<lfloor>v\<rfloor> = \<lfloor>w\<rfloor>" using floor_mono[OF assms] by linarith
  show ?thesis using assms unfolding round_half_even_def Let_def eq
    by (auto split: if_splits)
qed

lemma round_half_even_minus: "round_half_even (- v) = - round_half_even v"
proof (cases "v = of_int \<lfloor>v\<rfloor>")
  case True
  then obtain n :: int where "v = of_int n" by metis
  then have "- v = of_int (- n)" by simp
  then show ?thesis unfolding \<open>v = of_int n\<close> by (simp only: round_half_even_of_int)
next
  case False
  have "of_int \<lfloor>v\<rfloor> \<le> v" "v < of_int \<lfloor>v\<rfloor> + 1" by linarith+
  have lt: "of_int \<lfloor>v\<rfloor> < v"
    using False \<open>of_int \<lfloor>v\<rfloor> \<le> v\<close> by (auto simp: less_le)
  have fl: "\<lfloor>- v\<rfloor> = - \<lfloor>v\<rfloor> - 1"
  proof (rule floor_unique)
    show "of_int (- \<lfloor>v\<rfloor> - 1) \<le> - v" by (simp; linarith)
    show "- v < of_int (- \<lfloor>v\<rfloor> - 1) + 1" using lt by simp
  qed
  show ?thesis
    unfolding round_half_even_def Let_def fl
    using lt \<open>v < of_int \<lfloor>v\<rfloor> + 1\<close> by (auto split: if_splits)
qed

lemma exponent_search_range:
  "lo \<le> exponent_search k lo v \<and> exponent_search k lo v < lo + 2 ^ k"
proof (induction k arbitrary: lo)
  case 0
  then show ?case by simp
next
  case (Suc k)
  show ?case using Suc[of lo] Suc[of "lo + 2 ^ k"] by auto
qed

lemma exponent_search_lower:
  "exponent_search k lo v = lo \<or> 2 powi (exponent_search k lo v) \<le> v"
proof (induction k arbitrary: lo)
  case 0
  then show ?case by simp
next
  case (Suc k)
  show ?case using Suc[of lo] Suc[of "lo + 2 ^ k"] by auto
qed

lemma exponent_search_upper:
  "exponent_search k lo v = lo + 2 ^ k - 1 \<or> v < 2 powi (exponent_search k lo v + 1)"
proof (induction k arbitrary: lo)
  case 0
  then show ?case by simp
next
  case (Suc k)
  show ?case
  proof (cases "2 powi (lo + 2 ^ k) \<le> v")
    case True
    then show ?thesis using Suc[of "lo + 2 ^ k"] by auto
  next
    case False
    then have lt: "v < 2 powi (lo + 2 ^ k)" by simp
    from Suc[of lo] show ?thesis
    proof
      assume "exponent_search k lo v = lo + 2 ^ k - 1"
      then show ?thesis using False lt by simp
    next
      assume "v < 2 powi (exponent_search k lo v + 1)"
      then show ?thesis using False by simp
    qed
  qed
qed

lemma two_powi_mono: "a \<le> b \<Longrightarrow> (2::real) powi a \<le> 2 powi b"
  by (rule power_int_increasing) simp_all

lemma exponent_search_unique:
  assumes "lo \<le> e" "e < lo + 2 ^ k" "2 powi e \<le> v" "v < 2 powi (e + 1)"
  shows "exponent_search k lo v = e"
proof -
  let ?r = "exponent_search k lo v"
  have "\<not> ?r < e"
  proof
    assume lt: "?r < e"
    then have "?r \<noteq> lo + 2 ^ k - 1" using assms(2) by linarith
    then have "v < 2 powi (?r + 1)" using exponent_search_upper[of k lo v] by blast
    also have "\<dots> \<le> 2 powi e" using lt by (intro two_powi_mono) simp
    finally show False using assms(3) by simp
  qed
  moreover have "\<not> e < ?r"
  proof
    assume lt: "e < ?r"
    then have "?r \<noteq> lo" using assms(1) by linarith
    then have "2 powi ?r \<le> v" using exponent_search_lower[of k lo v] by blast
    moreover have "2 powi (e + 1) \<le> (2::real) powi ?r" using lt by (intro two_powi_mono) simp
    ultimately show False using assms(4) by simp
  qed
  ultimately show ?thesis by simp
qed

lemma exponent_search_bottom:
  assumes "v < 2 powi (lo + 1)"
  shows "exponent_search k lo v = lo"
proof (rule ccontr)
  let ?r = "exponent_search k lo v"
  assume ne: "?r \<noteq> lo"
  then have "2 powi ?r \<le> v" using exponent_search_lower[of k lo v] by blast
  moreover have "lo + 1 \<le> ?r" using ne exponent_search_range[of lo k v] by simp
  then have "2 powi (lo + 1) \<le> (2::real) powi ?r" by (rule two_powi_mono)
  ultimately show False using assms by simp
qed

lemma exponent_search_mono:
  assumes "v \<le> w"
  shows "exponent_search k lo v \<le> exponent_search k lo w"
proof (rule ccontr)
  let ?rv = "exponent_search k lo v" and ?rw = "exponent_search k lo w"
  assume "\<not> ?rv \<le> ?rw"
  then have lt: "?rw < ?rv" by simp
  then have "?rv \<noteq> lo" using exponent_search_range[of lo k w] by linarith
  then have a: "2 powi ?rv \<le> v" using exponent_search_lower[of k lo v] by blast
  have "?rw \<noteq> lo + 2 ^ k - 1" using lt exponent_search_range[of lo k v] by linarith
  then have "w < 2 powi (?rw + 1)" using exponent_search_upper[of k lo w] by blast
  also have "\<dots> \<le> 2 powi ?rv" using lt by (intro two_powi_mono) simp
  finally show False using a assms by simp
qed

lemma round_to_precision_minus:
  "round_to_precision p emin k (- v) = - round_to_precision p emin k v"
  by (simp add: round_to_precision_def Let_def round_half_even_minus)

lemma round_to_precision_zero [simp]: "round_to_precision p emin k 0 = 0"
  by (simp add: round_to_precision_def Let_def round_half_even_def)

lemma round_to_precision_nonneg:
  assumes "0 \<le> v"
  shows "0 \<le> round_to_precision p emin k v"
proof -
  let ?u = "(2::real) powi (exponent_search k emin \<bar>v\<bar> - int p + 1)"
  have "0 < ?u" by simp
  then have "0 \<le> v / ?u" using assms by simp
  then have "round_half_even 0 \<le> round_half_even (v / ?u)" by (rule round_half_even_mono)
  then have "0 \<le> round_half_even (v / ?u)" by (simp add: round_half_even_def)
  then show ?thesis by (simp add: round_to_precision_def Let_def)
qed

lemma round_to_precision_error:
  "\<bar>round_to_precision p emin k v - v\<bar> \<le>
     2 powi (exponent_search k emin \<bar>v\<bar> - int p + 1) / 2"
proof -
  let ?u = "(2::real) powi (exponent_search k emin \<bar>v\<bar> - int p + 1)"
  have u: "0 < ?u" by simp
  have "\<bar>of_int (round_half_even (v / ?u)) - v / ?u\<bar> \<le> 1 / 2"
    by (rule round_half_even_error)
  then have "\<bar>of_int (round_half_even (v / ?u)) - v / ?u\<bar> * ?u \<le> 1 / 2 * ?u"
    using u by (intro mult_right_mono) simp_all
  moreover have "(of_int (round_half_even (v / ?u)) - v / ?u) * ?u =
                 of_int (round_half_even (v / ?u)) * ?u - v"
    using u by (simp add: left_diff_distrib)
  then have "\<bar>of_int (round_half_even (v / ?u)) - v / ?u\<bar> * ?u =
                 \<bar>of_int (round_half_even (v / ?u)) * ?u - v\<bar>"
    using u by (metis abs_mult abs_of_pos)
  ultimately show ?thesis by (simp add: round_to_precision_def Let_def)
qed

lemma two_powi_diff: "(2::real) powi a / 2 powi b = 2 powi (a - b)"
  by (simp add: power_int_diff)

lemma round_to_precision_mono_nonneg:
  assumes "0 \<le> v" "v \<le> w" "0 < p"
  shows "round_to_precision p emin k v \<le> round_to_precision p emin k w"
proof -
  let ?ev = "exponent_search k emin \<bar>v\<bar>" and ?ew = "exponent_search k emin \<bar>w\<bar>"
  let ?uv = "(2::real) powi (?ev - int p + 1)" and ?uw = "(2::real) powi (?ew - int p + 1)"
  have av: "\<bar>v\<bar> = v" and aw: "\<bar>w\<bar> = w" using assms by simp_all
  have le: "?ev \<le> ?ew" using assms by (intro exponent_search_mono) simp
  show ?thesis
  proof (cases "?ev = ?ew")
    case True
    have "v / ?uw \<le> w / ?uw" using assms(2) by (simp add: divide_right_mono)
    then have "round_half_even (v / ?uw) \<le> round_half_even (w / ?uw)"
      by (rule round_half_even_mono)
    then have "real_of_int (round_half_even (v / ?uw)) * ?uw \<le> real_of_int (round_half_even (w / ?uw)) * ?uw"
      by (intro mult_right_mono) simp_all
    then show ?thesis by (simp add: round_to_precision_def Let_def True)
  next
    case False
    then have lt: "?ev < ?ew" using le by simp
    have "?ew \<noteq> emin" using lt exponent_search_range[of emin k "\<bar>v\<bar>"] by linarith
    then have wl: "2 powi ?ew \<le> w" using exponent_search_lower[of k emin "\<bar>w\<bar>"] aw by auto
    have "?ev \<noteq> emin + 2 ^ k - 1" using lt exponent_search_range[of emin k "\<bar>w\<bar>"] by linarith
    then have vu: "v < 2 powi (?ev + 1)" using exponent_search_upper[of k emin "\<bar>v\<bar>"] av by auto
    \<comment> \<open>the rounded v is at most the next power of two\<close>
    have "v / ?uv \<le> 2 powi (?ev + 1) / ?uv" using vu by (simp add: divide_right_mono)
    also have "\<dots> = 2 powi int p" by (simp add: two_powi_diff)
    also have "\<dots> = of_int (2 ^ p)" by simp
    finally have "round_half_even (v / ?uv) \<le> round_half_even (of_int (2 ^ p))"
      by (rule round_half_even_mono)
    then have "real_of_int (round_half_even (v / ?uv)) \<le> 2 ^ p"
      by (simp only: round_half_even_of_int) (metis of_int_le_iff of_int_numeral of_int_power)
    then have "real_of_int (round_half_even (v / ?uv)) * ?uv \<le> 2 ^ p * ?uv"
      by (intro mult_right_mono) simp_all
    also have "2 ^ p * ?uv = 2 powi int p * ?uv" by simp
    also have "\<dots> = 2 powi (?ev + 1)"
      by (simp add: power_int_add[symmetric] del: power_int_of_nat)
    also have "\<dots> \<le> 2 powi ?ew" using lt by (intro two_powi_mono) simp
    finally have a: "round_to_precision p emin k v \<le> 2 powi ?ew"
      by (simp add: round_to_precision_def Let_def)
    \<comment> \<open>the rounded w is at least the power of two below it\<close>
    have "2 powi ?ew / ?uw \<le> w / ?uw" using wl by (simp add: divide_right_mono)
    moreover have "2 powi ?ew / ?uw = 2 powi (int p - 1)" by (simp add: two_powi_diff)
    moreover have "(2::real) powi (int p - 1) = of_int (2 ^ (p - 1))"
      using assms(3) by (simp add: power_int_def nat_diff_distrib')
    ultimately have "round_half_even (of_int (2 ^ (p - 1))) \<le> round_half_even (w / ?uw)"
      by (intro round_half_even_mono) simp
    then have "(2::real) ^ (p - 1) \<le> real_of_int (round_half_even (w / ?uw))"
      by (simp only: round_half_even_of_int) (metis of_int_le_iff of_int_numeral of_int_power)
    then have c: "2 ^ (p - 1) * ?uw \<le> real_of_int (round_half_even (w / ?uw)) * ?uw"
      by (intro mult_right_mono) simp_all
    have "2 powi ?ew = 2 powi (int p - 1) * ?uw"
      by (simp add: power_int_add[symmetric] del: power_int_of_nat)
    also have "\<dots> = 2 ^ (p - 1) * ?uw"
      using assms(3) by (simp add: power_int_def nat_diff_distrib')
    also note c
    finally have b: "2 powi ?ew \<le> round_to_precision p emin k w"
      by (simp add: round_to_precision_def Let_def)
    from a b show ?thesis by simp
  qed
qed

lemma round_to_precision_mono:
  assumes "v \<le> w" "0 < p"
  shows "round_to_precision p emin k v \<le> round_to_precision p emin k w"
proof -
  consider "0 \<le> v" | "v < 0" "0 \<le> w" | "w < 0" using assms(1) by linarith
  then show ?thesis
  proof cases
    case 1
    then show ?thesis using assms by (intro round_to_precision_mono_nonneg)
  next
    case 2
    have "0 \<le> round_to_precision p emin k (- v)"
      using 2 by (intro round_to_precision_nonneg) simp
    then have "round_to_precision p emin k v \<le> 0"
      by (simp add: round_to_precision_minus)
    moreover have "0 \<le> round_to_precision p emin k w"
      using 2 by (intro round_to_precision_nonneg)
    ultimately show ?thesis by simp
  next
    case 3
    have "round_to_precision p emin k (- w) \<le> round_to_precision p emin k (- v)"
      using 3 assms by (intro round_to_precision_mono_nonneg) simp_all
    then show ?thesis by (simp add: round_to_precision_minus)
  qed
qed

lemma round_to_precision_eval:
  assumes "emin \<le> e" "e < emin + 2 ^ k" "2 powi e \<le> \<bar>v\<bar>" "\<bar>v\<bar> < 2 powi (e + 1)"
  shows "round_to_precision p emin k v =
         of_int (round_half_even (v / 2 powi (e - int p + 1))) * 2 powi (e - int p + 1)"
  using exponent_search_unique[OF assms] by (simp add: round_to_precision_def Let_def)

lemma round_to_precision_fixed:
  assumes v: "v = of_int m * 2 powi q" and m: "\<bar>m\<bar> < 2 ^ p"
    and q: "emin - int p + 1 \<le> q" and top: "\<bar>v\<bar> < 2 powi (emin + 2 ^ k)"
  shows "round_to_precision p emin k v = v"
proof -
  let ?e = "exponent_search k emin \<bar>v\<bar>"
  let ?u = "(2::real) powi (?e - int p + 1)"
  have le: "?e - int p + 1 \<le> q"
  proof (cases "?e = emin")
    case True
    then show ?thesis using q by simp
  next
    case False
    then have "2 powi ?e \<le> \<bar>v\<bar>" using exponent_search_lower[of k emin "\<bar>v\<bar>"] by blast
    also have "\<bar>v\<bar> = real_of_int \<bar>m\<bar> * 2 powi q" by (simp add: v abs_mult)
    also have "\<dots> < 2 ^ p * 2 powi q"
    proof -
      have "real_of_int \<bar>m\<bar> < 2 ^ p" using m by (metis of_int_less_iff of_int_numeral of_int_power)
      then show ?thesis by (intro mult_strict_right_mono) simp_all
    qed
    also have "\<dots> = 2 powi (int p + q)" by (simp add: power_int_add)
    finally have "(2::real) powi ?e < 2 powi (int p + q)" .
    then have "?e < int p + q"
      by (metis not_le two_powi_mono)
    then show ?thesis by simp
  qed
  then obtain d :: nat where d: "q = (?e - int p + 1) + int d"
    by (metis add.commute le_iff_add nonneg_int_cases zle_iff_zadd)
  have "v / ?u = of_int m * (2 powi q / ?u)" by (simp add: v)
  also have "2 powi q / ?u = 2 powi int d" by (simp add: two_powi_diff d)
  also have "of_int m * 2 powi int d = of_int (m * 2 ^ d)" by simp
  finally have "round_half_even (v / ?u) = m * 2 ^ d" by (simp only: round_half_even_of_int)
  then have "round_to_precision p emin k v = of_int (m * 2 ^ d) * ?u"
    by (simp add: round_to_precision_def Let_def)
  also have "\<dots> = of_int m * (2 powi int d * ?u)" by simp
  also have "2 powi int d * ?u = 2 powi q"
    by (simp add: d power_int_add[symmetric] add.commute del: power_int_of_nat)
  finally show ?thesis by (simp add: v)
qed

lemma round_half_even_unique:
  assumes "of_int n - 1 / 2 < v" "v < of_int n + 1 / 2"
  shows "round_half_even v = n"
proof (cases "of_int n \<le> v")
  case True
  then have "\<lfloor>v\<rfloor> = n" using assms(2) by (intro floor_unique) simp_all
  then show ?thesis using assms(2) by (simp add: round_half_even_def Let_def)
next
  case False
  then have "\<lfloor>v\<rfloor> = n - 1" using assms(1) by (intro floor_unique) simp_all
  then show ?thesis using assms(1) False by (simp add: round_half_even_def Let_def)
qed

lemma round_to_precision_idem:
  assumes p: "0 < p" and top: "\<bar>v\<bar> < 2 powi (emin + 2 ^ k - 1)"
  shows "round_to_precision p emin k (round_to_precision p emin k v) = round_to_precision p emin k v"
proof -
  let ?e = "exponent_search k emin \<bar>v\<bar>"
  let ?u = "(2::real) powi (?e - int p + 1)"
  let ?n = "round_half_even (v / ?u)"
  have r: "round_to_precision p emin k v = of_int ?n * ?u"
    by (simp add: round_to_precision_def Let_def)
  have u: "0 < ?u" by simp
  have up: "\<bar>v\<bar> < 2 powi (?e + 1)"
  proof (cases "?e = emin + 2 ^ k - 1")
    case True
    have "\<bar>v\<bar> < 2 powi ?e" using top True by simp
    also have "\<dots> \<le> 2 powi (?e + 1)" by (intro two_powi_mono) simp
    finally show ?thesis .
  next
    case False
    then show ?thesis using exponent_search_upper[of k emin "\<bar>v\<bar>"] by blast
  qed
  have e_lo: "emin \<le> ?e" and e_hi: "?e < emin + 2 ^ k"
    using exponent_search_range[of emin k "\<bar>v\<bar>"] by simp_all
  have pw: "2 powi (?e + 1) / ?u = of_int (2 ^ p)"
    by (simp add: two_powi_diff)
  have "\<bar>v\<bar> / ?u < 2 powi (?e + 1) / ?u" using up u by (simp add: divide_strict_right_mono)
  then have lt: "\<bar>v / ?u\<bar> < of_int (2 ^ p)" using u by (simp only: pw abs_divide abs_of_pos)
  have "v / ?u < real_of_int (2 ^ p)" "- (v / ?u) < real_of_int (2 ^ p)"
    using lt by (simp_all only: abs_less_iff)
  then have "real_of_int (- (2 ^ p)) \<le> v / ?u" "v / ?u \<le> real_of_int (2 ^ p)"
    unfolding of_int_minus by linarith+
  then have "round_half_even (v / ?u) \<le> round_half_even (of_int (2 ^ p))"
    "round_half_even (of_int (- (2 ^ p))) \<le> round_half_even (v / ?u)"
    by (simp_all only: round_half_even_mono)
  then have nb: "\<bar>?n\<bar> \<le> 2 ^ p"
    by (simp only: round_half_even_of_int; linarith)
  show ?thesis
  proof (cases "\<bar>?n\<bar> < 2 ^ p")
    case True
    have "\<bar>of_int ?n * ?u\<bar> = real_of_int \<bar>?n\<bar> * ?u" by (simp add: abs_mult)
    also have "\<dots> \<le> 2 ^ p * ?u"
      using nb by (intro mult_right_mono) (metis of_int_le_iff of_int_numeral of_int_power, simp)
    also have "\<dots> = 2 powi int p * ?u" by simp
    also have "\<dots> = 2 powi (?e + 1)" by (simp add: power_int_add[symmetric] del: power_int_of_nat)
    also have "\<dots> \<le> 2 powi (emin + 2 ^ k)" using e_hi by (intro two_powi_mono) simp
    finally have "\<bar>of_int ?n * ?u\<bar> \<le> 2 powi (emin + 2 ^ k)" .
    moreover have "\<bar>of_int ?n * ?u\<bar> \<noteq> 2 powi (emin + 2 ^ k)"
    proof
      assume eq: "\<bar>of_int ?n * ?u\<bar> = 2 powi (emin + 2 ^ k)"
      have "\<bar>of_int ?n * ?u\<bar> = real_of_int \<bar>?n\<bar> * ?u" by (simp add: abs_mult)
      also have "\<dots> < 2 ^ p * ?u"
        using True by (intro mult_strict_right_mono) (metis of_int_less_iff of_int_numeral of_int_power, simp)
      also have "\<dots> = 2 powi int p * ?u" by simp
      also have "\<dots> = 2 powi (?e + 1)" by (simp add: power_int_add[symmetric] del: power_int_of_nat)
      also have "\<dots> \<le> 2 powi (emin + 2 ^ k)" using e_hi by (intro two_powi_mono) simp
      finally show False using eq by simp
    qed
    ultimately have t: "\<bar>of_int ?n * ?u\<bar> < 2 powi (emin + 2 ^ k)" by simp
    show ?thesis unfolding r
      by (rule round_to_precision_fixed[of _ ?n "?e - int p + 1"]) (use True e_lo t in simp_all)
  next
    case False
    then have eq: "\<bar>?n\<bar> = 2 ^ p" using nb by simp
    have ne: "?e \<noteq> emin + 2 ^ k - 1"
    proof
      assume t: "?e = emin + 2 ^ k - 1"
      have "\<bar>v\<bar> / ?u < 2 powi ?e / ?u" using top t u by (simp add: divide_strict_right_mono)
      moreover have "2 powi ?e / ?u = 2 powi (int p - 1)" by (simp add: two_powi_diff)
      moreover have "(2::real) powi (int p - 1) = of_int (2 ^ (p - 1))"
        using p by (simp add: power_int_def nat_diff_distrib')
      ultimately have lt': "\<bar>v / ?u\<bar> < of_int (2 ^ (p - 1))"
        using u by (simp only: abs_divide abs_of_pos)
      have "v / ?u < real_of_int (2 ^ (p - 1))" "- (v / ?u) < real_of_int (2 ^ (p - 1))"
        using lt' by (simp_all only: abs_less_iff)
      then have "real_of_int (- (2 ^ (p - 1))) \<le> v / ?u" "v / ?u \<le> real_of_int (2 ^ (p - 1))"
        unfolding of_int_minus by linarith+
      then have "round_half_even (v / ?u) \<le> round_half_even (of_int (2 ^ (p - 1)))"
        "round_half_even (of_int (- (2 ^ (p - 1)))) \<le> round_half_even (v / ?u)"
        by (simp_all only: round_half_even_mono)
      then have "\<bar>?n\<bar> \<le> 2 ^ (p - 1)"
        by (simp only: round_half_even_of_int; linarith)
      moreover have "(2::int) ^ (p - 1) < 2 ^ p" using p by (intro power_strict_increasing) simp_all
      ultimately show False using eq by linarith
    qed
    then have e1: "?e + 1 < emin + 2 ^ k" using e_hi by linarith
    obtain s :: int where s: "\<bar>s\<bar> = 1" "?n = s * 2 ^ p"
    proof (cases "0 \<le> ?n")
      case True
      then have "?n = 1 * 2 ^ p" using eq by simp
      then show ?thesis using that[of 1] by simp
    next
      case False
      then have "?n = (- 1) * 2 ^ p" using eq by simp
      then show ?thesis using that[of "- 1"] by simp
    qed
    have "of_int ?n * ?u = of_int s * (2 ^ p * ?u)" by (simp add: s(2))
    also have "2 ^ p * ?u = 2 powi int p * ?u" by simp
    also have "\<dots> = 2 powi (?e + 1)" by (simp add: power_int_add[symmetric] del: power_int_of_nat)
    finally have v': "of_int ?n * ?u = of_int s * 2 powi (?e + 1)" .
    have "\<bar>of_int s * 2 powi (?e + 1)\<bar> = (2::real) powi (?e + 1)"
      using s(1) by (simp add: abs_mult)
    also have "\<dots> < 2 powi (emin + 2 ^ k)"
      using e1 by (intro power_int_strict_increasing) simp_all
    finally have t: "\<bar>of_int s * 2 powi (?e + 1)\<bar> < (2::real) powi (emin + 2 ^ k)" .
    have "(1::int) < 2 ^ p" using p by (metis one_less_numeral_iff one_less_power semiring_norm(76))
    then have sp: "\<bar>s\<bar> < 2 ^ p" using s(1) by simp
    show ?thesis unfolding r v'
      by (rule round_to_precision_fixed[of _ s "?e + 1"]) (use sp e_lo t in simp_all)
  qed
qed

section \<open>Bounds of pi and the floats around it\<close>

lemma arctan_series_bounds:
  fixes x :: real
  assumes "0 < x" "x \<le> 1"
  shows "(\<Sum>i<2*n. (- 1) ^ i * (1 / real (i * 2 + 1) * x ^ (i * 2 + 1))) \<le> arctan x"
    and "arctan x \<le> (\<Sum>i<2*n+1. (- 1) ^ i * (1 / real (i * 2 + 1) * x ^ (i * 2 + 1)))"
proof -
  have ax: "\<bar>x\<bar> \<le> 1" using assms by simp
  have pos: "0 < 1 / real (0 * 2 + 1) * x ^ (0 * 2 + 1)" using assms by simp
  from summable_Leibniz(2)[OF zeroseq_arctan_series[OF ax] monoseq_arctan_series[OF ax]] pos
  have "(\<Sum>i. (- 1) ^ i * (1 / real (i * 2 + 1) * x ^ (i * 2 + 1)))
          \<in> {\<Sum>i<2*n. (- 1) ^ i * (1 / real (i * 2 + 1) * x ^ (i * 2 + 1)) ..
             \<Sum>i<2*n+1. (- 1) ^ i * (1 / real (i * 2 + 1) * x ^ (i * 2 + 1))}"
    by blast
  then show "(\<Sum>i<2*n. (- 1) ^ i * (1 / real (i * 2 + 1) * x ^ (i * 2 + 1))) \<le> arctan x"
    and "arctan x \<le> (\<Sum>i<2*n+1. (- 1) ^ i * (1 / real (i * 2 + 1) * x ^ (i * 2 + 1)))"
    by (simp_all add: arctan_series[OF ax])
qed

lemma pi_bounds: "3141592653 / 1000000000 < pi" "pi < 3141592654 / 1000000000"
proof -
  have a: "(\<Sum>i<2*3. (- 1) ^ i * (1 / real (i * 2 + 1) * (1 / 7) ^ (i * 2 + 1))) \<le> arctan (1 / 7)"
    "arctan (1 / 7) \<le> (\<Sum>i<2*3+1. (- 1) ^ i * (1 / real (i * 2 + 1) * (1 / 7) ^ (i * 2 + 1)))"
    by (rule arctan_series_bounds; simp)+
  have b: "(\<Sum>i<2*2. (- 1) ^ i * (1 / real (i * 2 + 1) * (3 / 79) ^ (i * 2 + 1))) \<le> arctan (3 / 79)"
    "arctan (3 / 79) \<le> (\<Sum>i<2*2+1. (- 1) ^ i * (1 / real (i * 2 + 1) * (3 / 79) ^ (i * 2 + 1)))"
    by (rule arctan_series_bounds; simp)+
  have p: "pi = 20 * arctan (1 / 7) + 8 * arctan (3 / 79)"
    using machin_Euler by simp
  show "3141592653 / 1000000000 < pi"
    using a(1) b(1) unfolding p by (simp add: eval_nat_numeral)
  show "pi < 3141592654 / 1000000000"
    using a(2) b(2) unfolding p by (simp add: eval_nat_numeral)
qed

lemma to_float_mono: "v \<le> w \<Longrightarrow> to_float v \<le> to_float w"
  unfolding to_float_def by (rule round_to_precision_mono) simp_all

lemma to_double_mono: "v \<le> w \<Longrightarrow> to_double v \<le> to_double w"
  unfolding to_double_def by (rule round_to_precision_mono) simp_all

lemma to_float_minus: "to_float (- v) = - to_float v"
  unfolding to_float_def by (rule round_to_precision_minus)

lemma to_float_zero [simp]: "to_float 0 = 0"
  by (simp add: to_float_def)

lemma to_double_zero [simp]: "to_double 0 = 0"
  by (simp add: to_double_def)

lemma to_float_fixed:
  assumes "v = of_int m * 2 powi q" "\<bar>m\<bar> < 2 ^ 24" "- 149 \<le> q" "\<bar>v\<bar> < 2 ^ 130"
  shows "to_float v = v"
  unfolding to_float_def
  by (rule round_to_precision_fixed[of v m q]) (use assms in simp_all)

lemma to_double_fixed:
  assumes "v = of_int m * 2 powi q" "\<bar>m\<bar> < 2 ^ 53" "- 1074 \<le> q" "\<bar>v\<bar> < 2 ^ 1026"
  shows "to_double v = v"
  unfolding to_double_def
  by (rule round_to_precision_fixed[of v m q]) (use assms in simp_all)

lemma to_float_of_int: "\<bar>n\<bar> < 2 ^ 24 \<Longrightarrow> to_float (of_int n) = of_int n"
  by (rule to_float_fixed[of _ n 0]) simp_all

lemma to_float_small: "to_float 1 = 1" "to_float 3 = 3" "to_float 4 = 4" "to_float (- 1) = - 1"
  using to_float_of_int[of 1] to_float_of_int[of 3] to_float_of_int[of 4] to_float_of_int[of "- 1"]
  by simp_all

lemma to_float_pi: "to_float pi = 13176795 / 4194304"
proof -
  have b: "3141592653 / 1000000000 < pi" "pi < 3141592654 / 1000000000" by (rule pi_bounds)+
  have "to_float pi = of_int (round_half_even (pi / 2 powi (1 - int 24 + 1))) * 2 powi (1 - int 24 + 1)"
    unfolding to_float_def
    by (rule round_to_precision_eval) (use b in simp_all)
  moreover have "round_half_even (pi / 2 powi (1 - int 24 + 1)) = 13176795"
    by (rule round_half_even_unique) (use b in simp_all)
  ultimately show ?thesis by simp
qed



lemma PI_minus_float_pi: "- (13176795 / 4194304) + PI = - (24607325 / 281474976710656)"
  by (simp add: PI_def)

lemma to_double_PI_minus_float_pi:
  "to_double (- (24607325 / 281474976710656)) = - (24607325 / 281474976710656)"
  by (rule to_double_fixed[of _ "- 24607325" "- 48"]) simp_all

lemma to_float_PI_minus_float_pi:
  "to_float (- (24607325 / 281474976710656)) = - (6151831 / 70368744177664)"
proof -
  let ?v = "- (24607325 / 281474976710656) :: real"
  have "to_float ?v = of_int (round_half_even (?v / 2 powi (- 24 - int 24 + 1))) * 2 powi (- 24 - int 24 + 1)"
    unfolding to_float_def
    by (rule round_to_precision_eval) simp_all
  moreover have "round_half_even (?v / 2 powi (- 24 - int 24 + 1)) = - 12303662"
    by (simp add: round_half_even_def Let_def)
  ultimately show ?thesis by simp
qed

lemma to_float_tenth: "to_float (1 / 10) = 13421773 / 134217728"
proof -
  have "to_float (1 / 10) = of_int (round_half_even ((1 / 10) / 2 powi (- 4 - int 24 + 1))) * 2 powi (- 4 - int 24 + 1)"
    unfolding to_float_def
    by (rule round_to_precision_eval) simp_all
  moreover have "round_half_even ((1 / 10) / 2 powi (- 4 - int 24 + 1)) = 13421773"
    by (rule round_half_even_unique) simp_all
  ultimately show ?thesis by simp
qed

section \<open>Vector algebra\<close>

lemma norm3_nonneg: "0 \<le> norm3 a"
  by (simp add: norm3_def)

lemma norm3_sq: "(norm3 a)\<^sup>2 = ddot a a"
  by (simp add: norm3_def ddot_def)

lemma norm3_pos_iff: "0 < norm3 a \<longleftrightarrow> a \<noteq> Point3f 0 0 0"
proof -
  have "0 \<le> x a * x a + y a * y a" "0 \<le> z a * z a" by simp_all
  then have "x a * x a + y a * y a + z a * z a = 0 \<longleftrightarrow>
             x a * x a + y a * y a = 0 \<and> z a * z a = 0"
    by (rule add_nonneg_eq_0_iff)
  then have "x a * x a + y a * y a + z a * z a = 0 \<longleftrightarrow> x a = 0 \<and> y a = 0 \<and> z a = 0"
    by (simp add: sum_squares_eq_zero_iff)
  moreover have "0 \<le> x a * x a + y a * y a + z a * z a" by simp
  ultimately show ?thesis
    by (cases a) (auto simp: norm3_def less_le)
qed

lemma sub3_zero_iff: "sub3 a b = Point3f 0 0 0 \<longleftrightarrow> a = b"
  by (cases a; cases b) (simp add: sub3_def)

lemma ddot_div3: "ddot (div3 a k) (div3 b l) = ddot a b / (k * l)"
  by (simp add: ddot_def div3_def add_divide_distrib)

lemma norm3_div3_self: "0 < norm3 a \<Longrightarrow> norm3 (div3 a (norm3 a)) = 1"
proof -
  assume h: "0 < norm3 a"
  have "(norm3 (div3 a (norm3 a)))\<^sup>2 = ddot a a / (norm3 a * norm3 a)"
    by (simp add: norm3_sq ddot_div3)
  also have "\<dots> = 1"
  proof -
    have "ddot a a = norm3 a * norm3 a"
      by (simp add: norm3_sq[symmetric] power2_eq_square)
    then show ?thesis using h by simp
  qed
  finally have "(norm3 (div3 a (norm3 a)))\<^sup>2 = 1" .
  then show ?thesis using norm3_nonneg[of "div3 a (norm3 a)"]
    by (simp add: power2_eq_1_iff)
qed

text \<open>Lagrange's identity: the squared length of a cross product.\<close>

lemma ddot_cross_cross: "ddot (cross a b) (cross a b) = ddot a a * ddot b b - (ddot a b)\<^sup>2"
  by (simp add: ddot_def cross_def power2_eq_square algebra_simps)

lemma cross_unit_pos:
  assumes "norm3 a = 1" "norm3 b = 1" "\<bar>ddot a b\<bar> < 1"
  shows "0 < norm3 (cross a b)"
proof -
  have "ddot a a = 1" "ddot b b = 1"
    using assms norm3_sq[of a] norm3_sq[of b] by simp_all
  then have "ddot (cross a b) (cross a b) = 1 - (ddot a b)\<^sup>2"
    by (simp add: ddot_cross_cross)
  moreover have "(ddot a b)\<^sup>2 < 1"
    using assms(3) by (simp add: abs_square_less_1)
  ultimately have "0 < (norm3 (cross a b))\<^sup>2"
    by (simp add: norm3_sq)
  then show ?thesis using norm3_nonneg[of "cross a b"]
    by (simp add: less_le)
qed

lemma cross_div3: "cross (div3 a k) (div3 b l) = div3 (cross a b) (k * l)"
  by (simp add: cross_def div3_def diff_divide_distrib)

lemma norm3_div3_pos: "0 < k \<Longrightarrow> norm3 (div3 a k) = norm3 a / k"
proof -
  assume k: "0 < k"
  have "x a / k * (x a / k) + y a / k * (y a / k) + z a / k * (z a / k) =
        (x a * x a + y a * y a + z a * z a) / (k * k)"
    by (simp add: add_divide_distrib)
  then show ?thesis using k
    by (simp add: norm3_def div3_def real_sqrt_divide real_sqrt_mult)
qed

lemma div3_div3: "div3 (div3 a k) l = div3 a (k * l)"
  by (simp add: div3_def)

lemma normalize_cross_normalized:
  assumes a: "0 < norm3 a" and b: "0 < norm3 b"
  shows "normalize3 (cross (normalize3 a) (normalize3 b)) = normalize3 (cross a b)"
proof -
  have k: "0 < norm3 a * norm3 b" using a b by simp
  have "cross (normalize3 a) (normalize3 b) = div3 (cross a b) (norm3 a * norm3 b)"
    by (simp add: normalize3_def cross_div3)
  moreover have "norm3 (div3 (cross a b) (norm3 a * norm3 b)) =
                 norm3 (cross a b) / (norm3 a * norm3 b)"
    using k by (rule norm3_div3_pos)
  ultimately show ?thesis using a b
    by (simp add: normalize3_def div3_div3)
qed

section \<open>The side ratio and its optional receivers\<close>

text \<open>
  Claim C10. \<^verbatim>\<open>getRatioBetweenSmallestAndLargestSide\<close> returns the smallest side over
  the largest side. It writes the smallest and the largest side to its two optional
  receivers when both are supplied; when one or none is supplied it writes to neither,
  and a supplied receiver keeps the value it held.
\<close>

theorem getRatio_value_and_receivers:
  "fst (getRatioBetweenSmallestAndLargestSide d12 d23 d31 mo xo) =
      Min {d12, d23, d31} / Max {d12, d23, d31} \<and>
   snd (getRatioBetweenSmallestAndLargestSide d12 d23 d31 (Some a) (Some b)) =
      (Some (Min {d12, d23, d31}), Some (Max {d12, d23, d31})) \<and>
   snd (getRatioBetweenSmallestAndLargestSide d12 d23 d31 (Some a) None) = (Some a, None) \<and>
   snd (getRatioBetweenSmallestAndLargestSide d12 d23 d31 None (Some b)) = (None, Some b) \<and>
   snd (getRatioBetweenSmallestAndLargestSide d12 d23 d31 None None) = (None, None)"
  by (simp add: getRatioBetweenSmallestAndLargestSide_def Let_def)

theorem getRatio_value_and_receivers_witness:
  "getRatioBetweenSmallestAndLargestSide 3 4 5 (Some 7) None = (3 / 5, Some 7, None) \<and>
   getRatioBetweenSmallestAndLargestSide 3 4 5 (Some 7) (Some 8) = (3 / 5, Some 3, Some 5)"
  using getRatio_value_and_receivers[of 3 4 5 "Some 7" None 7 8]
  by (simp add: getRatioBetweenSmallestAndLargestSide_def Let_def)

section \<open>The triangle filter\<close>

text \<open>
  What \<^verbatim>\<open>isBadTriangle\<close> computes on a triangle: it is good exactly when each
  enabled check passes, where the side-ratio and the elongation check are disabled by
  a threshold that is not positive, and the side-length check is disabled only by the
  threshold 0. With a negative maximum side the comparison \<open>0 \<le> max_side\<close> fails.
\<close>

lemma isBadTriangle_good_iff:
  "isBadTriangle tt rt [v1, v2, v3] pose min_ratio min_elong max_side = Inr False \<longleftrightarrow>
     ((if min_ratio > 0
       then Min {norm3 (sub3 (getVertexPosition v1) (getVertexPosition v2)),
                 norm3 (sub3 (getVertexPosition v2) (getVertexPosition v3)),
                 norm3 (sub3 (getVertexPosition v3) (getVertexPosition v1))} /
            Max {norm3 (sub3 (getVertexPosition v1) (getVertexPosition v2)),
                 norm3 (sub3 (getVertexPosition v2) (getVertexPosition v3)),
                 norm3 (sub3 (getVertexPosition v3) (getVertexPosition v1))} \<ge> min_ratio
       else True) \<and>
      (if min_elong > 0
       then getRatioBetweenTangentialAndRadialDisplacement tt rt
              (getVertexPosition v1) (getVertexPosition v2) (getVertexPosition v3) pose \<ge> min_elong
       else True) \<and>
      (if max_side > 0
       then Max {norm3 (sub3 (getVertexPosition v1) (getVertexPosition v2)),
                 norm3 (sub3 (getVertexPosition v2) (getVertexPosition v3)),
                 norm3 (sub3 (getVertexPosition v3) (getVertexPosition v1))} \<le> max_side
       else max_side = 0))"
  by (auto simp add: isBadTriangle_def Let_def getRatioBetweenSmallestAndLargestSide_def
        max.commute max.left_commute)

lemma isBadTriangle_negative_max_side:
  "max_side < 0 \<Longrightarrow> isBadTriangle tt rt [v1, v2, v3] pose min_ratio min_elong max_side = Inr True"
  by (simp add: isBadTriangle_def Let_def)

text \<open>
  Claim C1. The claim says that a threshold of 0 or -1 disables its check, so that
  with all three thresholds disabled every triangle is good. The code rejects the
  unit right triangle when the maximum side is -1 and the other two checks are
  disabled: \<^verbatim>\<open>isBadTriangle\<close> returns \<^verbatim>\<open>true\<close>.
\<close>

theorem isBadTriangle_max_side_minus_one_rejects:
  "isBadTriangle id_pose const_ratio unit_triangle () 0 0 (-1) = Inr True"
  by (simp add: isBadTriangle_def unit_triangle_def Let_def)

lemma isBadTriangle_max_side_zero_accepts:
  "isBadTriangle id_pose const_ratio unit_triangle () 0 0 0 = Inr False"
  by (simp add: isBadTriangle_def unit_triangle_def Let_def)

section \<open>The normal of a triangle\<close>

lemma calculateNormal_unfolded:
  assumes "p2 \<noteq> p1" and "p3 \<noteq> p1"
  shows "calculateNormal p1 p2 p3 =
          (let v21 = div3 (sub3 p2 p1) (norm3 (sub3 p2 p1));
               v31 = div3 (sub3 p3 p1) (norm3 (sub3 p3 p1))
           in if \<bar>ddot v21 v31\<bar> \<ge> 1 - 1 / 1000 then Inr None
              else Inr (Some (div3 (cross v21 v31) (norm3 (cross v21 v31)))))"
proof -
  let ?a = "sub3 p2 p1" and ?b = "sub3 p3 p1"
  let ?u = "div3 ?a (norm3 ?a)" and ?v = "div3 ?b (norm3 ?b)"
  have a: "0 < norm3 ?a" and b: "0 < norm3 ?b"
    using assms by (simp_all add: norm3_pos_iff sub3_zero_iff)
  have u: "norm3 ?u = 1" and v: "norm3 ?v = 1"
    using a b by (simp_all add: norm3_div3_self)
  show ?thesis
  proof (cases "\<bar>ddot ?u ?v\<bar> \<ge> 1 - 1 / 1000")
    case True
    then show ?thesis using a b by (simp add: calculateNormal_def Let_def)
  next
    case False
    then have "\<bar>ddot ?u ?v\<bar> < 1" by simp
    then have c: "0 < norm3 (cross ?u ?v)"
      using u v by (rule cross_unit_pos[rotated 2])
    then have "norm3 (div3 (cross ?u ?v) (norm3 (cross ?u ?v))) = 1"
      by (rule norm3_div3_self)
    then show ?thesis using a b c False
      by (simp add: calculateNormal_def Let_def check_near_def)
  qed
qed

text \<open>
  Claim C7. For a triangle with \<open>p2 \<noteq> p1\<close> and \<open>p3 \<noteq> p1\<close>, \<^verbatim>\<open>calculateNormal\<close> returns
  \<^verbatim>\<open>false\<close> exactly when the absolute dot product of the normalized edge vectors is at
  least \<open>1 - 1e-3\<close>; otherwise it returns \<^verbatim>\<open>true\<close> and the normal is the normalized
  cross product of the edge vectors, of length 1. No \<^verbatim>\<open>CHECK\<close> fails.
\<close>

theorem calculateNormal_false_iff_aligned_else_unit_cross:
  assumes "p2 \<noteq> p1" and "p3 \<noteq> p1"
  shows "(calculateNormal p1 p2 p3 = Inr None \<longleftrightarrow>
            \<bar>ddot (normalize3 (sub3 p2 p1)) (normalize3 (sub3 p3 p1))\<bar> \<ge> 1 - 1 / 1000) \<and>
         (calculateNormal p1 p2 p3 \<noteq> Inr None \<longrightarrow>
            calculateNormal p1 p2 p3 = Inr (Some (normalize3 (cross (sub3 p2 p1) (sub3 p3 p1)))) \<and>
            norm3 (normalize3 (cross (sub3 p2 p1) (sub3 p3 p1))) = 1)"
proof -
  let ?a = "sub3 p2 p1" and ?b = "sub3 p3 p1"
  have a: "0 < norm3 ?a" and b: "0 < norm3 ?b"
    using assms by (simp_all add: norm3_pos_iff sub3_zero_iff)
  have eq: "calculateNormal p1 p2 p3 =
      (if \<bar>ddot (normalize3 ?a) (normalize3 ?b)\<bar> \<ge> 1 - 1 / 1000 then Inr None
       else Inr (Some (normalize3 (cross (normalize3 ?a) (normalize3 ?b)))))"
    using calculateNormal_unfolded[OF assms] by (simp add: Let_def normalize3_def)
  have nc: "normalize3 (cross (normalize3 ?a) (normalize3 ?b)) = normalize3 (cross ?a ?b)"
    using a b by (rule normalize_cross_normalized)
  show ?thesis
  proof (cases "\<bar>ddot (normalize3 ?a) (normalize3 ?b)\<bar> \<ge> 1 - 1 / 1000")
    case True
    then show ?thesis using eq by simp
  next
    case False
    have u: "norm3 (normalize3 ?a) = 1" and v: "norm3 (normalize3 ?b) = 1"
      using a b by (simp_all add: normalize3_def norm3_div3_self)
    from False have "\<bar>ddot (normalize3 ?a) (normalize3 ?b)\<bar> < 1" by simp
    then have "0 < norm3 (cross (normalize3 ?a) (normalize3 ?b))"
      using u v by (rule cross_unit_pos[rotated 2])
    then have "norm3 (normalize3 (cross (normalize3 ?a) (normalize3 ?b))) = 1"
      unfolding normalize3_def by (rule norm3_div3_self)
    then show ?thesis using eq False nc by simp
  qed
qed

theorem calculateNormal_false_iff_aligned_else_unit_cross_witness:
  "Point3f 1 0 0 \<noteq> Point3f 0 0 0 \<and> Point3f 0 1 0 \<noteq> Point3f 0 0 0 \<and>
   calculateNormal (Point3f 0 0 0) (Point3f 1 0 0) (Point3f 0 1 0) = Inr (Some (Point3f 0 0 1)) \<and>
   norm3 (Point3f 0 0 1) = 1"
proof -
  have ne: "Point3f 1 0 0 \<noteq> Point3f 0 0 0" "Point3f 0 1 0 \<noteq> Point3f 0 0 0"
    by simp_all
  have ev: "calculateNormal (Point3f 0 0 0) (Point3f 1 0 0) (Point3f 0 1 0) =
            Inr (Some (Point3f 0 0 1))"
    by (simp add: calculateNormal_def Let_def sub3_def div3_def norm3_def ddot_def cross_def
          check_near_def)
  from calculateNormal_false_iff_aligned_else_unit_cross[OF ne] ev
  show ?thesis by (simp add: norm3_def)
qed

section \<open>The sanity check of the triangle rasterization\<close>

lemma int32_range: "- (2 ^ 31) \<le> int32 i \<and> int32 i < 2 ^ 31"
proof -
  have "0 \<le> (i + 2 ^ 31) mod 2 ^ 32" "(i + 2 ^ 31) mod 2 ^ 32 < (2 ^ 32 :: int)"
    by simp_all
  then show ?thesis unfolding int32_def by simp
qed

lemma int32_id: "- (2 ^ 31) \<le> i \<Longrightarrow> i < 2 ^ 31 \<Longrightarrow> int32 i = i"
  unfolding int32_def by (simp add: mod_pos_pos_trivial)

lemma to_double_error:
  assumes "- 1022 \<le> k" "\<bar>v\<bar> < 2 powi (k + 1)"
  shows "\<bar>to_double v - v\<bar> \<le> 2 powi (k - 53)"
proof -
  let ?e = "exponent_search 11 (- 1022) \<bar>v\<bar>"
  have "?e \<le> k"
  proof (cases "?e = - 1022")
    case True
    then show ?thesis using assms(1) by simp
  next
    case False
    then have "2 powi ?e \<le> \<bar>v\<bar>" using exponent_search_lower[of 11 "- 1022" "\<bar>v\<bar>"] by blast
    then have "(2::real) powi ?e < 2 powi (k + 1)" using assms(2) by linarith
    then have "?e < k + 1" by (metis not_le two_powi_mono)
    then show ?thesis by simp
  qed
  have "\<bar>to_double v - v\<bar> \<le> 2 powi (?e - int 53 + 1) / 2"
    unfolding to_double_def by (rule round_to_precision_error)
  also have "\<dots> = 2 powi (?e - 53)"
    by (simp add: power_int_diff power_int_add)
  also have "\<dots> \<le> 2 powi (k - 53)" using \<open>?e \<le> k\<close> by (intro two_powi_mono) simp
  finally show ?thesis .
qed

lemma to_double_of_int: "\<bar>n\<bar> < 2 ^ 53 \<Longrightarrow> to_double (of_int n) = of_int n"
  by (rule to_double_fixed[of _ n 0]) simp_all

lemma to_double_unit_interval:
  assumes "0 \<le> v" "v \<le> 1"
  shows "0 \<le> to_double v \<and> to_double v \<le> 1"
proof -
  have "to_double 0 \<le> to_double v" "to_double v \<le> to_double 1"
    using assms by (intro to_double_mono; simp)+
  moreover have "to_double 1 = 1" using to_double_of_int[of 1] by simp
  ultimately show ?thesis by simp
qed

text \<open>
  The crossing of an edge with a row, as the doubles compute it, is within a quarter of
  the exact convex combination of the two columns, which are \<^verbatim>\<open>int\<close> values.
\<close>

lemma edge_crossing_near:
  fixes l a b :: real
  assumes l: "0 \<le> l" "l \<le> 1" and a: "\<bar>a\<bar> \<le> 2 ^ 31" and b: "\<bar>b\<bar> \<le> 2 ^ 31"
  shows "\<bar>to_double (to_double (l * a) + to_double (to_double (1 - l) * b)) -
          (l * a + (1 - l) * b)\<bar> \<le> 1 / 4"
proof -
  let ?m = "to_double (1 - l)"
  let ?t1 = "to_double (l * a)"
  let ?t2 = "to_double (?m * b)"
  have la: "\<bar>l * a\<bar> \<le> 2 ^ 31"
  proof -
    have "\<bar>l * a\<bar> = l * \<bar>a\<bar>" using l by (simp add: abs_mult)
    also have "\<dots> \<le> 1 * 2 ^ 31" using l a by (intro mult_mono) simp_all
    finally show ?thesis by simp
  qed
  have e1: "\<bar>?t1 - l * a\<bar> \<le> 2 powi (31 - 53)"
    using la by (intro to_double_error) simp_all
  have m01: "0 \<le> ?m \<and> ?m \<le> 1" using l by (intro to_double_unit_interval) simp_all
  have em: "\<bar>?m - (1 - l)\<bar> \<le> 2 powi (0 - 53)"
    using l by (intro to_double_error) simp_all
  have mb: "\<bar>?m * b\<bar> \<le> 2 ^ 31"
  proof -
    have "\<bar>?m * b\<bar> = ?m * \<bar>b\<bar>" using m01 by (simp add: abs_mult)
    also have "\<dots> \<le> 1 * 2 ^ 31" using m01 b by (intro mult_mono) simp_all
    finally show ?thesis by simp
  qed
  have e2: "\<bar>?t2 - ?m * b\<bar> \<le> 2 powi (31 - 53)"
    using mb by (intro to_double_error) simp_all
  have emb: "\<bar>?m * b - (1 - l) * b\<bar> \<le> 2 powi (0 - 53) * 2 ^ 31"
  proof -
    have "\<bar>?m * b - (1 - l) * b\<bar> = \<bar>?m - (1 - l)\<bar> * \<bar>b\<bar>"
      by (simp add: left_diff_distrib[symmetric] abs_mult)
    also have "\<dots> \<le> 2 powi (0 - 53) * 2 ^ 31" using em b by (intro mult_mono) simp_all
    finally show ?thesis .
  qed
  have s: "\<bar>?t1 + ?t2\<bar> < 2 powi (32 + 1)"
  proof -
    have "\<bar>?t1\<bar> \<le> \<bar>l * a\<bar> + 2 powi (31 - 53)" using e1 by linarith
    moreover have "\<bar>?t2\<bar> \<le> \<bar>?m * b\<bar> + 2 powi (31 - 53)" using e2 by linarith
    ultimately have "\<bar>?t1 + ?t2\<bar> \<le> 2 ^ 31 + 2 ^ 31 + 2 * 2 powi (31 - 53)"
      using la mb by linarith
    also have "\<dots> < 2 powi (32 + 1)" by simp
    finally show ?thesis .
  qed
  have e3: "\<bar>to_double (?t1 + ?t2) - (?t1 + ?t2)\<bar> \<le> 2 powi (32 - 53)"
    using s by (intro to_double_error) simp_all
  have "\<bar>to_double (?t1 + ?t2) - (l * a + (1 - l) * b)\<bar>
          \<le> 2 powi (32 - 53) + 2 powi (31 - 53) + 2 powi (31 - 53) + 2 powi (0 - 53) * 2 ^ 31"
    using e1 e2 e3 emb by linarith
  also have "\<dots> \<le> 1 / 4" by simp
  finally show ?thesis .
qed

lemma cround_near:
  assumes "real_of_int m - 1 / 2 < v" "v < real_of_int n + 1 / 2"
  shows "m \<le> cround v \<and> cround v \<le> n"
  using assms unfolding cround_def
  by (auto simp: le_floor_iff floor_le_iff ceiling_le_iff le_ceiling_iff; linarith)

lemma convex_between:
  fixes a b l :: real
  assumes "0 \<le> l" "l \<le> 1"
  shows "min a b \<le> l * a + (1 - l) * b \<and> l * a + (1 - l) * b \<le> max a b"
proof (cases "a \<le> b")
  case True
  have "0 \<le> (1 - l) * (b - a)" "0 \<le> l * (b - a)" using assms True by simp_all
  then have "a \<le> l * a + (1 - l) * b" "l * a + (1 - l) * b \<le> b"
    by (simp_all add: algebra_simps)
  then show ?thesis using True by (simp add: min_def max_def)
next
  case False
  then have "0 \<le> (1 - l) * (a - b)" "0 \<le> l * (a - b)" using assms by simp_all
  then have "b \<le> l * a + (1 - l) * b" "l * a + (1 - l) * b \<le> a"
    by (simp_all add: algebra_simps)
  then show ?thesis using False by (simp add: min_def max_def)
qed

lemma check_edge_within:
  assumes "lo \<le> xa" "xa \<le> hi" "lo \<le> xb" "xb \<le> hi" "lo \<le> fst mm" "snd mm \<le> hi"
    and rng: "- (2 ^ 31) \<le> lo" "hi < 2 ^ 31"
  shows "lo \<le> fst (check_edge r xa ya xb yb mm) \<and> snd (check_edge r xa ya xb yb mm) \<le> hi"
proof -
  let ?l = "to_double (real_of_int (int32 (r - yb)) / real_of_int (int32 (ya - yb)))"
  show ?thesis
  proof (cases "ya \<noteq> yb \<and> ?l \<ge> 0 \<and> ?l \<le> 1")
    case False
    then show ?thesis using assms by (auto simp: check_edge_def Let_def)
  next
    case True
    let ?c = "?l * real_of_int xa + (1 - ?l) * real_of_int xb"
    let ?v = "to_double (to_double (?l * real_of_int xa) + to_double (to_double (1 - ?l) * real_of_int xb))"
    have ra: "\<bar>real_of_int xa\<bar> \<le> 2 ^ 31" and rb: "\<bar>real_of_int xb\<bar> \<le> 2 ^ 31"
    proof -
      have "\<bar>xa\<bar> \<le> 2 ^ 31" "\<bar>xb\<bar> \<le> 2 ^ 31" using assms by linarith+
      then have "real_of_int \<bar>xa\<bar> \<le> real_of_int (2 ^ 31)" "real_of_int \<bar>xb\<bar> \<le> real_of_int (2 ^ 31)"
        by (simp_all only: of_int_le_iff)
      then show "\<bar>real_of_int xa\<bar> \<le> 2 ^ 31" "\<bar>real_of_int xb\<bar> \<le> 2 ^ 31" by simp_all
    qed
    have near: "\<bar>?v - ?c\<bar> \<le> 1 / 4"
      using True ra rb by (intro edge_crossing_near) simp_all
    have cb: "min (real_of_int xa) (real_of_int xb) \<le> ?c \<and> ?c \<le> max (real_of_int xa) (real_of_int xb)"
      using True by (intro convex_between) simp_all
    have "real_of_int lo \<le> ?c" "?c \<le> real_of_int hi"
      using cb assms(1-4) by (auto simp: min_def max_def split: if_splits)
    then have "real_of_int lo - 1 / 2 < ?v" "?v < real_of_int hi + 1 / 2"
      using near by linarith+
    then have c: "lo \<le> cround ?v \<and> cround ?v \<le> hi" by (rule cround_near)
    then have "int32 (cround ?v) = cround ?v" using rng by (intro int32_id) linarith+
    then show ?thesis using True assms(5,6) c by (auto simp: check_edge_def Let_def)
  qed
qed

lemma row_extrema_within:
  fixes x0 x1 x2 :: int
  defines "lo \<equiv> min x0 (min x1 x2)" and "hi \<equiv> max x0 (max x1 x2)"
  assumes rng: "- (2 ^ 31) \<le> lo" "hi < 2 ^ 31"
  shows "lo \<le> fst (row_extrema x0 y0 x1 y1 x2 y2 lo hi r) \<and>
         snd (row_extrema x0 y0 x1 y1 x2 y2 lo hi r) \<le> hi"
proof -
  have b: "lo \<le> x0" "x0 \<le> hi" "lo \<le> x1" "x1 \<le> hi" "lo \<le> x2" "x2 \<le> hi" "lo \<le> hi"
    by (simp_all add: lo_def hi_def)
  have e1: "lo \<le> fst (check_edge r x0 y0 x1 y1 (hi, lo)) \<and>
            snd (check_edge r x0 y0 x1 y1 (hi, lo)) \<le> hi"
    using b rng by (intro check_edge_within) simp_all
  have e2: "lo \<le> fst (check_edge r x1 y1 x2 y2 (check_edge r x0 y0 x1 y1 (hi, lo))) \<and>
            snd (check_edge r x1 y1 x2 y2 (check_edge r x0 y0 x1 y1 (hi, lo))) \<le> hi"
    using b e1 rng by (intro check_edge_within) simp_all
  show ?thesis unfolding row_extrema_def
    using b e2 rng by (intro check_edge_within) simp_all
qed

lemma scan_rows_error_iff:
  "scan_rows img thr ex tlx brx rs acc = Inl e \<longleftrightarrow>
     e = RuntimeError \<and> (\<exists>r \<in> set rs. fst (ex r) < tlx \<or> snd (ex r) > brx)"
  by (induction rs arbitrary: acc) (auto simp: Let_def)

text \<open>The function throws when the sanity check, as the source writes it, fails for a row.\<close>

lemma FindHighIntensityInTriangle_error_cases:
  "FindHighIntensityInTriangle img px_vertices intensityThreshold = Inl e \<longleftrightarrow>
    (let x0 = int32 (cround (vec6_at px_vertices 0)); y0 = int32 (cround (vec6_at px_vertices 1));
         x1 = int32 (cround (vec6_at px_vertices 2)); y1 = int32 (cround (vec6_at px_vertices 3));
         x2 = int32 (cround (vec6_at px_vertices 4)); y2 = int32 (cround (vec6_at px_vertices 5));
         topLeft_x = min x0 (min x1 x2); topLeft_y = min y0 (min y1 y2);
         botRight_x = max x0 (max x1 x2); botRight_y = max y0 (max y1 y2)
     in e = RuntimeError \<and> \<not> intensityThreshold < 0 \<and>
        (\<exists>r. topLeft_y \<le> r \<and> r < botRight_y \<and>
             (fst (row_extrema x0 y0 x1 y1 x2 y2 topLeft_x botRight_x r) < topLeft_x \<or>
              snd (row_extrema x0 y0 x1 y1 x2 y2 topLeft_x botRight_x r) > botRight_x)))"
proof -
  have rng: "\<And>a b P. (\<exists>r \<in> set [a .. b - 1]. P r) \<longleftrightarrow> (\<exists>r::int. a \<le> r \<and> r < b \<and> P r)"
    by auto
  show ?thesis
    unfolding FindHighIntensityInTriangle_def Let_def
    by (simp only: scan_rows_error_iff rng if_distrib[of "\<lambda>v. v = Inl e"] sum.simps if_False
          split: if_split) simp
qed

lemma rounded_vertices_within:
  fixes v0 v1 v2 :: real
  defines "x0 \<equiv> int32 (cround v0)" and "x1 \<equiv> int32 (cround v1)" and "x2 \<equiv> int32 (cround v2)"
  shows "min x0 (min x1 x2) \<le> fst (row_extrema x0 y0 x1 y1 x2 y2 (min x0 (min x1 x2)) (max x0 (max x1 x2)) r) \<and>
         snd (row_extrema x0 y0 x1 y1 x2 y2 (min x0 (min x1 x2)) (max x0 (max x1 x2)) r) \<le> max x0 (max x1 x2)"
proof -
  have "- (2 ^ 31) \<le> min x0 (min x1 x2)" "max x0 (max x1 x2) < 2 ^ 31"
    using int32_range[of "cround v0"] int32_range[of "cround v1"] int32_range[of "cround v2"]
    unfolding x0_def x1_def x2_def by (simp_all add: min_def max_def)
  then show ?thesis by (rule row_extrema_within)
qed

lemma FindHighIntensityInTriangle_returns:
  "(\<exists>keypoints. FindHighIntensityInTriangle img px_vertices intensityThreshold = Inr keypoints) \<and>
   (let x0 = int32 (cround (vec6_at px_vertices 0)); y0 = int32 (cround (vec6_at px_vertices 1));
        x1 = int32 (cround (vec6_at px_vertices 2)); y1 = int32 (cround (vec6_at px_vertices 3));
        x2 = int32 (cround (vec6_at px_vertices 4)); y2 = int32 (cround (vec6_at px_vertices 5));
        topLeft_x = min x0 (min x1 x2); botRight_x = max x0 (max x1 x2)
    in list_all (\<lambda>r. topLeft_x \<le> fst (row_extrema x0 y0 x1 y1 x2 y2 topLeft_x botRight_x r) \<and>
                      snd (row_extrema x0 y0 x1 y1 x2 y2 topLeft_x botRight_x r) \<le> botRight_x)
         [min y0 (min y1 y2) .. max y0 (max y1 y2) - 1])"
proof -
  have "FindHighIntensityInTriangle img px_vertices intensityThreshold \<noteq> Inl e" for e
  proof
    assume "FindHighIntensityInTriangle img px_vertices intensityThreshold = Inl e"
    then obtain r where
      "fst (row_extrema (int32 (cround (vec6_at px_vertices 0))) (int32 (cround (vec6_at px_vertices 1)))
              (int32 (cround (vec6_at px_vertices 2))) (int32 (cround (vec6_at px_vertices 3)))
              (int32 (cround (vec6_at px_vertices 4))) (int32 (cround (vec6_at px_vertices 5)))
              (min (int32 (cround (vec6_at px_vertices 0)))
                 (min (int32 (cround (vec6_at px_vertices 2))) (int32 (cround (vec6_at px_vertices 4)))))
              (max (int32 (cround (vec6_at px_vertices 0)))
                 (max (int32 (cround (vec6_at px_vertices 2))) (int32 (cround (vec6_at px_vertices 4))))) r)
         < min (int32 (cround (vec6_at px_vertices 0)))
             (min (int32 (cround (vec6_at px_vertices 2))) (int32 (cround (vec6_at px_vertices 4)))) \<or>
       snd (row_extrema (int32 (cround (vec6_at px_vertices 0))) (int32 (cround (vec6_at px_vertices 1)))
              (int32 (cround (vec6_at px_vertices 2))) (int32 (cround (vec6_at px_vertices 3)))
              (int32 (cround (vec6_at px_vertices 4))) (int32 (cround (vec6_at px_vertices 5)))
              (min (int32 (cround (vec6_at px_vertices 0)))
                 (min (int32 (cround (vec6_at px_vertices 2))) (int32 (cround (vec6_at px_vertices 4)))))
              (max (int32 (cround (vec6_at px_vertices 0)))
                 (max (int32 (cround (vec6_at px_vertices 2))) (int32 (cround (vec6_at px_vertices 4))))) r)
         > max (int32 (cround (vec6_at px_vertices 0)))
             (max (int32 (cround (vec6_at px_vertices 2))) (int32 (cround (vec6_at px_vertices 4))))"
      unfolding FindHighIntensityInTriangle_error_cases Let_def by blast
    then show False
      using rounded_vertices_within[of "vec6_at px_vertices 0" "vec6_at px_vertices 2"
              "vec6_at px_vertices 4" "int32 (cround (vec6_at px_vertices 1))"
              "int32 (cround (vec6_at px_vertices 3))" "int32 (cround (vec6_at px_vertices 5))" r]
      by linarith
  qed
  then have "\<exists>keypoints. FindHighIntensityInTriangle img px_vertices intensityThreshold = Inr keypoints"
    by (cases "FindHighIntensityInTriangle img px_vertices intensityThreshold") auto
  then show ?thesis
    unfolding Let_def list_all_iff using rounded_vertices_within by blast
qed

text \<open>
  Claim C9, as amended. \<^verbatim>\<open>FindHighIntensityInTriangle\<close> never throws ``inconsistent
  extrema'': for every image, every triangle and every threshold it returns its list of
  key points. The check that guards the throw is \<open>min_x < topLeft_x || max_x > botRight_x\<close>,
  and in every row of the bounding box the columns \<open>min_x\<close> and \<open>max_x\<close> that the three edge
  blocks compute lie between \<open>topLeft_x\<close> and \<open>botRight_x\<close>, the least and the greatest of
  the three rounded vertex columns, also with the rounding of the \<^verbatim>\<open>double\<close> operations.
  A row whose \<open>min_x\<close> is to the right of \<open>topLeft_x\<close>, or whose \<open>max_x\<close> is to the left of
  \<open>botRight_x\<close>, is scanned like any other.
\<close>

theorem FindHighIntensityInTriangle_never_throws:
  "(\<exists>keypoints. FindHighIntensityInTriangle img px_vertices intensityThreshold = Inr keypoints) \<and>
   (let x0 = int32 (cround (vec6_at px_vertices 0)); y0 = int32 (cround (vec6_at px_vertices 1));
        x1 = int32 (cround (vec6_at px_vertices 2)); y1 = int32 (cround (vec6_at px_vertices 3));
        x2 = int32 (cround (vec6_at px_vertices 4)); y2 = int32 (cround (vec6_at px_vertices 5));
        topLeft_x = min x0 (min x1 x2); botRight_x = max x0 (max x1 x2)
    in list_all (\<lambda>r. topLeft_x \<le> fst (row_extrema x0 y0 x1 y1 x2 y2 topLeft_x botRight_x r) \<and>
                      snd (row_extrema x0 y0 x1 y1 x2 y2 topLeft_x botRight_x r) \<le> botRight_x)
         [min y0 (min y1 y2) .. max y0 (max y1 y2) - 1])"
  by (rule FindHighIntensityInTriangle_returns)

lemma to_double_small:
  "to_double 1 = 1" "to_double 2 = 2" "to_double 4 = 4" "to_double 6 = 6" "to_double 8 = 8"
  "to_double (1 / 2) = 1 / 2"
proof -
  show "to_double 1 = 1" "to_double 2 = 2" "to_double 4 = 4" "to_double 6 = 6" "to_double 8 = 8"
    using to_double_of_int[of 1] to_double_of_int[of 2] to_double_of_int[of 4]
          to_double_of_int[of 6] to_double_of_int[of 8]
    by simp_all
  show "to_double (1 / 2) = 1 / 2"
    by (rule to_double_fixed[of _ 1 "- 1"]) simp_all
qed

lemma flat_triangle_rows:
  "row_extrema 0 0 8 0 4 2 0 8 0 = (0, 8)" "row_extrema 0 0 8 0 4 2 0 8 1 = (2, 6)"
  by (simp_all add: row_extrema_def check_edge_def Let_def int32_def cround_def to_double_small)

lemma flat_triangle_scan:
  "FindHighIntensityInTriangle dark_image (Vec6f 0 0 8 0 4 2) 0 = Inr []"
  by (simp add: FindHighIntensityInTriangle_def Let_def cround_def int32_def upto.simps
        flat_triangle_rows scan_columns_def dark_image_def)

theorem FindHighIntensityInTriangle_never_throws_witness:
  "FindHighIntensityInTriangle dark_image (Vec6f 0 0 8 0 4 2) 0 = Inr [] \<and>
   row_extrema 0 0 8 0 4 2 0 8 0 = (0, 8) \<and> row_extrema 0 0 8 0 4 2 0 8 1 = (2, 6)"
  using FindHighIntensityInTriangle_never_throws[of dark_image "Vec6f 0 0 8 0 4 2" 0]
  by (simp add: flat_triangle_scan flat_triangle_rows)

text \<open>
  Claim C9 as stated has the error raised when a row's \<open>min_x\<close> exceeds the left edge of
  the bounding box or its \<open>max_x\<close> is below the right edge. The triangle
  \<open>(0,0), (8,0), (4,2)\<close> has the bounding box from column 0 to column 8 and the rows 0
  and 1; in row 1 the edges give \<open>min_x = 2 > 0\<close> and \<open>max_x = 6 < 8\<close>, and nothing is thrown.
\<close>

theorem FindHighIntensityInTriangle_counterexample:
  "min (0::int) (min 0 2) \<le> 1 \<and> (1::int) < max 0 (max 0 2) \<and>
   fst (row_extrema 0 0 8 0 4 2 (min 0 (min 8 4)) (max 0 (max 8 4)) 1) > min 0 (min 8 4) \<and>
   snd (row_extrema 0 0 8 0 4 2 (min 0 (min 8 4)) (max 0 (max 8 4)) 1) < max 0 (max 8 4) \<and>
   FindHighIntensityInTriangle dark_image (Vec6f 0 0 8 0 4 2) 0 = Inr []"
  by (simp add: flat_triangle_scan flat_triangle_rows)

section \<open>Plane association under the single-association policy\<close>

lemma associate_one_single:
  assumes "\<not> FLAGS_do_double_association fl"
  shows "associate_one geo fl nt dt s planes used =
          (case first_unused_match geo nt dt s planes used of
             None \<Rightarrow> (used, False)
           | Some b \<Rightarrow> (used @ [index (m_plane_symbol b)], True))"
  using assms by (induction planes) (auto simp: first_unused_match_def Let_def)

lemma associate_loop_single:
  assumes "\<not> FLAGS_do_double_association fl"
  shows "associate_loop geo fl nt dt segs planes used emitted =
         single_association geo nt dt segs planes used emitted"
  using assms
  by (induction segs arbitrary: used emitted)
     (auto simp: associate_one_single split: option.splits)

lemma single_association_no_planes:
  "single_association geo nt dt segs [] used emitted = (used, emitted @ segs)"
  by (induction segs arbitrary: emitted) (auto simp: first_unused_match_def)

lemma associatePlanes_eq_single:
  assumes "\<not> FLAGS_do_double_association fl"
  shows "associatePlanes geo fl segs planes nt dt = single_association geo nt dt segs planes [] []"
  using assms by (simp add: associatePlanes_def associate_loop_single single_association_no_planes)

lemma first_unused_match_Some:
  "first_unused_match geo nt dt s planes used = Some b \<Longrightarrow>
     b \<in> set planes \<and> geo b s nt dt \<and> index (m_plane_symbol b) \<notin> set used"
  unfolding first_unused_match_def by (auto simp: find_Some_iff)

lemma first_unused_match_None:
  "first_unused_match geo nt dt s planes used = None \<longleftrightarrow>
     (\<forall>b \<in> set planes. geo b s nt dt \<longrightarrow> index (m_plane_symbol b) \<in> set used)"
  unfolding first_unused_match_def by (auto simp: find_None_iff)

lemma single_association_distinct:
  "distinct used \<Longrightarrow> distinct (fst (single_association geo nt dt segs planes used emitted))"
  by (induction segs arbitrary: used emitted)
     (auto split: option.splits dest: first_unused_match_Some)

lemma single_association_count:
  "length (fst (single_association geo nt dt segs planes used emitted)) +
   length (snd (single_association geo nt dt segs planes used emitted)) =
   length used + length emitted + length segs"
  by (induction segs arbitrary: used emitted) (auto split: option.splits)

lemma single_association_emitted:
  "\<exists>ys. subseq ys segs \<and> snd (single_association geo nt dt segs planes used emitted) = emitted @ ys"
proof (induction segs arbitrary: used emitted)
  case Nil
  then show ?case by simp
next
  case (Cons s segs)
  show ?case
  proof (cases "first_unused_match geo nt dt s planes used")
    case None
    from Cons[of used "emitted @ [s]"] obtain ys where
      "subseq ys segs" "snd (single_association geo nt dt segs planes used (emitted @ [s])) = (emitted @ [s]) @ ys"
      by blast
    then show ?thesis using None by (intro exI[of _ "s # ys"]) simp
  next
    case (Some b)
    from Cons[of "used @ [index (m_plane_symbol b)]" emitted] obtain ys where
      "subseq ys segs" "snd (single_association geo nt dt segs planes (used @ [index (m_plane_symbol b)]) emitted) = emitted @ ys"
      by blast
    then show ?thesis using Some by (intro exI[of _ ys]) (simp add: list_emb_Cons)
  qed
qed

text \<open>
  Claim C6. With \<^verbatim>\<open>do_double_association\<close> off, \<^verbatim>\<open>associatePlanes\<close> does what the
  specification's single association does: each segmented plane takes the first backend
  plane that matches it and whose index is not yet used, searching past a used one, and a
  segmented plane without such a backend plane is emitted unchanged. The used indices
  are pairwise different, so a backend plane's index is taken by at most one segmented
  plane; every segmented plane either takes one index or is emitted; and the emitted
  planes are segmented planes, symbols included, in their order.
\<close>

theorem associatePlanes_single_association:
  assumes "\<not> FLAGS_do_double_association fl"
  shows "associatePlanes geo fl segs planes nt dt = single_association geo nt dt segs planes [] [] \<and>
         distinct (fst (associatePlanes geo fl segs planes nt dt)) \<and>
         length (fst (associatePlanes geo fl segs planes nt dt)) +
           length (snd (associatePlanes geo fl segs planes nt dt)) = length segs \<and>
         subseq (snd (associatePlanes geo fl segs planes nt dt)) segs"
proof -
  have eq: "associatePlanes geo fl segs planes nt dt = single_association geo nt dt segs planes [] []"
    using assms by (rule associatePlanes_eq_single)
  have "distinct (fst (single_association geo nt dt segs planes [] []))"
    by (rule single_association_distinct) simp
  moreover have "length (fst (single_association geo nt dt segs planes [] [])) +
      length (snd (single_association geo nt dt segs planes [] [])) = length segs"
    using single_association_count[of geo nt dt segs planes "[]" "[]"] by simp
  moreover have "subseq (snd (single_association geo nt dt segs planes [] [])) segs"
    using single_association_emitted[of segs geo nt dt planes "[]" "[]"] by auto
  ultimately show ?thesis using eq by simp
qed

theorem associatePlanes_single_association_witness:
  "\<not> FLAGS_do_double_association single_flags \<and>
   associatePlanes same_distance single_flags [plane_at 5 0, plane_at 6 0, plane_at 7 0]
     [plane_at 0 0, plane_at 1 0] (11 / 1000) (1 / 5) = ([0, 1], [plane_at 7 0]) \<and>
   single_association same_distance (11 / 1000) (1 / 5) [plane_at 5 0, plane_at 6 0, plane_at 7 0]
     [plane_at 0 0, plane_at 1 0] [] [] = ([0, 1], [plane_at 7 0])"
proof -
  have h: "\<not> FLAGS_do_double_association single_flags" by (simp add: single_flags_def)
  have ev: "associatePlanes same_distance single_flags [plane_at 5 0, plane_at 6 0, plane_at 7 0]
     [plane_at 0 0, plane_at 1 0] (11 / 1000) (1 / 5) = ([0, 1], [plane_at 7 0])"
    by (simp add: associatePlanes_def plane_at_def Plane_ctor_def same_distance_def single_flags_def)
  from associatePlanes_single_association[OF h, of same_distance
         "[plane_at 5 0, plane_at 6 0, plane_at 7 0]" "[plane_at 0 0, plane_at 1 0]" "11 / 1000" "1 / 5"]
       h ev
  show ?thesis by simp
qed

section \<open>The plane counter\<close>

lemma fresh_symbols_Suc: "fresh_symbols c (Suc n) = Symbol CHR ''P'' c # fresh_symbols (c + 1) n"
  by (simp add: fresh_symbols_def upt_conv_Cons map_Suc_upt[symmetric] add.assoc del: upt_Suc)

lemma fresh_symbols_append:
  "fresh_symbols c n @ fresh_symbols (c + of_nat n) k = fresh_symbols c (n + k)"
proof (induction n arbitrary: c)
  case 0
  then show ?case by (simp add: fresh_symbols_def)
next
  case (Suc n)
  have "c + of_nat (Suc n) = (c + 1) + of_nat n" by simp
  then show ?case using Suc[of "c + 1"] by (simp only: fresh_symbols_Suc add_Suc append_Cons)
qed

lemma select_peaks_symbols:
  "select_peaks n normal peaks planes c = (planes', c') \<Longrightarrow>
     \<exists>new. planes' = planes @ new \<and> c' = c + of_nat (length new) \<and>
           map m_plane_symbol new = fresh_symbols c (length new)"
proof (induction n arbitrary: peaks planes c)
  case 0
  then show ?case by (simp add: fresh_symbols_def)
next
  case (Suc n)
  show ?case
  proof (cases "max_element peaks")
    case None
    with Suc.prems show ?thesis by (simp add: fresh_symbols_def)
  next
    case (Some it)
    let ?p = "Plane_ctor (Symbol CHR ''P'' c) normal (m_value (peaks ! it)) [] 2"
    from Suc.prems Some
    have "select_peaks n normal (vec_erase peaks it) (planes @ [?p]) (c + 1) = (planes', c')"
      by simp
    from Suc.IH[OF this] obtain new where
      n: "planes' = (planes @ [?p]) @ new" "c' = c + 1 + of_nat (length new)"
         "map m_plane_symbol new = fresh_symbols (c + 1) (length new)"
      by blast
    show ?thesis
      using n by (intro exI[of _ "?p # new"]) (simp add: fresh_symbols_Suc Plane_ctor_def add.assoc)
  qed
qed

lemma wall_peaks_loop_symbols:
  "wall_peaks_loop pks planes c = (planes', c') \<Longrightarrow>
     \<exists>new. planes' = planes @ new \<and> c' = c + of_nat (length new) \<and>
           map m_plane_symbol new = fresh_symbols c (length new)"
proof (induction pks arbitrary: planes c)
  case Nil
  then show ?case by (simp add: fresh_symbols_def)
next
  case (Cons pk pks)
  let ?p = "Plane_ctor (Symbol CHR ''P'' c)
            (Point3f (cos (m_x_value pk)) (sin (m_x_value pk)) 0) (m_y_value pk) [] 1"
  from Cons.prems have "wall_peaks_loop pks (planes @ [?p]) (c + 1) = (planes', c')" by simp
  from Cons.IH[OF this] obtain new where
    n: "planes' = (planes @ [?p]) @ new" "c' = c + 1 + of_nat (length new)"
       "map m_plane_symbol new = fresh_symbols (c + 1) (length new)"
    by blast
  show ?case
    using n by (intro exI[of _ "?p # new"]) (simp add: fresh_symbols_Suc Plane_ctor_def add.assoc)
qed

lemma segmentNewPlanes_symbols:
  assumes "segmentNewPlanes pe lm1 lm2 fl c zs ws = Inr (planes, c')"
  shows "map m_plane_symbol planes = fresh_symbols c (length planes) \<and>
         c' = c + of_nat (length planes)"
proof -
  from assms obtain pks h c1 where
    r: "select_peaks (nat (FLAGS_z_histogram_max_number_of_peaks_to_select fl)) vertical pks [] c
          = (h, c1)"
    and w: "wall_peaks_loop (lm2 ws) h c1 = (planes, c')"
    by (auto simp: segmentNewPlanes_def segmentHorizontalPlanes_def Let_def segmentWalls_def
             split: sum.splits prod.splits)
  from select_peaks_symbols[OF r] have
    h: "c1 = c + of_nat (length h)" "map m_plane_symbol h = fresh_symbols c (length h)"
    by auto
  from wall_peaks_loop_symbols[OF w] h obtain v where
    v: "planes = h @ v" "c' = c + of_nat (length h) + of_nat (length v)"
       "map m_plane_symbol v = fresh_symbols (c + of_nat (length h)) (length v)"
    by auto
  show ?thesis using h(2) v by (simp add: fresh_symbols_append add.assoc)
qed

lemma segmentNewPlanes_run_symbols:
  assumes "segmentNewPlanes_run pe lm1 lm2 fl c frames = Inr (created, c')"
  shows "map m_plane_symbol (concat created) = fresh_symbols c (length (concat created)) \<and>
         c' = c + of_nat (length (concat created))"
  using assms
proof (induction frames arbitrary: c created)
  case Nil
  then show ?case by (simp add: fresh_symbols_def)
next
  case (Cons f frames)
  obtain zs ws where f: "f = (zs, ws)" by (cases f)
  from Cons.prems f obtain planes c1 later where
    s: "segmentNewPlanes pe lm1 lm2 fl c zs ws = Inr (planes, c1)"
    and r: "segmentNewPlanes_run pe lm1 lm2 fl c1 frames = Inr (later, c')"
    and c: "created = planes # later"
    by (auto split: sum.splits prod.splits)
  from segmentNewPlanes_symbols[OF s] have
    p: "map m_plane_symbol planes = fresh_symbols c (length planes)" "c1 = c + of_nat (length planes)"
    by auto
  from Cons.IH[OF r] have
    l: "map m_plane_symbol (concat later) = fresh_symbols c1 (length (concat later))"
       "c' = c1 + of_nat (length (concat later))"
    by auto
  show ?case using p l c by (simp add: fresh_symbols_append add.assoc)
qed

lemma fresh_index_unat:
  assumes "unat c + n \<le> 2 ^ 64" "j < n"
  shows "unat (c + of_nat j :: 64 word) = unat c + j"
proof -
  have "j < 2 ^ 64" using assms by simp
  then have "unat (of_nat j :: 64 word) = j" by (simp add: unat_of_nat)
  moreover have "unat c + j < 2 ^ LENGTH(64)" using assms by simp
  ultimately show ?thesis by (simp add: unat_add_lem[THEN iffD1])
qed

lemma fresh_symbols_increasing:
  assumes "unat c + n \<le> 2 ^ 64"
  shows "sorted_wrt (<) (map index (fresh_symbols c n))"
proof -
  have "\<And>i j. i < j \<Longrightarrow> j < n \<Longrightarrow> c + of_nat i < c + of_nat j"
  proof -
    fix i j assume "i < j" "j < n"
    then have "unat (c + of_nat i) = unat c + i" "unat (c + of_nat j) = unat c + j"
      using assms by (simp_all add: fresh_index_unat)
    then show "c + of_nat i < c + of_nat j" using \<open>i < j\<close> by (simp add: word_less_nat_alt)
  qed
  then show ?thesis
    by (simp add: fresh_symbols_def sorted_wrt_iff_nth_less)
qed


text \<open>
  The first loop ends and leaves a list of peaks, unless it reads \<^verbatim>\<open>previous_peak_it\<close> past
  the end and the program aborts there; \<^verbatim>\<open>peaks.at(i - 1)\<close> never throws.
\<close>

lemma remove_close_peaks_returns:
  assumes "i \<le> it" and "\<forall>ms ps a b c d. \<exists>r. pe ms ps a b c d = Inr r"
  shows "\<exists>r. remove_close_peaks pe ms peaks it i p pd = Inr r"
  using assms
proof (induction pe ms peaks it i p pd rule: remove_close_peaks.induct)
  case (1 pe ms peaks it i p pd)
  note le = "1.prems"(1) and tot = "1.prems"(2)
  show ?case
  proof (cases "it < length peaks")
    case False
    then show ?thesis by (subst remove_close_peaks.simps) simp
  next
    case True
    have at: "\<not> (i > 0 \<and> \<not> i - 1 < length peaks)" using True le by arith
    have nn: "\<not> \<not> it < length peaks" using True by simp
    have le1: "i - 1 \<le> it" using le by simp
    show ?thesis
    proof (cases "i > 0 \<and> peaks ! it = peaks ! (i - 1)")
      case rep: True
      have "\<exists>r. remove_close_peaks pe ms (vec_erase peaks it) it (i - 1) p pd = Inr r"
        by (rule "1.IH"(1)[OF nn refl at rep le1 tot])
      then show ?thesis using True at rep by (subst remove_close_peaks.simps) (simp add: Let_def)
    next
      case norep: False
      show ?thesis
      proof (cases "i > 0 \<and> \<bar>pd - m_value (peaks ! it)\<bar> < ms")
        case close: True
        show ?thesis
        proof (cases "p < length peaks")
          case False
          moreover obtain r where "pe ms peaks it i p pd = Inr r" using tot by blast
          ultimately show ?thesis using True at norep close
            by (subst remove_close_peaks.simps) (simp add: Let_def)
        next
          case valid: True
          have np: "\<not> \<not> p < length peaks" using valid by simp
          show ?thesis
          proof (cases "m_support (peaks ! p) < m_support (peaks ! it)")
            case less: True
            have "\<exists>r. remove_close_peaks pe ms (vec_erase peaks p) (i - 1) (i - 1) p pd = Inr r"
              by (rule "1.IH"(2)[OF nn refl at norep close np less order_refl tot])
            then show ?thesis using True at norep close valid less
              by (subst remove_close_peaks.simps) (simp add: Let_def)
          next
            case notless: False
            have "\<exists>r. remove_close_peaks pe ms (vec_erase peaks it) it (i - 1) p pd = Inr r"
              by (rule "1.IH"(3)[OF nn refl at norep close np notless le1 tot])
            then show ?thesis using True at norep close valid notless
              by (subst remove_close_peaks.simps) (simp add: Let_def)
          qed
        qed
      next
        case far: False
        have les: "Suc i \<le> Suc it" using le by simp
        have "\<exists>r. remove_close_peaks pe ms peaks (Suc it) (Suc i) it (m_value (peaks ! it)) = Inr r"
          by (rule "1.IH"(4)[OF nn refl at norep far les tot])
        then show ?thesis
          by (subst remove_close_peaks.simps)
             (simp only: Let_def True at norep far if_True if_False simp_thms)
      qed
    qed
  qed
qed

lemma segmentNewPlanes_returns:
  assumes "\<forall>ps0 ms ps a b c d. \<exists>r. pe ps0 ms ps a b c d = Inr r"
  shows "\<exists>planes c'. segmentNewPlanes pe lm1 lm2 fl c zs ws = Inr (planes, c')"
proof -
  have "\<exists>pks. remove_close_peaks (pe (lm1 zs)) (FLAGS_z_histogram_min_separation fl) (lm1 zs) 0 0 0
          (- DBL_MAX) = Inr pks"
    using assms by (intro remove_close_peaks_returns) simp_all
  then obtain pks where
    "remove_close_peaks (pe (lm1 zs)) (FLAGS_z_histogram_min_separation fl) (lm1 zs) 0 0 0
       (- DBL_MAX) = Inr pks"
    by blast
  then show ?thesis
    by (simp add: segmentNewPlanes_def segmentHorizontalPlanes_def Let_def split: prod.splits)
qed

lemma segmentNewPlanes_run_returns:
  assumes "\<forall>ps0 ms ps a b c d. \<exists>r. pe ps0 ms ps a b c d = Inr r"
  shows "\<exists>created c'. segmentNewPlanes_run pe lm1 lm2 fl c frames = Inr (created, c')"
proof (induction frames arbitrary: c)
  case Nil
  then show ?case by simp
next
  case (Cons f frames)
  obtain zs ws where f: "f = (zs, ws)" by (cases f)
  from segmentNewPlanes_returns[OF assms] obtain planes c1 where
    s: "segmentNewPlanes pe lm1 lm2 fl c zs ws = Inr (planes, c1)" by blast
  from Cons[of c1] obtain later c' where
    r: "segmentNewPlanes_run pe lm1 lm2 fl c1 frames = Inr (later, c')" by blast
  show ?case using f s r by simp
qed

lemma three_peaks_first_loop:
  "remove_close_peaks (loop_is_left (three_peaks_1d zs)) (1 / 10) (three_peaks_1d zs) 0 0 0
     (- DBL_MAX) =
     Inr [\<lparr>m_pos = 200, m_support = 60, m_value = 2\<rparr>]"
  by (simp add: three_peaks_1d_def remove_close_peaks.simps vec_erase_def DBL_MAX_def)

lemma three_peaks_new_planes:
  "segmentNewPlanes loop_is_left three_peaks_1d one_peak_2d single_flags c zs ws =
   Inr ([Plane_ctor (Symbol CHR ''P'' c) vertical 2 [] 2,
         Plane_ctor (Symbol CHR ''P'' (c + 1)) (Point3f 1 0 0) 1 [] 1], c + 2)"
  using three_peaks_first_loop[of zs]
  by (simp add: segmentNewPlanes_def segmentHorizontalPlanes_def Let_def segmentWalls_def
        one_peak_2d_def single_flags_def max_element_def vec_erase_def eval_nat_numeral)

lemma segmentNewPlanes_run_two_frames:
  "segmentNewPlanes_run loop_is_left three_peaks_1d one_peak_2d single_flags 0
     [([], []), ([], [])] = Inr (four_planes, 4)"
  by (simp add: three_peaks_new_planes four_planes_def)

text \<open>
  Claim C4. A run of \<^verbatim>\<open>segmentNewPlanes\<close> calls that starts with the counter at \<open>c\<close> returns
  from every call, unless the first loop of \<^verbatim>\<open>segmentHorizontalPlanes\<close> uses an iterator
  past the end and the program aborts there. The planes created, horizontal and wall, in
  the order of their creation, carry the symbols \<open>('P', c)\<close>, \<open>('P', c + 1)\<close>, ...: each
  plane gets the counter's current value and the counter goes up by one per plane, so
  that it ends at \<open>c\<close> plus the number of planes created. As long as the 64-bit counter
  does not wrap around, the indices are strictly increasing in the order of creation and
  pairwise different.
\<close>

theorem plane_symbols_fresh_and_increasing:
  "((\<forall>ps0 ms ps a b c d. \<exists>r. pe ps0 ms ps a b c d = Inr r) \<longrightarrow>
      (\<exists>created c'. segmentNewPlanes_run pe lm1 lm2 fl c frames = Inr (created, c'))) \<and>
   (segmentNewPlanes_run pe lm1 lm2 fl c frames = Inr (created, c') \<longrightarrow>
      map m_plane_symbol (concat created) = fresh_symbols c (length (concat created)) \<and>
      c' = c + of_nat (length (concat created)) \<and>
      (unat c + length (concat created) \<le> 2 ^ 64 \<longrightarrow>
         sorted_wrt (<) (map index (map m_plane_symbol (concat created))) \<and>
         distinct (map index (map m_plane_symbol (concat created)))))"
proof (intro conjI impI)
  assume "\<forall>ps0 ms ps a b c d. \<exists>r. pe ps0 ms ps a b c d = Inr r"
  then show "\<exists>created c'. segmentNewPlanes_run pe lm1 lm2 fl c frames = Inr (created, c')"
    by (rule segmentNewPlanes_run_returns)
next
  assume run: "segmentNewPlanes_run pe lm1 lm2 fl c frames = Inr (created, c')"
  note s = segmentNewPlanes_run_symbols[OF run]
  show "map m_plane_symbol (concat created) = fresh_symbols c (length (concat created))"
    and "c' = c + of_nat (length (concat created))"
    using s by simp_all
  assume nowrap: "unat c + length (concat created) \<le> 2 ^ 64"
  show inc: "sorted_wrt (<) (map index (map m_plane_symbol (concat created)))"
    using fresh_symbols_increasing[OF nowrap] s by simp
  then show "distinct (map index (map m_plane_symbol (concat created)))"
    using strict_sorted_iff by blast
qed

theorem plane_symbols_fresh_and_increasing_witness:
  "segmentNewPlanes_run loop_is_left three_peaks_1d one_peak_2d single_flags 0
     [([], []), ([], [])] = Inr (four_planes, 4) \<and>
   map index (map m_plane_symbol (concat four_planes)) = [0, 1, 2, 3] \<and>
   sorted_wrt (<) (map index (map m_plane_symbol (concat four_planes))) \<and>
   distinct (map index (map m_plane_symbol (concat four_planes)))"
proof -
  have len: "unat (0 :: 64 word) + length (concat four_planes) \<le> 2 ^ 64"
    by (simp add: four_planes_def)
  have ids: "map index (map m_plane_symbol (concat four_planes)) = [0, 1, 2, 3]"
    by (simp add: four_planes_def Plane_ctor_def)
  have tot: "\<forall>ps0 ms ps a b c d. \<exists>r. loop_is_left ps0 ms ps a b c d = Inr r"
    by (simp add: loop_is_left_def)
  from plane_symbols_fresh_and_increasing[of loop_is_left three_peaks_1d one_peak_2d
         single_flags 0 "[([], []), ([], [])]" four_planes 4]
       segmentNewPlanes_run_two_frames len ids tot
  show ?thesis by simp
qed

section \<open>Samples of the wall histogram\<close>

lemma calculateNormal_Some_unit:
  assumes "calculateNormal p1 p2 p3 = Inr (Some n)"
  shows "norm3 n = 1"
proof -
  let ?u = "div3 (sub3 p2 p1) (norm3 (sub3 p2 p1))"
  let ?v = "div3 (sub3 p3 p1) (norm3 (sub3 p3 p1))"
  from assms have pos: "0 < norm3 (cross ?u ?v)" and n: "n = div3 (cross ?u ?v) (norm3 (cross ?u ?v))"
    by (auto simp: calculateNormal_def Let_def split: if_splits)
  show ?thesis unfolding n using pos by (rule norm3_div3_self)
qed

lemma atan2_range: "- pi < atan2 b a \<and> atan2 b a \<le> pi"
proof -
  have lo: "- (pi / 2) < arctan (b / a)" and hi: "arctan (b / a) < pi / 2"
    by (rule arctan_lbound, rule arctan_ubound)
  have neg: "a < 0 \<Longrightarrow> b \<ge> 0 \<Longrightarrow> arctan (b / a) \<le> 0"
    by (simp add: divide_nonneg_neg arctan_le_zero_iff)
  have pos: "a < 0 \<Longrightarrow> b < 0 \<Longrightarrow> 0 < arctan (b / a)"
    by (simp add: divide_neg_neg zero_less_arctan_iff)
  show ?thesis
    using lo hi neg pos pi_gt_zero unfolding atan2_def by (auto simp: not_less; linarith)
qed


lemma atan2f_is_float: "to_float (atan2f b a) = atan2f b a"
proof -
  have "\<bar>atan2 b a\<bar> \<le> pi" using atan2_range[of b a] by (simp add: abs_le_iff)
  also have "\<dots> < 4" by (rule pi_less_4)
  finally have "\<bar>atan2 b a\<bar> < 2 powi (- 126 + 2 ^ 8 - 1)" by simp
  then show ?thesis
    unfolding atan2f_def to_float_def by (intro round_to_precision_idem) simp_all
qed



lemma getLongitude_vertical:
  assumes "norm3 n = 1" and "\<bar>ddot n vertical\<bar> < 1"
  shows "getLongitude n vertical = Inr (atan2f (y n) (x n))"
proof -
  have v: "norm3 vertical = 1" by (simp add: vertical_def norm3_def)
  have proj: "sub3 n (scale3 (ddot vertical n) vertical) = Point3f (x n) (y n) 0"
    by (simp add: sub3_def scale3_def ddot_def vertical_def)
  have "x n \<noteq> 0 \<or> y n \<noteq> 0"
  proof (rule ccontr)
    assume "\<not> (x n \<noteq> 0 \<or> y n \<noteq> 0)"
    then have "norm3 n = \<bar>z n\<bar>" "ddot n vertical = z n"
      by (simp_all add: norm3_def ddot_def vertical_def)
    then show False using assms by simp
  qed
  moreover have "ddot (Point3f (x n) (y n) 0) vertical = 0"
    by (simp add: ddot_def vertical_def)
  ultimately show ?thesis using assms(1) v
    unfolding getLongitude_def Let_def proj by (auto simp: check_near_def)
qed

lemma isNormalPerpendicularToAxis_True:
  "isNormalPerpendicularToAxis axis n tol = Inr True \<Longrightarrow> \<bar>ddot n axis\<bar> < tol \<and> tol < 1"
  by (auto simp: isNormalPerpendicularToAxis_def split: if_splits)

lemma longitude_vertical: "longitude n vertical = atan2 (y n) (x n)"
  by (simp add: longitude_def sub3_def scale3_def ddot_def vertical_def)

lemma segment_polygon_pushes_wall_sample:
  assumes len: "length polygon = 3"
    and nrm: "calculateNormal (getVertexPosition (polygon ! 0)) (getVertexPosition (polygon ! 1))
                (getVertexPosition (polygon ! 2)) = Inr (Some n)"
    and upd: "updatePlanesLmkIdsFromPolygon fl seed_planes polygon i n tn td pts =
                Inr (seed_planes', on_plane)"
    and use: "if FLAGS_only_use_non_clustered_points fl then \<not> on_plane else True"
    and hor: "isNormalAroundAxis vertical n th = Inr horizontal"
    and perp: "isNormalPerpendicularToAxis vertical n tw = Inr True"
  shows "segment_polygon fl pts tn td th tw i polygon (seed_planes, zs, walls) =
           Inr (seed_planes',
                (if horizontal
                 then zs @ [z (getVertexPosition (polygon ! 0)), z (getVertexPosition (polygon ! 1)),
                            z (getVertexPosition (polygon ! 2))]
                 else zs),
                walls @
                [if to_float (longitude n vertical) < 0
                 then (to_float (to_double (to_float (longitude n vertical) + PI)),
                       to_float (- ddot (getVertexPosition (polygon ! 0)) n))
                 else (to_float (longitude n vertical),
                       to_float (ddot (getVertexPosition (polygon ! 0)) n))])"
    and "getLongitude n vertical = Inr (to_float (longitude n vertical))"
proof -
  have unit: "norm3 n = 1" using nrm by (rule calculateNormal_Some_unit)
  have "\<bar>ddot n vertical\<bar> < 1"
    using isNormalPerpendicularToAxis_True[OF perp] by simp
  with unit show lon: "getLongitude n vertical = Inr (to_float (longitude n vertical))"
    by (simp add: getLongitude_vertical longitude_vertical atan2f_def)
  have u: "(if FLAGS_only_use_non_clustered_points fl then \<not> on_plane else True) = True"
    using use by simp
  have fl: "to_float (to_float (longitude n vertical)) = to_float (longitude n vertical)"
    using atan2f_is_float[of "y n" "x n"] by (simp add: atan2f_def longitude_vertical)
  show "segment_polygon fl pts tn td th tw i polygon (seed_planes, zs, walls) =
           Inr (seed_planes',
                (if horizontal
                 then zs @ [z (getVertexPosition (polygon ! 0)), z (getVertexPosition (polygon ! 1)),
                            z (getVertexPosition (polygon ! 2))]
                 else zs),
                walls @
                [if to_float (longitude n vertical) < 0
                 then (to_float (to_double (to_float (longitude n vertical) + PI)),
                       to_float (- ddot (getVertexPosition (polygon ! 0)) n))
                 else (to_float (longitude n vertical),
                       to_float (ddot (getVertexPosition (polygon ! 0)) n))])"
    unfolding segment_polygon_def
    using len nrm upd u hor perp lon by (simp add: Let_def fl)
qed













text \<open>
  The lower end of the range is taken as well. The normal of the triangle
  \<open>(0,0,0), (-2\<^sup>-\<^sup>2\<^sup>6, 1, 0), (0,0,-1)\<close> points west and very slightly south: its longitude
  is just above \<open>-\<pi>\<close>, \<^verbatim>\<open>atan2\<close> returns minus the float nearest to \<open>\<pi>\<close>, which is below
  \<open>-\<pi>\<close>, and adding \<^verbatim>\<open>PI\<close> leaves the negative \<open>theta\<close> \<open>-6151831 / 2\<^sup>4\<^sup>6\<close> in the sample.
\<close>

lemma to_float_near_pi:
  assumes "pi - 1 / 33554432 \<le> v" "v \<le> pi"
  shows "to_float v = 13176795 / 4194304"
proof -
  have b: "3141592653 / 1000000000 < pi" "pi < 3141592654 / 1000000000" by (rule pi_bounds)+
  let ?w = "pi - 1 / 33554432"
  have "to_float ?w = of_int (round_half_even (?w / 2 powi (1 - int 24 + 1))) * 2 powi (1 - int 24 + 1)"
    unfolding to_float_def
    by (rule round_to_precision_eval) (use b in simp_all)
  moreover have "round_half_even (?w / 2 powi (1 - int 24 + 1)) = 13176795"
    by (rule round_half_even_unique) (use b in simp_all)
  ultimately have w: "to_float ?w = 13176795 / 4194304" by simp
  have "to_float ?w \<le> to_float v" "to_float v \<le> to_float pi"
    using assms by (intro to_float_mono; simp)+
  then show ?thesis unfolding w to_float_pi by simp
qed

lemma skew_normal:
  fixes e :: real
  assumes "0 < e"
  defines "N \<equiv> sqrt (1 + e * e)"
  shows "calculateNormal (Point3f 0 0 0) (Point3f (- e) 1 0) (Point3f 0 0 (-1)) =
           Inr (Some (Point3f (- (1 / N)) (- (e / N)) 0))"
proof -
  have N: "0 < N" "N * N = 1 + e * e" by (simp_all add: N_def add_pos_nonneg)
  have n21: "norm3 (Point3f (- e) 1 0) = N" by (simp add: norm3_def N_def add.commute)
  have c: "cross (Point3f (- (e / N)) (1 / N) 0) (Point3f 0 0 (-1)) = Point3f (- (1 / N)) (- (e / N)) 0"
    by (simp add: cross_def)
  have "(1 / N) * (1 / N) + (e / N) * (e / N) = (1 + e * e) / (N * N)"
    by (simp add: add_divide_distrib)
  also have "\<dots> = 1"
  proof -
    have "0 < 1 + e * e" by (simp add: add_pos_nonneg)
    then show ?thesis unfolding N(2) by simp
  qed
  finally have n: "norm3 (Point3f (- (1 / N)) (- (e / N)) 0) = 1"
    by (simp add: norm3_def)
  show ?thesis
    using N(1)
    by (simp add: calculateNormal_def Let_def sub3_def n21 c n ddot_def div3_def check_near_def
          norm3_def[of "Point3f 0 0 (-1)"])
qed

lemma skew_longitude:
  fixes e :: real
  assumes "0 < e" "e \<le> 1 / 33554432"
  shows "to_float (longitude (Point3f (- (1 / sqrt (1 + e * e))) (- (e / sqrt (1 + e * e))) 0) vertical)
          = - (13176795 / 4194304)"
proof -
  let ?N = "sqrt (1 + e * e)"
  have N: "0 < ?N" by (simp add: add_pos_nonneg)
  have q: "0 < e / ?N" "0 < 1 / ?N" using N assms(1) by simp_all
  have "atan2 (- (e / ?N)) (- (1 / ?N)) = arctan e - pi"
    using N q by (simp add: atan2_def not_le)
  moreover have "0 \<le> arctan e" "arctan e \<le> e"
    using assms arctan_series_bounds(2)[of e 0] by simp_all
  ultimately have "to_float (atan2 (- (e / ?N)) (- (1 / ?N))) = - to_float (pi - arctan e)"
    using to_float_minus[of "pi - arctan e"] by simp
  also have "to_float (pi - arctan e) = 13176795 / 4194304"
    using \<open>0 \<le> arctan e\<close> \<open>arctan e \<le> e\<close> assms(2) by (intro to_float_near_pi) simp_all
  finally show ?thesis by (simp add: longitude_vertical)
qed

lemma wall_sample_negative_theta:
  "segment_polygon single_flags Map.empty (11 / 1000) (1 / 10) (11 / 1000) (165 / 10000) 0
     west_by_south_triangle ([], [], []) = Inr ([], [], [(- (6151831 / 70368744177664), 0)])"
proof -
  define e :: real where "e = 1 / 67108864"
  define n where "n = Point3f (- (1 / sqrt (1 + e * e))) (- (e / sqrt (1 + e * e))) 0"
  have e: "0 < e" "e \<le> 1 / 33554432" by (simp_all add: e_def)
  have len: "length west_by_south_triangle = 3" by (simp add: west_by_south_triangle_def)
  have nrm: "calculateNormal (getVertexPosition (west_by_south_triangle ! 0))
      (getVertexPosition (west_by_south_triangle ! 1))
      (getVertexPosition (west_by_south_triangle ! 2)) = Inr (Some n)"
    using skew_normal[OF e(1)] by (simp add: west_by_south_triangle_def n_def e_def)
  have unit: "norm3 n = 1" using nrm by (rule calculateNormal_Some_unit)
  have v: "norm3 vertical = 1" "ddot n vertical = 0"
    by (simp_all add: vertical_def norm3_def ddot_def n_def)
  have upd: "updatePlanesLmkIdsFromPolygon single_flags [] west_by_south_triangle 0 n
     (11 / 1000) (1 / 10) Map.empty = Inr ([], False)"
    by (simp add: updatePlanesLmkIdsFromPolygon_def)
  have use: "if FLAGS_only_use_non_clustered_points single_flags then \<not> False else True"
    by simp
  have hor: "isNormalAroundAxis vertical n (11 / 1000) = Inr False"
    by (simp add: isNormalAroundAxis_def unit v check_near_def)
  have perp: "isNormalPerpendicularToAxis vertical n (165 / 10000) = Inr True"
    by (simp add: isNormalPerpendicularToAxis_def unit v check_near_def)
  have lon: "to_float (longitude n vertical) = - (13176795 / 4194304)"
    unfolding n_def using e by (rule skew_longitude)
  have p1: "getVertexPosition (west_by_south_triangle ! 0) = Point3f 0 0 0"
    by (simp add: west_by_south_triangle_def)
  have fold: "to_float (to_double (PI - 13176795 / 4194304)) = - (6151831 / 70368744177664)"
    using PI_minus_float_pi to_double_PI_minus_float_pi to_float_PI_minus_float_pi
    by (simp add: add.commute)
  from segment_polygon_pushes_wall_sample(1)[OF len nrm upd use hor perp, of "[]" "[]"]
  show ?thesis
    by (simp add: p1 lon ddot_def fold)
qed

section \<open>Clustered polygons lie on their plane\<close>

lemma all_vertices_at_distance_True:
  "all_vertices_at_distance polygon d n tol = Inr True \<Longrightarrow>
     list_all (\<lambda>v. \<bar>ddot (getVertexPosition v) n - d\<bar> \<le> tol) polygon"
  by (induction polygon)
     (auto simp: isPointAtDistanceFromPlane_def abs_minus_commute split: sum.splits if_splits)

lemma isPolygonAtDistanceFromPlane_True:
  "isPolygonAtDistanceFromPlane polygon (m_distance pl) (m_normal pl) tol = Inr True \<Longrightarrow>
     on_plane_within tol pl polygon"
  unfolding on_plane_within_def isPolygonAtDistanceFromPlane_def
  by (auto split: if_splits dest: all_vertices_at_distance_True)

lemma cluster_within_append:
  assumes "cluster_within mesh tol pl" "getPolygon mesh i = Some polygon"
    "on_plane_within tol pl polygon"
  shows "cluster_within mesh tol
           (pl\<lparr>m_lmk_ids := ids,
               m_triangle_cluster := (m_triangle_cluster pl)
                 \<lparr>m_triangle_ids := m_triangle_ids (m_triangle_cluster pl) @ [i]\<rparr>\<rparr>)"
  using assms by (simp add: cluster_within_def on_plane_within_def)

lemma update_planes_loop_within:
  assumes "update_planes_loop fl planes polygon i n ntol tol pts b = Inr (planes', b')"
    and "list_all (cluster_within mesh tol) planes"
    and "getPolygon mesh i = Some polygon"
  shows "list_all (cluster_within mesh tol) planes'"
  using assms
proof (induction planes arbitrary: b planes' b')
  case Nil
  then show ?case by simp
next
  case (Cons pl planes)
  from Cons.prems(1) obtain around on_plane rest where
    a: "isNormalAroundAxis (m_normal pl) n ntol = Inr around"
    and o: "(if around then isPolygonAtDistanceFromPlane polygon (m_distance pl) (m_normal pl) tol
             else Inr False) = Inr on_plane"
    and r: "update_planes_loop fl planes polygon i n ntol tol pts (b \<or> on_plane) = Inr (rest, b')"
    and p: "planes' =
       (if on_plane
        then pl\<lparr>m_lmk_ids := appendLmkIdsOfPolygon fl polygon (m_lmk_ids pl) pts,
                m_triangle_cluster := (m_triangle_cluster pl)
                  \<lparr>m_triangle_ids := m_triangle_ids (m_triangle_cluster pl) @ [i]\<rparr>\<rparr>
        else pl) # rest"
    by (auto split: sum.splits prod.splits)
  have rest: "list_all (cluster_within mesh tol) rest"
    using Cons.IH[OF r] Cons.prems(2,3) by simp
  have pl: "cluster_within mesh tol pl" using Cons.prems(2) by simp
  show ?case
  proof (cases on_plane)
    case True
    with o have "isPolygonAtDistanceFromPlane polygon (m_distance pl) (m_normal pl) tol = Inr True"
      by (auto split: if_splits)
    then have "on_plane_within tol pl polygon" by (rule isPolygonAtDistanceFromPlane_True)
    with pl Cons.prems(3) show ?thesis using True p rest
      by (simp add: cluster_within_append)
  next
    case False
    then show ?thesis using p rest pl by simp
  qed
qed

lemma segment_polygon_within:
  assumes "segment_polygon fl pts ntol tol th tw i polygon (seeds, zs, ws) = Inr (seeds', zs', ws')"
    and "list_all (cluster_within mesh tol) seeds"
    and "getPolygon mesh i = Some polygon"
  shows "list_all (cluster_within mesh tol) seeds'"
proof -
  from assms(1) have
    "seeds' = seeds \<or>
     (\<exists>n b. updatePlanesLmkIdsFromPolygon fl seeds polygon i n ntol tol pts = Inr (seeds', b))"
    unfolding segment_polygon_def
    by (auto simp: Let_def split: if_splits sum.splits option.splits prod.splits bool.splits)
  then show ?thesis
    using assms(2,3) update_planes_loop_within
    unfolding updatePlanesLmkIdsFromPolygon_def by blast
qed

lemma segment_loop_within:
  assumes "segment_loop fl pts ntol tol th tw mesh is (seeds, zs, ws) = Inr (seeds', zs', ws')"
    and "list_all (cluster_within mesh tol) seeds"
  shows "list_all (cluster_within mesh tol) seeds'"
  using assms
proof (induction "is" arbitrary: seeds zs ws)
  case Nil
  then show ?case by simp
next
  case (Cons i "is")
  from Cons.prems(1) obtain polygon s1 z1 w1 where
    g: "getPolygon mesh i = Some polygon"
    and s: "segment_polygon fl pts ntol tol th tw i polygon (seeds, zs, ws) = Inr (s1, z1, w1)"
    and r: "segment_loop fl pts ntol tol th tw mesh is (s1, z1, w1) = Inr (seeds', zs', ws')"
    by (auto split: option.splits sum.splits)
  from segment_polygon_within[OF s Cons.prems(2) g] have "list_all (cluster_within mesh tol) s1" .
  from Cons.IH[OF r this] show ?case .
qed

lemma update_from_mesh_loop_within:
  assumes "update_from_mesh_loop fl mesh ntol tol pts is planes = Inr planes'"
    and "list_all (cluster_within mesh tol) planes"
  shows "list_all (cluster_within mesh tol) planes'"
  using assms
proof (induction "is" arbitrary: planes)
  case Nil
  then show ?case by simp
next
  case (Cons i "is")
  from Cons.prems(1) obtain polygon where g: "getPolygon mesh i = Some polygon"
    by (auto split: option.splits)
  from Cons.prems(1) g obtain p1 where
    r: "update_from_mesh_loop fl mesh ntol tol pts is p1 = Inr planes'"
    and c: "p1 = planes \<or> (\<exists>n b. updatePlanesLmkIdsFromPolygon fl planes polygon i n ntol tol pts = Inr (p1, b))"
    by (auto split: if_splits sum.splits option.splits prod.splits)
  from c have "list_all (cluster_within mesh tol) p1"
    using Cons.prems(2) g update_planes_loop_within
    unfolding updatePlanesLmkIdsFromPolygon_def by blast
  from Cons.IH[OF r this] show ?case .
qed

lemma cluster_within_no_triangles:
  "m_triangle_ids (m_triangle_cluster pl) = [] \<Longrightarrow> cluster_within mesh tol pl"
  by (simp add: cluster_within_def)

lemma select_peaks_no_triangles:
  "select_peaks k normal peaks planes c = (planes', c') \<Longrightarrow>
   list_all (\<lambda>pl. m_triangle_ids (m_triangle_cluster pl) = []) planes \<Longrightarrow>
   list_all (\<lambda>pl. m_triangle_ids (m_triangle_cluster pl) = []) planes'"
  by (induction k arbitrary: peaks planes c)
     (auto simp: Plane_ctor_def split: option.splits)

lemma wall_peaks_loop_no_triangles:
  "wall_peaks_loop pks planes c = (planes', c') \<Longrightarrow>
   list_all (\<lambda>pl. m_triangle_ids (m_triangle_cluster pl) = []) planes \<Longrightarrow>
   list_all (\<lambda>pl. m_triangle_ids (m_triangle_cluster pl) = []) planes'"
  by (induction pks arbitrary: planes c) (auto simp: Plane_ctor_def)

lemma segmentNewPlanes_no_triangles:
  assumes "segmentNewPlanes pe lm1 lm2 fl c zs ws = Inr (planes, c')"
  shows "list_all (\<lambda>pl. m_triangle_ids (m_triangle_cluster pl) = []) planes"
proof -
  from assms obtain pks h c1 where
    r: "select_peaks (nat (FLAGS_z_histogram_max_number_of_peaks_to_select fl)) vertical pks [] c
          = (h, c1)"
    and w: "wall_peaks_loop (lm2 ws) h c1 = (planes, c')"
    by (auto simp: segmentNewPlanes_def segmentHorizontalPlanes_def Let_def segmentWalls_def
             split: sum.splits prod.splits)
  from select_peaks_no_triangles[OF r] have "list_all (\<lambda>pl. m_triangle_ids (m_triangle_cluster pl) = []) h"
    by simp
  from wall_peaks_loop_no_triangles[OF w this] show ?thesis .
qed

lemma associate_loop_subset:
  "set (snd (associate_loop geo fl nt dt segs planes ids non)) \<subseteq> set non \<union> set segs"
proof (induction segs arbitrary: ids non)
  case Nil
  then show ?case by simp
next
  case (Cons s segs)
  obtain ids' b where o: "associate_one geo fl nt dt s planes ids = (ids', b)"
    by (cases "associate_one geo fl nt dt s planes ids")
  show ?case
    using Cons[of ids' "if \<not> b then non @ [s] else non"] o
    by (auto split: if_splits)
qed

lemma associatePlanes_subset:
  "set (snd (associatePlanes geo fl segs planes nt dt)) \<subseteq> set segs"
  using associate_loop_subset[of geo fl nt dt segs planes "[]" "[]"]
  by (auto simp: associatePlanes_def)


lemma clusterPlanesFromMesh_within:
  assumes "clusterPlanesFromMesh pe lm1 lm2 geo fl mesh c planes pts = Inr (planes', c')"
  shows "list_all (cluster_within mesh (FLAGS_distance_tolerance_polygon_plane_association fl)) planes'"
proof -
  let ?tol = "FLAGS_distance_tolerance_polygon_plane_association fl"
  let ?ntol = "FLAGS_normal_tolerance_polygon_plane_association fl"
  from assms obtain p1 new c1 where
    seg: "segmentPlanesInMesh pe lm1 lm2 fl mesh c planes pts ?ntol ?tol
            (FLAGS_normal_tolerance_horizontal_surface fl) (FLAGS_normal_tolerance_walls fl) =
          Inr (p1, new, c1)"
    by (auto simp: clusterPlanesFromMesh_def split: sum.splits prod.splits)
  let ?non = "snd (associatePlanes geo fl new p1 (FLAGS_normal_tolerance_plane_plane_association fl)
                    (FLAGS_distance_tolerance_plane_plane_association fl))"
  from seg obtain zs ws where
    loop: "segment_loop fl pts ?ntol ?tol (FLAGS_normal_tolerance_horizontal_surface fl)
             (FLAGS_normal_tolerance_walls fl) mesh [0 ..< getNumberOfPolygons mesh]
             (map clear_plane planes, [], []) = Inr (p1, zs, ws)"
    and newp: "segmentNewPlanes pe lm1 lm2 fl c zs ws = Inr (new, c1)"
    by (auto simp: segmentPlanesInMesh_def split: if_splits sum.splits prod.splits)
  have "list_all (cluster_within mesh ?tol) (map clear_plane planes)"
    by (simp add: list_all_iff cluster_within_def clear_plane_def)
  from segment_loop_within[OF loop this] have p1: "list_all (cluster_within mesh ?tol) p1" .
  have "list_all (\<lambda>pl. m_triangle_ids (m_triangle_cluster pl) = []) new"
    using newp by (rule segmentNewPlanes_no_triangles)
  then have "\<forall>pl \<in> set ?non. m_triangle_ids (m_triangle_cluster pl) = []"
    using associatePlanes_subset[of geo fl new p1] by (auto simp: list_all_iff)
  then have non: "list_all (cluster_within mesh ?tol) ?non"
    by (simp add: list_all_iff cluster_within_no_triangles)
  show ?thesis
  proof (cases "length ?non > 0")
    case False
    then have "planes' = p1" using assms seg by (simp add: clusterPlanesFromMesh_def Let_def)
    then show ?thesis using p1 by simp
  next
    case True
    then obtain updated where
      u: "updatePlanesLmkIdsFromMesh fl mesh ?non ?ntol ?tol pts = Inr updated"
      and r: "planes' = p1 @ updated"
      using assms seg by (auto simp: clusterPlanesFromMesh_def Let_def split: sum.splits)
    from u have "update_from_mesh_loop fl mesh ?ntol ?tol pts [0 ..< getNumberOfPolygons mesh] ?non
                   = Inr updated"
      by (simp add: updatePlanesLmkIdsFromMesh_def split: if_splits)
    from update_from_mesh_loop_within[OF this non] show ?thesis using p1 r by simp
  qed
qed

lemma unit_triangle_normal:
  "calculateNormal (Point3f 0 0 0) (Point3f 1 0 0) (Point3f 0 1 0) = Inr (Some (Point3f 0 0 1))"
  by (simp add: calculateNormal_def Let_def sub3_def div3_def norm3_def ddot_def cross_def
        check_near_def)

lemma getPolygon_one_triangle_mesh: "getPolygon one_triangle_mesh 0 = Some unit_triangle"
  by (simp add: getPolygon_def one_triangle_mesh_def unit_triangle_def)


lemma cluster_example_polygon_step:
  "segment_polygon single_flags Map.empty (11 / 1000) (1 / 10) (11 / 1000) (165 / 10000) 0
     unit_triangle ([clear_plane (plane_at 0 0)], [], []) =
   Inr ([(plane_at 0 0)\<lparr>m_lmk_ids := [1, 2, 3],
           m_triangle_cluster := \<lparr>m_cluster_id = 2, m_triangle_ids = [0]\<rparr>\<rparr>], [], [])"
  unfolding segment_polygon_def
  by (simp add: unit_triangle_def unit_triangle_normal updatePlanesLmkIdsFromPolygon_def
        isNormalAroundAxis_def isPolygonAtDistanceFromPlane_def isPointAtDistanceFromPlane_def
        clear_plane_def plane_at_def Plane_ctor_def single_flags_def norm3_def ddot_def
        check_near_def Let_def)

lemma cluster_example_segment:
  "segmentPlanesInMesh loop_is_left three_peaks_1d one_peak_2d single_flags one_triangle_mesh 1
     [plane_at 0 0] Map.empty (11 / 1000) (1 / 10) (11 / 1000) (165 / 10000) =
   Inr ([(plane_at 0 0)\<lparr>m_lmk_ids := [1, 2, 3],
           m_triangle_cluster := \<lparr>m_cluster_id = 2, m_triangle_ids = [0]\<rparr>\<rparr>],
        [Plane_ctor (Symbol CHR ''P'' 1) vertical 2 [] 2,
         Plane_ctor (Symbol CHR ''P'' 2) (Point3f 1 0 0) 1 [] 1], 3)"
proof -
  have n: "getNumberOfPolygons one_triangle_mesh = 1"
    by (simp add: getNumberOfPolygons_def one_triangle_mesh_def)
  show ?thesis
    unfolding segmentPlanesInMesh_def
    using cluster_example_polygon_step three_peaks_new_planes[of 1 "[]" "[]"]
    by (simp add: n getMeshPolygonDimension_def getPolygon_one_triangle_mesh)
qed

lemma cluster_example_associate:
  "snd (associatePlanes same_distance single_flags
     [Plane_ctor (Symbol CHR ''P'' 1) vertical 2 [] 2,
      Plane_ctor (Symbol CHR ''P'' 2) (Point3f 1 0 0) 1 [] 1]
     [(plane_at 0 0)\<lparr>m_lmk_ids := [1, 2, 3],
           m_triangle_cluster := \<lparr>m_cluster_id = 2, m_triangle_ids = [0]\<rparr>\<rparr>]
     (11 / 1000) (1 / 5)) =
   [Plane_ctor (Symbol CHR ''P'' 1) vertical 2 [] 2,
    Plane_ctor (Symbol CHR ''P'' 2) (Point3f 1 0 0) 1 [] 1]"
  by (simp add: associatePlanes_def same_distance_def plane_at_def Plane_ctor_def single_flags_def)

lemma cluster_example_update:
  "updatePlanesLmkIdsFromMesh single_flags one_triangle_mesh
     [Plane_ctor (Symbol CHR ''P'' 1) vertical 2 [] 2,
      Plane_ctor (Symbol CHR ''P'' 2) (Point3f 1 0 0) 1 [] 1]
     (11 / 1000) (1 / 10) Map.empty =
   Inr [Plane_ctor (Symbol CHR ''P'' 1) vertical 2 [] 2,
        Plane_ctor (Symbol CHR ''P'' 2) (Point3f 1 0 0) 1 [] 1]"
proof -
  have n: "getNumberOfPolygons one_triangle_mesh = 1"
    by (simp add: getNumberOfPolygons_def one_triangle_mesh_def)
  have u: "updatePlanesLmkIdsFromPolygon single_flags
     [Plane_ctor (Symbol CHR ''P'' 1) vertical 2 [] 2,
      Plane_ctor (Symbol CHR ''P'' 2) (Point3f 1 0 0) 1 [] 1] unit_triangle 0 (Point3f 0 0 1)
     (11 / 1000) (1 / 10) Map.empty =
     Inr ([Plane_ctor (Symbol CHR ''P'' 1) vertical 2 [] 2,
           Plane_ctor (Symbol CHR ''P'' 2) (Point3f 1 0 0) 1 [] 1], False)"
    by (simp add: updatePlanesLmkIdsFromPolygon_def isNormalAroundAxis_def
          isPolygonAtDistanceFromPlane_def isPointAtDistanceFromPlane_def unit_triangle_def
          Plane_ctor_def vertical_def norm3_def ddot_def check_near_def)
  have len: "length unit_triangle = 3" by (simp add: unit_triangle_def)
  have nrm: "calculateNormal (getVertexPosition (unit_triangle ! 0))
     (getVertexPosition (unit_triangle ! 1)) (getVertexPosition (unit_triangle ! 2)) =
     Inr (Some (Point3f 0 0 1))"
    by (simp add: unit_triangle_def unit_triangle_normal)
  show ?thesis
    unfolding updatePlanesLmkIdsFromMesh_def
    using len nrm u
    by (simp add: n getMeshPolygonDimension_def getPolygon_one_triangle_mesh)
qed

lemma cluster_example:
  "clusterPlanesFromMesh loop_is_left three_peaks_1d one_peak_2d same_distance single_flags
     one_triangle_mesh 1 [plane_at 0 0] Map.empty = Inr (clustered_planes, 3)"
proof -
  have f: "FLAGS_normal_tolerance_polygon_plane_association single_flags = 11 / 1000"
    "FLAGS_distance_tolerance_polygon_plane_association single_flags = 1 / 10"
    "FLAGS_normal_tolerance_horizontal_surface single_flags = 11 / 1000"
    "FLAGS_normal_tolerance_walls single_flags = 165 / 10000"
    "FLAGS_normal_tolerance_plane_plane_association single_flags = 11 / 1000"
    "FLAGS_distance_tolerance_plane_plane_association single_flags = 1 / 5"
    by (simp_all add: single_flags_def)
  show ?thesis
    unfolding clusterPlanesFromMesh_def f
    using cluster_example_segment cluster_example_associate cluster_example_update
    by (simp add: clustered_planes_def)
qed

text \<open>
  Claim C5. When \<^verbatim>\<open>clusterPlanesFromMesh\<close> returns, every triangle id in the cluster of
  every plane it leaves, seed plane or new plane, is the index of a polygon of the mesh
  all of whose vertices \<open>v\<close> satisfy \<open>|v \<cdot> normal - distance| \<le> tol\<close>, where \<open>tol\<close> is the
  polygon-plane distance tolerance of the clustering. A call in which the first loop of
  \<^verbatim>\<open>segmentHorizontalPlanes\<close> reads \<^verbatim>\<open>previous_peak_it\<close> after the erasure returns like any
  other, as in the example; whatever that loop leaves when it uses an iterator past the
  end (\<open>pe\<close>), the planes of a call that returns have the property.
\<close>

theorem clusterPlanesFromMesh_clusters_within_tolerance:
  assumes "clusterPlanesFromMesh pe lm1 lm2 geo fl mesh c planes pts = Inr (planes', c')"
  shows "\<forall>pl \<in> set planes'. \<forall>t \<in> set (m_triangle_ids (m_triangle_cluster pl)).
           \<exists>polygon. getPolygon mesh t = Some polygon \<and>
             (\<forall>v \<in> set polygon.
                \<bar>ddot (getVertexPosition v) (m_normal pl) - m_distance pl\<bar>
                  \<le> FLAGS_distance_tolerance_polygon_plane_association fl)"
proof (intro ballI)
  fix pl t
  assume "pl \<in> set planes'" and "t \<in> set (m_triangle_ids (m_triangle_cluster pl))"
  with clusterPlanesFromMesh_within[OF assms]
  have g: "getPolygon mesh t \<noteq> None"
    and w: "on_plane_within (FLAGS_distance_tolerance_polygon_plane_association fl) pl
              (the (getPolygon mesh t))"
    by (auto simp: list_all_iff cluster_within_def)
  from g obtain polygon where p: "getPolygon mesh t = Some polygon" by auto
  with w show "\<exists>polygon. getPolygon mesh t = Some polygon \<and>
             (\<forall>v \<in> set polygon.
                \<bar>ddot (getVertexPosition v) (m_normal pl) - m_distance pl\<bar>
                  \<le> FLAGS_distance_tolerance_polygon_plane_association fl)"
    by (simp add: on_plane_within_def list_all_iff)
qed

theorem clusterPlanesFromMesh_clusters_within_tolerance_witness:
  "clusterPlanesFromMesh loop_is_left three_peaks_1d one_peak_2d same_distance single_flags
     one_triangle_mesh 1 [plane_at 0 0] Map.empty = Inr (clustered_planes, 3) \<and>
   m_triangle_ids (m_triangle_cluster (clustered_planes ! 0)) = [0] \<and>
   getPolygon one_triangle_mesh 0 = Some unit_triangle \<and>
   list_all (\<lambda>v. \<bar>ddot (getVertexPosition v) (m_normal (clustered_planes ! 0)) -
                     m_distance (clustered_planes ! 0)\<bar> \<le> 1 / 10) unit_triangle"
proof -
  have ids: "m_triangle_ids (m_triangle_cluster (clustered_planes ! 0)) = [0]"
    by (simp add: clustered_planes_def)
  have mem: "clustered_planes ! 0 \<in> set clustered_planes"
    by (simp add: clustered_planes_def)
  have tol: "FLAGS_distance_tolerance_polygon_plane_association single_flags = 1 / 10"
    by (simp add: single_flags_def)
  from clusterPlanesFromMesh_clusters_within_tolerance[OF cluster_example] mem ids
  have "\<exists>polygon. getPolygon one_triangle_mesh 0 = Some polygon \<and>
          (\<forall>v \<in> set polygon.
             \<bar>ddot (getVertexPosition v) (m_normal (clustered_planes ! 0)) -
              m_distance (clustered_planes ! 0)\<bar> \<le> 1 / 10)"
    unfolding tol by fastforce
  then show ?thesis
    using cluster_example ids getPolygon_one_triangle_mesh by (simp add: list_all_iff)
qed

section \<open>The mesh store and the time horizon\<close>

lemma slots_after_fold:
  assumes "\<forall>v \<in> set p. getVertexPosition v = f (getLmkId v)"
  shows "fold (\<lambda>v s. s(getLmkId v \<mapsto> getVertexPosition v)) p S k =
         (if k \<in> getLmkId ` set p then Some (f k) else S k)"
  using assms by (induction p arbitrary: S) auto

lemma mesh_agrees_empty: "mesh_agrees empty_mesh f"
  by (simp add: mesh_agrees_def empty_mesh_def)

lemma addPolygonToMesh_agrees:
  assumes "mesh_agrees m f" "length ids = 3"
  shows "\<exists>m'. addPolygonToMesh m (mk_polygon f ids) = Inr m' \<and> mesh_agrees m' f \<and>
              polygons_mesh m' = polygons_mesh m @ [ids]"
proof -
  let ?p = "mk_polygon f ids"
  let ?S = "fold (\<lambda>v s. s(getLmkId v \<mapsto> getVertexPosition v)) ?p (vertex_slots m)"
  have c: "\<forall>v \<in> set ?p. getVertexPosition v = f (getLmkId v)"
    by (auto simp: mk_polygon_def)
  have S: "\<And>k. ?S k = (if k \<in> getLmkId ` set ?p then Some (f k) else vertex_slots m k)"
    using slots_after_fold[OF c] by simp
  have ids: "map getLmkId ?p = ids" by (simp add: mk_polygon_def comp_def)
  have img: "getLmkId ` set ?p = set ids"
    by (auto simp: mk_polygon_def image_iff)
  have new: "\<And>k. k \<in> set ids \<Longrightarrow> ?S k = Some (f k)"
    by (simp only: S img if_True)
  have old: "\<And>k. vertex_slots m k = Some (f k) \<Longrightarrow> ?S k = Some (f k)"
    by (simp only: S split: if_split) simp
  have "mesh_agrees \<lparr>vertex_slots = ?S, polygons_mesh = polygons_mesh m @ [ids]\<rparr> f"
    using assms(1) new old unfolding mesh_agrees_def
    by (simp add: list_all_iff)
  then show ?thesis using assms(2) ids
    by (simp add: addPolygonToMesh_def mk_polygon_def)
qed

lemma getPolygon_agrees:
  assumes "mesh_agrees m f" "i < length (polygons_mesh m)"
  shows "getPolygon m i = Some (mk_polygon f (polygons_mesh m ! i))"
proof -
  have "\<forall>k \<in> set (polygons_mesh m ! i). vertex_slots m k = Some (f k)"
    using assms by (auto simp: mesh_agrees_def list_all_iff)
  then show ?thesis using assms(2)
    by (auto simp: getPolygon_def mk_polygon_def list_all_iff)
qed

lemma mesh_content_agrees:
  assumes "mesh_agrees m f"
  shows "mesh_content m = map (\<lambda>ids. Some (mk_polygon f ids)) (polygons_mesh m)"
  using assms
  by (auto simp: mesh_content_def getNumberOfPolygons_def getPolygon_agrees
           intro!: nth_equalityI)

lemma getPolygon_Some_mk:
  assumes "getPolygon m i = Some polygon"
  shows "i < length (polygons_mesh m) \<and>
         polygon = mk_polygon (\<lambda>k. the (vertex_slots m k)) (polygons_mesh m ! i)"
  using assms by (auto simp: getPolygon_def mk_polygon_def split: if_splits)

lemma refresh_vertices_save:
  "snd (refresh_vertices tbl reduce vs) \<longleftrightarrow>
     (\<not> reduce \<or> list_all (\<lambda>v. tbl (getLmkId v) \<noteq> None) vs)"
  by (induction vs) (auto split: option.splits)

lemma refresh_vertices_mk:
  assumes "snd (refresh_vertices tbl reduce (mk_polygon g ids))"
  shows "fst (refresh_vertices tbl reduce (mk_polygon g ids)) =
         mk_polygon (refreshed_position tbl g) ids"
  using assms
  by (induction ids)
     (auto simp: mk_polygon_def refreshed_position_def split: option.splits if_splits)

lemma isBadTriangle_length:
  "isBadTriangle tt rt polygon pose a b c = Inr r \<Longrightarrow> length polygon = 3"
  by (auto simp: isBadTriangle_def split: if_splits)

lemma isBadTriangle_total:
  "length polygon = 3 \<Longrightarrow> \<exists>r. isBadTriangle tt rt polygon pose a b c = Inr r"
  by (auto simp: isBadTriangle_def Let_def)

lemma isBadTriangle_without_elongation:
  assumes "isBadTriangle tt rt polygon pose a b c = Inr False"
  shows "isBadTriangle tt rt polygon pose a (- 1) c = Inr False"
  using assms by (auto simp: isBadTriangle_def Let_def split: if_splits)


lemma length_mk_polygon: "length (mk_polygon f ids) = length ids"
  by (simp add: mk_polygon_def)

lemma time_horizon_loop_invariant:
  fixes tbl :: "LandmarkId \<rightharpoonup> Point3f" and m :: Mesh3D
  defines "h \<equiv> refreshed_position tbl (\<lambda>k. the (vertex_slots m k))"
  assumes "time_horizon_loop tt rt m tbl pose mr ms reduce is out = Inr out'"
    and "mesh_agrees out h"
    and "list_all (\<lambda>ids. length ids = 3 \<and>
            isBadTriangle tt rt (mk_polygon h ids) pose mr (- 1) ms = Inr False \<and>
            (\<not> reduce \<or> list_all (\<lambda>k. tbl k \<noteq> None) ids)) (polygons_mesh out)"
  shows "mesh_agrees out' h \<and>
         list_all (\<lambda>ids. length ids = 3 \<and>
            isBadTriangle tt rt (mk_polygon h ids) pose mr (- 1) ms = Inr False \<and>
            (\<not> reduce \<or> list_all (\<lambda>k. tbl k \<noteq> None) ids)) (polygons_mesh out')"
  using assms(2-)
proof (induction "is" arbitrary: out)
  case Nil
  then show ?case by simp
next
  case (Cons i "is")
  let ?g = "\<lambda>k. the (vertex_slots m k)"
  from Cons.prems(1) obtain polygon0 where g0: "getPolygon m i = Some polygon0"
    by (auto split: option.splits)
  let ?ids = "polygons_mesh m ! i"
  from getPolygon_Some_mk[OF g0] have p0: "polygon0 = mk_polygon ?g ?ids" by simp
  let ?save = "snd (refresh_vertices tbl reduce polygon0)"
  let ?poly = "fst (refresh_vertices tbl reduce polygon0)"
  show ?case
  proof (cases "?save \<and> isBadTriangle tt rt ?poly pose mr (- 1) ms = Inr False")
    case False
    then have "time_horizon_loop tt rt m tbl pose mr ms reduce is out = Inr out'"
      using Cons.prems(1) g0 by (auto simp: Let_def split: sum.splits bool.splits if_splits)
    from Cons.IH[OF this Cons.prems(2,3)] show ?thesis .
  next
    case True
    then have poly: "?poly = mk_polygon h ?ids"
      unfolding p0 h_def by (simp add: refresh_vertices_mk)
    from True have len: "length ?ids = 3"
      using isBadTriangle_length[of tt rt ?poly pose mr "- 1" ms False]
      by (simp add: poly length_mk_polygon)
    from True have dom: "\<not> reduce \<or> list_all (\<lambda>k. tbl k \<noteq> None) ?ids"
      unfolding p0 by (auto simp: refresh_vertices_save mk_polygon_def list_all_iff)
    from addPolygonToMesh_agrees[OF Cons.prems(2) len] obtain out1 where
      a: "addPolygonToMesh out (mk_polygon h ?ids) = Inr out1" "mesh_agrees out1 h"
         "polygons_mesh out1 = polygons_mesh out @ [?ids]"
      by blast
    have r: "time_horizon_loop tt rt m tbl pose mr ms reduce is out1 = Inr out'"
      using Cons.prems(1) g0 True a(1) by (simp add: Let_def poly)
    have q: "list_all (\<lambda>ids. length ids = 3 \<and>
            isBadTriangle tt rt (mk_polygon h ids) pose mr (- 1) ms = Inr False \<and>
            (\<not> reduce \<or> list_all (\<lambda>k. tbl k \<noteq> None) ids)) (polygons_mesh out1)"
      using Cons.prems(3) a(3) len dom True by (simp add: poly)
    from Cons.IH[OF r a(2) q] show ?thesis .
  qed
qed

lemma time_horizon_loop_keeps_all:
  fixes tbl :: "LandmarkId \<rightharpoonup> Point3f" and g :: "LandmarkId \<Rightarrow> Point3f"
  defines "h \<equiv> refreshed_position tbl g"
  assumes "mesh_agrees m g"
    and "list_all (\<lambda>i. i < length (polygons_mesh m) \<and> length (polygons_mesh m ! i) = 3 \<and>
            isBadTriangle tt rt (mk_polygon h (polygons_mesh m ! i)) pose mr (- 1) ms = Inr False \<and>
            (\<not> reduce \<or> list_all (\<lambda>k. tbl k \<noteq> None) (polygons_mesh m ! i))) is"
    and "mesh_agrees out h"
  shows "\<exists>out'. time_horizon_loop tt rt m tbl pose mr ms reduce is out = Inr out' \<and>
           mesh_agrees out' h \<and>
           polygons_mesh out' = polygons_mesh out @ map (\<lambda>i. polygons_mesh m ! i) is"
  using assms(3-)
proof (induction "is" arbitrary: out)
  case Nil
  then show ?case by simp
next
  case (Cons i "is")
  let ?ids = "polygons_mesh m ! i"
  from Cons.prems(1) have i: "i < length (polygons_mesh m)" and len: "length ?ids = 3"
    and good: "isBadTriangle tt rt (mk_polygon h ?ids) pose mr (- 1) ms = Inr False"
    and dom: "\<not> reduce \<or> list_all (\<lambda>k. tbl k \<noteq> None) ?ids"
    by simp_all
  have g0: "getPolygon m i = Some (mk_polygon g ?ids)"
    using assms(2) i by (rule getPolygon_agrees)
  have save: "snd (refresh_vertices tbl reduce (mk_polygon g ?ids))"
    using dom by (auto simp: refresh_vertices_save mk_polygon_def list_all_iff)
  then have poly: "fst (refresh_vertices tbl reduce (mk_polygon g ?ids)) = mk_polygon h ?ids"
    unfolding h_def by (rule refresh_vertices_mk)
  from addPolygonToMesh_agrees[OF Cons.prems(2) len] obtain out1 where
    a: "addPolygonToMesh out (mk_polygon h ?ids) = Inr out1" "mesh_agrees out1 h"
       "polygons_mesh out1 = polygons_mesh out @ [?ids]"
    by blast
  from Cons.prems(1) have rest: "list_all (\<lambda>i. i < length (polygons_mesh m) \<and> length (polygons_mesh m ! i) = 3 \<and>
            isBadTriangle tt rt (mk_polygon h (polygons_mesh m ! i)) pose mr (- 1) ms = Inr False \<and>
            (\<not> reduce \<or> list_all (\<lambda>k. tbl k \<noteq> None) (polygons_mesh m ! i))) is"
    by simp
  from Cons.IH[OF rest a(2)] obtain out' where
    o: "time_horizon_loop tt rt m tbl pose mr ms reduce is out1 = Inr out'"
       "mesh_agrees out' h"
       "polygons_mesh out' = polygons_mesh out1 @ map (\<lambda>i. polygons_mesh m ! i) is"
    by blast
  have "time_horizon_loop tt rt m tbl pose mr ms reduce (i # is) out = Inr out'"
    using g0 save poly good a(1) o(1) by (simp add: Let_def)
  then show ?case using o(2,3) a(3) by simp
qed


lemma updatePolygonMeshToTimeHorizon_invariant:
  fixes tbl :: "LandmarkId \<rightharpoonup> Point3f" and m :: Mesh3D
  defines "h \<equiv> refreshed_position tbl (\<lambda>k. the (vertex_slots m k))"
  assumes "updatePolygonMeshToTimeHorizon tt rt m tbl pose mr ms reduce = Inr out"
  shows "mesh_agrees out h \<and>
         list_all (\<lambda>ids. length ids = 3 \<and>
            isBadTriangle tt rt (mk_polygon h ids) pose mr (- 1) ms = Inr False \<and>
            (\<not> reduce \<or> list_all (\<lambda>k. tbl k \<noteq> None) ids)) (polygons_mesh out)"
  unfolding h_def
  using assms(2) unfolding updatePolygonMeshToTimeHorizon_def
  by (rule time_horizon_loop_invariant) (simp_all add: mesh_agrees_empty, simp add: empty_mesh_def)

lemma append_stereo_loop_extends:
  "append_stereo_loop tf sf pose is pts = Inr pts' \<Longrightarrow> pts \<subseteq>\<^sub>m pts'"
proof (induction "is" arbitrary: pts)
  case Nil
  then show ?case by simp
next
  case (Cons i "is")
  show ?case
  proof (cases "m_right_keypoints_status sf ! i = VALID \<and> m_landmarks (m_left_frame sf) ! i \<noteq> - 1")
    case False
    with Cons.prems have "append_stereo_loop tf sf pose is pts = Inr pts'"
      by (auto split: if_splits)
    then show ?thesis by (rule Cons.IH)
  next
    case True
    let ?k = "m_landmarks (m_left_frame sf) ! i"
    let ?pts = "if pts ?k = None then pts(?k \<mapsto> tf pose (m_keypoints_3d sf ! i)) else pts"
    from True Cons.prems have "append_stereo_loop tf sf pose is ?pts = Inr pts'"
      by (auto simp: Let_def split: if_splits)
    then have "?pts \<subseteq>\<^sub>m pts'" by (rule Cons.IH)
    moreover have "pts \<subseteq>\<^sub>m ?pts" by (auto simp: map_le_def)
    ultimately show ?thesis by (rule map_le_trans[rotated])
  qed
qed

lemma points_with_id_all_extends:
  assumes "points_with_id_all tf fl vio sf pose = Inr tbl"
  shows "vio \<subseteq>\<^sub>m tbl" and "\<not> FLAGS_add_extra_lmks_from_stereo fl \<Longrightarrow> tbl = vio"
  using assms
  by (auto simp: points_with_id_all_def appendNonVioStereoPoints_def
           split: if_splits dest: append_stereo_loop_extends)


section \<open>Populating the mesh\<close>

lemma fold_slots_map_add:
  "fold (\<lambda>v s. s(getLmkId v \<mapsto> getVertexPosition v)) p (A ++ B) =
   A ++ fold (\<lambda>v s. s(getLmkId v \<mapsto> getVertexPosition v)) p B"
  by (induction p arbitrary: B) (simp_all add: map_add_upd[symmetric] del: map_add_upd)

lemma addPolygonToMesh_merge:
  "addPolygonToMesh (merge_mesh m d) p =
     (case addPolygonToMesh d p of Inl e \<Rightarrow> Inl e | Inr d' \<Rightarrow> Inr (merge_mesh m d'))"
  by (simp add: addPolygonToMesh_def merge_mesh_def fold_slots_map_add)

lemma merge_mesh_empty: "merge_mesh m empty_mesh = m"
  by (simp add: merge_mesh_def empty_mesh_def)

lemma populate_vertices_merge:
  "populate_vertices tt rt fnd tbl frame pose mr me ms t js (poly, merge_mesh m d) =
     (case populate_vertices tt rt fnd tbl frame pose mr me ms t js (poly, d) of
        Inl e \<Rightarrow> Inl e
      | Inr st \<Rightarrow> Inr (fst st, merge_mesh m (snd st)))"
proof (induction js arbitrary: poly d)
  case Nil
  then show ?case by simp
next
  case (Cons j js)
  show ?case
    by (simp add: Let_def Cons addPolygonToMesh_merge
          split: option.splits sum.splits bool.splits)
qed

lemma populate_triangles_merge:
  "populate_triangles tt rt fnd tbl frame pose mr me ms ts (poly, merge_mesh m d) =
     (case populate_triangles tt rt fnd tbl frame pose mr me ms ts (poly, d) of
        Inl e \<Rightarrow> Inl e
      | Inr st \<Rightarrow> Inr (fst st, merge_mesh m (snd st)))"
proof (induction ts arbitrary: poly d)
  case Nil
  then show ?case by simp
next
  case (Cons t ts)
  show ?case
  proof (cases "populate_vertices tt rt fnd tbl frame pose mr me ms t [0 ..< 3] (poly, d)")
    case (Inl e)
    then show ?thesis by (simp add: populate_vertices_merge)
  next
    case (Inr st)
    obtain poly' d' where st: "st = (poly', d')" by (cases st)
    show ?thesis using Inr st Cons[of poly' d'] by (simp add: populate_vertices_merge)
  qed
qed

lemma populate3dMesh_merge:
  "populate3dMesh tt rt fnd m ts tbl frame pose mr me ms =
     (case populate3dMesh tt rt fnd empty_mesh ts tbl frame pose mr me ms of
        Inl e \<Rightarrow> Inl e
      | Inr d \<Rightarrow> Inr (merge_mesh m d))"
  using populate_triangles_merge[of tt rt fnd tbl frame pose mr me ms ts default_polygon m empty_mesh]
  by (simp add: populate3dMesh_def merge_mesh_empty split: sum.splits)


lemma length_3_cases:
  assumes "length (xs :: 'a list) = 3"
  obtains a b c where "xs = [a, b, c]"
  using assms by (cases xs; cases "tl xs"; cases "tl (tl xs)") auto

lemma upt_0_3: "[0 ..< 3] = [0, 1, 2]"
  by (simp add: upt_rec)

lemma populate_vertices_cases:
  assumes "populate_vertices tt rt fnd tbl frame pose mr me ms t [0 ..< 3] (poly, d) = Inr (poly', d')"
    and "length poly = 3"
  shows "length poly' = 3 \<and>
         (d' = d \<or>
          (\<exists>k0 k1 k2 p0 p1 p2. tbl k0 = Some p0 \<and> tbl k1 = Some p1 \<and> tbl k2 = Some p2 \<and>
             isBadTriangle tt rt
               [Vertex k0 (to_Point3f p0), Vertex k1 (to_Point3f p1), Vertex k2 (to_Point3f p2)]
               pose mr me ms = Inr False \<and>
             addPolygonToMesh d
               [Vertex k0 (to_Point3f p0), Vertex k1 (to_Point3f p1), Vertex k2 (to_Point3f p2)] =
               Inr d'))"
proof -
  from assms(2) obtain a b c where poly: "poly = [a, b, c]" by (rule length_3_cases)
  show ?thesis
    using assms(1) unfolding poly upt_0_3
    by (auto simp: Let_def split: if_splits option.splits sum.splits bool.splits)
qed


lemma addPolygonToMesh_from_table:
  fixes tbl :: "LandmarkId \<rightharpoonup> Point3f"
  assumes "addPolygonToMesh d
             [Vertex k0 (to_Point3f p0), Vertex k1 (to_Point3f p1), Vertex k2 (to_Point3f p2)] = Inr d'"
    and "tbl k0 = Some p0" "tbl k1 = Some p1" "tbl k2 = Some p2"
    and "mesh_agrees d (\<lambda>k. to_Point3f (the (tbl k)))"
    and "vertex_slots d \<subseteq>\<^sub>m (\<lambda>k. map_option to_Point3f (tbl k))"
  shows "mesh_agrees d' (\<lambda>k. to_Point3f (the (tbl k))) \<and>
         vertex_slots d' \<subseteq>\<^sub>m (\<lambda>k. map_option to_Point3f (tbl k)) \<and>
         polygons_mesh d' = polygons_mesh d @ [[k0, k1, k2]] \<and>
         mk_polygon (\<lambda>k. to_Point3f (the (tbl k))) [k0, k1, k2] =
           [Vertex k0 (to_Point3f p0), Vertex k1 (to_Point3f p1), Vertex k2 (to_Point3f p2)]"
proof -
  have mk: "mk_polygon (\<lambda>k. to_Point3f (the (tbl k))) [k0, k1, k2] =
              [Vertex k0 (to_Point3f p0), Vertex k1 (to_Point3f p1), Vertex k2 (to_Point3f p2)]"
    using assms(2-4) by (simp add: mk_polygon_def)
  from addPolygonToMesh_agrees[OF assms(5), of "[k0, k1, k2]"] assms(1)
  have a: "mesh_agrees d' (\<lambda>k. to_Point3f (the (tbl k)))"
    "polygons_mesh d' = polygons_mesh d @ [[k0, k1, k2]]"
    by (auto simp: mk)
  have "vertex_slots d' =
          (vertex_slots d)(k0 \<mapsto> to_Point3f p0, k1 \<mapsto> to_Point3f p1, k2 \<mapsto> to_Point3f p2)"
    using assms(1) by (auto simp: addPolygonToMesh_def)
  then have "vertex_slots d' \<subseteq>\<^sub>m (\<lambda>k. map_option to_Point3f (tbl k))"
    using assms(2-4,6) by (auto simp: map_le_def)
  then show ?thesis using a mk by simp
qed

lemma populate_triangles_from_table:
  fixes tbl :: "LandmarkId \<rightharpoonup> Point3f"
  assumes "populate_triangles tt rt fnd tbl frame pose mr me ms ts (poly, d) = Inr (poly', d')"
    and "length poly = 3"
    and "mesh_agrees d (\<lambda>k. to_Point3f (the (tbl k)))" and "vertex_slots d \<subseteq>\<^sub>m (\<lambda>k. map_option to_Point3f (tbl k))"
    and "list_all (\<lambda>ids. length ids = 3 \<and> list_all (\<lambda>k. tbl k \<noteq> None) ids \<and>
           isBadTriangle tt rt (mk_polygon (\<lambda>k. to_Point3f (the (tbl k))) ids) pose mr me ms = Inr False)
           (polygons_mesh d)"
  shows "mesh_agrees d' (\<lambda>k. to_Point3f (the (tbl k))) \<and> vertex_slots d' \<subseteq>\<^sub>m (\<lambda>k. map_option to_Point3f (tbl k)) \<and>
         list_all (\<lambda>ids. length ids = 3 \<and> list_all (\<lambda>k. tbl k \<noteq> None) ids \<and>
           isBadTriangle tt rt (mk_polygon (\<lambda>k. to_Point3f (the (tbl k))) ids) pose mr me ms = Inr False)
           (polygons_mesh d')"
  using assms
proof (induction ts arbitrary: poly d)
  case Nil
  then show ?case by simp
next
  case (Cons t ts)
  from Cons.prems(1) obtain poly1 d1 where
    v: "populate_vertices tt rt fnd tbl frame pose mr me ms t [0 ..< 3] (poly, d) = Inr (poly1, d1)"
    and r: "populate_triangles tt rt fnd tbl frame pose mr me ms ts (poly1, d1) = Inr (poly', d')"
    by (auto split: sum.splits)
  from populate_vertices_cases[OF v Cons.prems(2)] have len: "length poly1 = 3"
    and c: "d1 = d \<or>
          (\<exists>k0 k1 k2 p0 p1 p2. tbl k0 = Some p0 \<and> tbl k1 = Some p1 \<and> tbl k2 = Some p2 \<and>
             isBadTriangle tt rt
               [Vertex k0 (to_Point3f p0), Vertex k1 (to_Point3f p1), Vertex k2 (to_Point3f p2)]
               pose mr me ms = Inr False \<and>
             addPolygonToMesh d
               [Vertex k0 (to_Point3f p0), Vertex k1 (to_Point3f p1), Vertex k2 (to_Point3f p2)] =
               Inr d1)"
    by auto
  have "mesh_agrees d1 (\<lambda>k. to_Point3f (the (tbl k))) \<and> vertex_slots d1 \<subseteq>\<^sub>m (\<lambda>k. map_option to_Point3f (tbl k)) \<and>
         list_all (\<lambda>ids. length ids = 3 \<and> list_all (\<lambda>k. tbl k \<noteq> None) ids \<and>
           isBadTriangle tt rt (mk_polygon (\<lambda>k. to_Point3f (the (tbl k))) ids) pose mr me ms = Inr False)
           (polygons_mesh d1)"
  proof (cases "d1 = d")
    case True
    then show ?thesis using Cons.prems(3-5) by simp
  next
    case False
    with c obtain k0 k1 k2 p0 p1 p2 where
      k: "tbl k0 = Some p0" "tbl k1 = Some p1" "tbl k2 = Some p2"
      and g: "isBadTriangle tt rt
                [Vertex k0 (to_Point3f p0), Vertex k1 (to_Point3f p1), Vertex k2 (to_Point3f p2)]
                pose mr me ms = Inr False"
      and a: "addPolygonToMesh d
                [Vertex k0 (to_Point3f p0), Vertex k1 (to_Point3f p1), Vertex k2 (to_Point3f p2)] =
                Inr d1"
      by blast
    from addPolygonToMesh_from_table[OF a k Cons.prems(3,4)] show ?thesis
      using Cons.prems(5) g k by simp
  qed
  then show ?case using Cons.IH[OF r len] by blast
qed

lemma populate3dMesh_from_empty:
  fixes tbl :: "LandmarkId \<rightharpoonup> Point3f"
  assumes "populate3dMesh tt rt fnd empty_mesh ts tbl frame pose mr me ms = Inr d"
  shows "mesh_agrees d (\<lambda>k. to_Point3f (the (tbl k))) \<and> vertex_slots d \<subseteq>\<^sub>m (\<lambda>k. map_option to_Point3f (tbl k)) \<and>
         list_all (\<lambda>ids. length ids = 3 \<and> list_all (\<lambda>k. tbl k \<noteq> None) ids \<and>
           isBadTriangle tt rt (mk_polygon (\<lambda>k. to_Point3f (the (tbl k))) ids) pose mr me ms = Inr False)
           (polygons_mesh d)"
proof -
  from assms obtain poly' where
    "populate_triangles tt rt fnd tbl frame pose mr me ms ts (default_polygon, empty_mesh) = Inr (poly', d)"
    by (auto simp: populate3dMesh_def split: sum.splits)
  then show ?thesis
    by (rule populate_triangles_from_table)
       (simp_all add: default_polygon_def mesh_agrees_empty, simp_all add: empty_mesh_def)
qed

lemma refreshed_position_idem:
  "refreshed_position tbl (refreshed_position tbl g) = refreshed_position tbl g"
  by (auto simp: refreshed_position_def fun_eq_iff split: option.splits)

lemma mk_polygon_in_table:
  fixes tbl :: "LandmarkId \<rightharpoonup> Point3f"
  assumes "list_all (\<lambda>k. tbl k \<noteq> None) ids"
  shows "mk_polygon (refreshed_position tbl g) ids = mk_polygon (\<lambda>k. to_Point3f (the (tbl k))) ids"
  using assms by (auto simp: mk_polygon_def refreshed_position_def list_all_iff)


lemma updatePolygonMeshToTimeHorizon_keeps_all:
  fixes tbl :: "LandmarkId \<rightharpoonup> Point3f" and g :: "LandmarkId \<Rightarrow> Point3f"
  assumes "mesh_agrees m g"
    and "list_all (\<lambda>ids. length ids = 3 \<and>
            isBadTriangle tt rt (mk_polygon (refreshed_position tbl g) ids) pose mr (- 1) ms = Inr False \<and>
            (\<not> reduce \<or> list_all (\<lambda>k. tbl k \<noteq> None) ids)) (polygons_mesh m)"
  shows "\<exists>out. updatePolygonMeshToTimeHorizon tt rt m tbl pose mr ms reduce = Inr out \<and>
           mesh_agrees out (refreshed_position tbl g) \<and> polygons_mesh out = polygons_mesh m"
proof -
  have "list_all (\<lambda>i. i < length (polygons_mesh m) \<and> length (polygons_mesh m ! i) = 3 \<and>
            isBadTriangle tt rt (mk_polygon (refreshed_position tbl g) (polygons_mesh m ! i)) pose mr (- 1) ms = Inr False \<and>
            (\<not> reduce \<or> list_all (\<lambda>k. tbl k \<noteq> None) (polygons_mesh m ! i)))
          [0 ..< getNumberOfPolygons m]"
    using assms(2) by (auto simp: list_all_iff getNumberOfPolygons_def)
  from time_horizon_loop_keeps_all[OF assms(1) this mesh_agrees_empty]
  show ?thesis
    by (auto simp: updatePolygonMeshToTimeHorizon_def getNumberOfPolygons_def empty_mesh_def map_nth)
qed

lemma populate3dMeshTimeHorizon_twice:
  fixes tbl :: "LandmarkId \<rightharpoonup> Point3f"
  assumes "populate3dMeshTimeHorizon tt rt fnd fl mesh ts tbl frame pose mr me ms = Inr mesh1"
  shows "\<exists>mesh2 fresh.
           populate3dMeshTimeHorizon tt rt fnd fl mesh1 ts tbl frame pose mr me ms = Inr mesh2 \<and>
           populate3dMeshTimeHorizon tt rt fnd fl empty_mesh ts tbl frame pose mr me ms = Inr fresh \<and>
           mesh_content mesh2 = mesh_content mesh1 @ mesh_content fresh"
proof -
  let ?red = "FLAGS_reduce_mesh_to_time_horizon fl"
  let ?T = "\<lambda>k. to_Point3f (the (tbl k))"
  from assms obtain mp where
    pm: "populate3dMesh tt rt fnd mesh ts tbl frame pose mr me ms = Inr mp"
    and u1: "updatePolygonMeshToTimeHorizon tt rt mp tbl pose mr ms ?red = Inr mesh1"
    by (auto simp: populate3dMeshTimeHorizon_def split: sum.splits)
  from pm obtain d where
    pe: "populate3dMesh tt rt fnd empty_mesh ts tbl frame pose mr me ms = Inr d"
    using populate3dMesh_merge[of tt rt fnd mesh ts tbl frame pose mr me ms]
    by (auto split: sum.splits)
  from populate3dMesh_from_empty[OF pe] have
    dT: "mesh_agrees d ?T" and dsub: "vertex_slots d \<subseteq>\<^sub>m (\<lambda>k. map_option to_Point3f (tbl k))"
    and dq: "list_all (\<lambda>ids. length ids = 3 \<and> list_all (\<lambda>k. tbl k \<noteq> None) ids \<and>
           isBadTriangle tt rt (mk_polygon ?T ids) pose mr me ms = Inr False) (polygons_mesh d)"
    by simp_all
  let ?h = "refreshed_position tbl (\<lambda>k. the (vertex_slots mp k))"
  from updatePolygonMeshToTimeHorizon_invariant[OF u1] have
    a1: "mesh_agrees mesh1 ?h"
    and q1: "list_all (\<lambda>ids. length ids = 3 \<and>
            isBadTriangle tt rt (mk_polygon ?h ids) pose mr (- 1) ms = Inr False \<and>
            (\<not> ?red \<or> list_all (\<lambda>k. tbl k \<noteq> None) ids)) (polygons_mesh mesh1)"
    by simp_all
  have hh: "refreshed_position tbl ?h = ?h" by (rule refreshed_position_idem)
  have dgood: "list_all (\<lambda>ids. length ids = 3 \<and>
            isBadTriangle tt rt (mk_polygon (refreshed_position tbl g) ids) pose mr (- 1) ms = Inr False \<and>
            (\<not> ?red \<or> list_all (\<lambda>k. tbl k \<noteq> None) ids)) (polygons_mesh d)" for g
    using dq by (auto simp: list_all_iff mk_polygon_in_table intro: isBadTriangle_without_elongation)
  \<comment> \<open>the second call\<close>
  let ?mp2 = "merge_mesh mesh1 d"
  have p2: "populate3dMesh tt rt fnd mesh1 ts tbl frame pose mr me ms = Inr ?mp2"
    using populate3dMesh_merge[of tt rt fnd mesh1 ts tbl frame pose mr me ms] pe by simp
  have slot: "vertex_slots ?mp2 k = Some (?h k)"
    if "vertex_slots mesh1 k = Some (?h k) \<or> (vertex_slots d k = Some (?T k) \<and> tbl k \<noteq> None)" for k
  proof (cases "vertex_slots d k")
    case None
    then show ?thesis using that by (auto simp: merge_mesh_def map_add_def)
  next
    case (Some p)
    with dsub have "map_option to_Point3f (tbl k) = Some p" by (auto simp: map_le_def dom_def)
    then obtain q where "tbl k = Some q" "p = to_Point3f q" by auto
    then show ?thesis using Some by (simp add: merge_mesh_def map_add_def refreshed_position_def)
  qed
  have a2: "mesh_agrees ?mp2 ?h"
    unfolding mesh_agrees_def list_all_iff
  proof (intro ballI)
    fix ids k assume "ids \<in> set (polygons_mesh ?mp2)" "k \<in> set ids"
    then consider "ids \<in> set (polygons_mesh mesh1)" | "ids \<in> set (polygons_mesh d)"
      by (auto simp: merge_mesh_def)
    then show "vertex_slots ?mp2 k = Some (?h k)"
    proof cases
      case 1
      with a1 \<open>k \<in> set ids\<close> have "vertex_slots mesh1 k = Some (?h k)"
        by (auto simp: mesh_agrees_def list_all_iff)
      then show ?thesis by (rule slot[OF disjI1])
    next
      case 2
      with dT dq \<open>k \<in> set ids\<close> have "vertex_slots d k = Some (?T k) \<and> tbl k \<noteq> None"
        by (auto simp: mesh_agrees_def list_all_iff)
      then show ?thesis by (rule slot[OF disjI2])
    qed
  qed
  have q2: "list_all (\<lambda>ids. length ids = 3 \<and>
            isBadTriangle tt rt (mk_polygon (refreshed_position tbl ?h) ids) pose mr (- 1) ms = Inr False \<and>
            (\<not> ?red \<or> list_all (\<lambda>k. tbl k \<noteq> None) ids)) (polygons_mesh ?mp2)"
    using q1 dgood[of ?h] by (simp add: merge_mesh_def hh)
  from updatePolygonMeshToTimeHorizon_keeps_all[OF a2 q2] obtain mesh2 where
    u2: "updatePolygonMeshToTimeHorizon tt rt ?mp2 tbl pose mr ms ?red = Inr mesh2"
    and m2: "mesh_agrees mesh2 ?h" "polygons_mesh mesh2 = polygons_mesh mesh1 @ polygons_mesh d"
    by (auto simp: hh merge_mesh_def)
  \<comment> \<open>the call on the empty mesh\<close>
  from updatePolygonMeshToTimeHorizon_keeps_all[OF dT dgood[of ?T]] obtain fresh where
    uf: "updatePolygonMeshToTimeHorizon tt rt d tbl pose mr ms ?red = Inr fresh"
    and mf: "mesh_agrees fresh (refreshed_position tbl ?T)" "polygons_mesh fresh = polygons_mesh d"
    by blast
  have same: "mk_polygon (refreshed_position tbl ?T) ids = mk_polygon ?h ids"
    if "ids \<in> set (polygons_mesh d)" for ids
  proof -
    from that dq have "list_all (\<lambda>k. tbl k \<noteq> None) ids" by (auto simp: list_all_iff)
    then show ?thesis
      using mk_polygon_in_table[of tbl ids ?T] mk_polygon_in_table[of tbl ids "\<lambda>k. the (vertex_slots mp k)"]
      by simp
  qed
  have "mesh_content mesh2 = mesh_content mesh1 @ mesh_content fresh"
    using same
    by (simp add: mesh_content_agrees[OF m2(1)] mesh_content_agrees[OF a1]
          mesh_content_agrees[OF mf(1)] m2(2) mf(2))
  moreover have "populate3dMeshTimeHorizon tt rt fnd fl mesh1 ts tbl frame pose mr me ms = Inr mesh2"
    using p2 u2 by (simp add: populate3dMeshTimeHorizon_def)
  moreover have "populate3dMeshTimeHorizon tt rt fnd fl empty_mesh ts tbl frame pose mr me ms = Inr fresh"
    using pe uf by (simp add: populate3dMeshTimeHorizon_def)
  ultimately show ?thesis by blast
qed


section \<open>One triangle, updated twice\<close>

lemma sqrt_9_16_25: "sqrt 9 = 3" "sqrt 16 = 4" "sqrt 25 = 5"
  by (simp_all add: real_sqrt_unique)

lemma triangle_345_good:
  "isBadTriangle id_pose const_ratio triangle_345 () (1 / 2) (1 / 2) 10 = Inr False"
  "isBadTriangle id_pose const_ratio triangle_345 () (1 / 2) (- 1) 10 = Inr False"
  by (simp_all add: isBadTriangle_def triangle_345_def Let_def sub3_def norm3_def sqrt_9_16_25
        getRatioBetweenSmallestAndLargestSide_def
        getRatioBetweenTangentialAndRadialDisplacement_def const_ratio_def)

lemma to_Point3f_345:
  "to_Point3f (Point3f 0 0 0) = Point3f 0 0 0" "to_Point3f (Point3f 3 0 0) = Point3f 3 0 0"
  "to_Point3f (Point3f 0 4 0) = Point3f 0 4 0"
  by (simp_all add: to_Point3f_def to_float_small)

lemma table_345_lookup:
  "table_345 1 = Some (Point3f 0 0 0)" "table_345 2 = Some (Point3f 3 0 0)"
  "table_345 3 = Some (Point3f 0 4 0)"
  by (simp_all add: table_345_def)

lemma lookup_pixel_345:
  "lookup_pixel (m_left_frame frame_345) (0, 0) = 1"
  "lookup_pixel (m_left_frame frame_345) (3, 0) = 2"
  "lookup_pixel (m_left_frame frame_345) (0, 4) = 3"
  by (simp_all add: lookup_pixel_def frame_345_def)

lemma add_triangle_345:
  "addPolygonToMesh m triangle_345 =
     Inr \<lparr>vertex_slots = (vertex_slots m)(1 \<mapsto> Point3f 0 0 0, 2 \<mapsto> Point3f 3 0 0, 3 \<mapsto> Point3f 0 4 0),
          polygons_mesh = polygons_mesh m @ [[1, 2, 3]]\<rparr>"
  by (simp add: addPolygonToMesh_def triangle_345_def)

lemma populate_345:
  "populate3dMesh id_pose const_ratio lookup_pixel m [Vec6f 0 0 3 0 0 4] table_345
     (m_left_frame frame_345) () (1 / 2) (1 / 2) 10 =
   Inr \<lparr>vertex_slots = (vertex_slots m)(1 \<mapsto> Point3f 0 0 0, 2 \<mapsto> Point3f 3 0 0, 3 \<mapsto> Point3f 0 4 0),
        polygons_mesh = polygons_mesh m @ [[1, 2, 3]]\<rparr>"
  using triangle_345_good(1) add_triangle_345[of m]
  by (simp add: populate3dMesh_def upt_0_3 default_polygon_def lookup_pixel_345 table_345_lookup
        triangle_345_def Let_def eval_nat_numeral to_Point3f_345)


lemma table_345_again:
  "table_345(1 \<mapsto> Point3f 0 0 0, 2 \<mapsto> Point3f 3 0 0, 3 \<mapsto> Point3f 0 4 0) = table_345"
  by (auto simp: table_345_def fun_eq_iff)

lemma getPolygon_345:
  "getPolygon mesh_345 0 = Some triangle_345"
  "getPolygon mesh_345_twice 0 = Some triangle_345"
  "getPolygon mesh_345_twice 1 = Some triangle_345"
  by (simp_all add: getPolygon_def mesh_345_def mesh_345_twice_def triangle_345_def table_345_def)

lemma refresh_345:
  "refresh_vertices table_345 reduce triangle_345 = (triangle_345, True)"
  by (simp add: triangle_345_def table_345_lookup to_Point3f_345)

lemma add_triangle_345_meshes:
  "addPolygonToMesh empty_mesh triangle_345 = Inr mesh_345"
  "addPolygonToMesh mesh_345 triangle_345 = Inr mesh_345_twice"
  using add_triangle_345[of empty_mesh] add_triangle_345[of mesh_345]
  by (simp_all add: empty_mesh_def mesh_345_def mesh_345_twice_def table_345_again)
     (simp add: table_345_def)

lemma time_horizon_345:
  "updatePolygonMeshToTimeHorizon id_pose const_ratio mesh_345 table_345 () (1 / 2) 10 True =
     Inr mesh_345"
proof -
  have n: "[0 ..< getNumberOfPolygons mesh_345] = [0]"
    by (simp add: getNumberOfPolygons_def mesh_345_def)
  show ?thesis
    unfolding updatePolygonMeshToTimeHorizon_def n
    using triangle_345_good(2) add_triangle_345_meshes getPolygon_345 refresh_345
    by simp
qed

lemma time_horizon_345_twice:
  "updatePolygonMeshToTimeHorizon id_pose const_ratio mesh_345_twice table_345 () (1 / 2) 10 True =
     Inr mesh_345_twice"
proof -
  have n: "[0 ..< getNumberOfPolygons mesh_345_twice] = [0, 1]"
    by (simp add: getNumberOfPolygons_def mesh_345_twice_def upt_rec)
  show ?thesis
    unfolding updatePolygonMeshToTimeHorizon_def n
    using triangle_345_good(2) add_triangle_345_meshes getPolygon_345 refresh_345
    by simp
qed

lemma updateMesh3D_345_first:
  "updateMesh3D id_pose id_pose const_ratio lookup_pixel one_triangle_2d single_flags empty_mesh
     table_345 frame_345 () = Inr mesh_345"
proof -
  have p: "populate3dMesh id_pose const_ratio lookup_pixel empty_mesh [Vec6f 0 0 3 0 0 4] table_345
     (m_left_frame frame_345) () (1 / 2) (1 / 2) 10 = Inr mesh_345"
    using populate_345[of empty_mesh] by (simp add: empty_mesh_def mesh_345_def table_345_def)
  show ?thesis
    using p time_horizon_345
    by (simp add: updateMesh3D_def points_with_id_all_def populate3dMeshTimeHorizon_def
          one_triangle_2d_def single_flags_def)
qed

lemma updateMesh3D_345_second:
  "updateMesh3D id_pose id_pose const_ratio lookup_pixel one_triangle_2d single_flags mesh_345
     table_345 frame_345 () = Inr mesh_345_twice"
proof -
  have p: "populate3dMesh id_pose const_ratio lookup_pixel mesh_345 [Vec6f 0 0 3 0 0 4] table_345
     (m_left_frame frame_345) () (1 / 2) (1 / 2) 10 = Inr mesh_345_twice"
    using populate_345[of mesh_345]
    by (simp add: mesh_345_def mesh_345_twice_def table_345_again)
  show ?thesis
    using p time_horizon_345_twice
    by (simp add: updateMesh3D_def points_with_id_all_def populate3dMeshTimeHorizon_def
          one_triangle_2d_def single_flags_def)
qed

lemma stereo_table_345:
  "points_with_id_all id_pose stereo_flags no_landmarks frame_345 () = Inr table_345"
  by (simp add: points_with_id_all_def stereo_flags_def single_flags_def appendNonVioStereoPoints_def
        frame_345_def upt_rec[of 0] upt_rec[of 1] upt_rec[of 2] no_landmarks_def id_pose_def
        table_345_def Let_def)

lemma updateMesh3D_345_stereo:
  "updateMesh3D id_pose id_pose const_ratio lookup_pixel one_triangle_2d stereo_flags empty_mesh
     no_landmarks frame_345 () = Inr mesh_345"
proof -
  have p: "populate3dMesh id_pose const_ratio lookup_pixel empty_mesh [Vec6f 0 0 3 0 0 4] table_345
     (m_left_frame frame_345) () (1 / 2) (1 / 2) 10 = Inr mesh_345"
    using populate_345[of empty_mesh] by (simp add: empty_mesh_def mesh_345_def table_345_def)
  show ?thesis
    using p time_horizon_345 stereo_table_345
    by (simp add: updateMesh3D_def populate3dMeshTimeHorizon_def
          one_triangle_2d_def single_flags_def stereo_flags_def)
qed

lemma mesh_content_345:
  "mesh_content mesh_345 = [Some triangle_345]"
  "mesh_content mesh_345_twice = [Some triangle_345, Some triangle_345]"
proof -
  have n: "[0 ..< getNumberOfPolygons mesh_345] = [0]"
    "[0 ..< getNumberOfPolygons mesh_345_twice] = [0, 1]"
    by (simp_all add: getNumberOfPolygons_def mesh_345_def mesh_345_twice_def upt_rec)
  show "mesh_content mesh_345 = [Some triangle_345]"
    "mesh_content mesh_345_twice = [Some triangle_345, Some triangle_345]"
    unfolding mesh_content_def n using getPolygon_345 by simp_all
qed


section \<open>The mesh after an update\<close>

text \<open>
  A coordinate of the table that is not a float is stored rounded: 0.1 is stored as
  \<open>13421773 / 2\<^sup>2\<^sup>7\<close>, which is greater than 0.1.
\<close>

lemma to_Point3f_tenth:
  "to_Point3f (Point3f (1 / 10) 0 0) = Point3f (13421773 / 134217728) 0 0"
  "(1 / 10 :: real) < 13421773 / 134217728"
  by (simp_all add: to_Point3f_def to_float_tenth)

text \<open>
  Claim C2, as amended. When \<^verbatim>\<open>updateMesh3D\<close> returns with \<^verbatim>\<open>reduce_mesh_to_time_horizon\<close>
  set, every polygon of the mesh can be retrieved, has 3 vertices, and each of its
  landmark ids is a key of the landmark table that the mesh was built from; the vertex's
  stored position is the position that this table gives for the id, each coordinate
  narrowed from double to single precision. That table contains the table given to
  \<^verbatim>\<open>updateMesh3D\<close>, and is that table when \<^verbatim>\<open>add_extra_lmks_from_stereo\<close> is off.
\<close>

theorem updateMesh3D_polygons_follow_table:
  assumes tbl: "points_with_id_all tf fl vio sf pose = Inr tbl"
    and upd: "updateMesh3D tt tf rt fnd m2d fl mesh vio sf pose = Inr mesh'"
    and red: "FLAGS_reduce_mesh_to_time_horizon fl"
  shows "(\<forall>i < getNumberOfPolygons mesh'.
            \<exists>polygon. getPolygon mesh' i = Some polygon \<and> length polygon = 3 \<and>
              (\<forall>v \<in> set polygon. \<exists>point. tbl (getLmkId v) = Some point \<and>
                 getVertexPosition v = to_Point3f point)) \<and>
         vio \<subseteq>\<^sub>m tbl \<and>
         (\<not> FLAGS_add_extra_lmks_from_stereo fl \<longrightarrow> tbl = vio)"
proof -
  from upd tbl obtain mp where
    u: "updatePolygonMeshToTimeHorizon tt rt mp tbl pose
          (FLAGS_min_ratio_btw_largest_smallest_side fl) (FLAGS_max_triangle_side fl) True = Inr mesh'"
    using red
    by (auto simp: updateMesh3D_def populate3dMeshTimeHorizon_def split: sum.splits)
  let ?h = "refreshed_position tbl (\<lambda>k. the (vertex_slots mp k))"
  from updatePolygonMeshToTimeHorizon_invariant[OF u] have
    ag: "mesh_agrees mesh' ?h"
    and q: "list_all (\<lambda>ids. length ids = 3 \<and> list_all (\<lambda>k. tbl k \<noteq> None) ids) (polygons_mesh mesh')"
    by (simp_all add: list_all_iff)
  have "\<exists>polygon. getPolygon mesh' i = Some polygon \<and> length polygon = 3 \<and>
          (\<forall>v \<in> set polygon. \<exists>point. tbl (getLmkId v) = Some point \<and>
             getVertexPosition v = to_Point3f point)"
    if i: "i < getNumberOfPolygons mesh'" for i
  proof -
    let ?ids = "polygons_mesh mesh' ! i"
    from i have il: "i < length (polygons_mesh mesh')" by (simp add: getNumberOfPolygons_def)
    then have mem: "?ids \<in> set (polygons_mesh mesh')" by simp
    have g: "getPolygon mesh' i = Some (mk_polygon ?h ?ids)"
      using ag il by (rule getPolygon_agrees)
    from q mem have len: "length ?ids = 3" and d: "\<forall>k \<in> set ?ids. tbl k \<noteq> None"
      by (auto simp: list_all_iff)
    have "\<forall>v \<in> set (mk_polygon ?h ?ids). \<exists>point. tbl (getLmkId v) = Some point \<and>
            getVertexPosition v = to_Point3f point"
      using d by (auto simp: mk_polygon_def refreshed_position_def)
    then show ?thesis using g len by (simp add: length_mk_polygon)
  qed
  then show ?thesis using points_with_id_all_extends[OF tbl] by blast
qed

theorem updateMesh3D_polygons_follow_table_witness:
  "updateMesh3D id_pose id_pose const_ratio lookup_pixel one_triangle_2d single_flags empty_mesh
     table_345 frame_345 () = Inr mesh_345 \<and>
   getPolygon mesh_345 0 = Some triangle_345 \<and> length triangle_345 = 3 \<and>
   list_all (\<lambda>v. map_option to_Point3f (table_345 (getLmkId v)) = Some (getVertexPosition v))
     triangle_345"
proof -
  have tbl: "points_with_id_all id_pose single_flags table_345 frame_345 () = Inr table_345"
    by (simp add: points_with_id_all_def single_flags_def)
  have red: "FLAGS_reduce_mesh_to_time_horizon single_flags"
    by (simp add: single_flags_def)
  have n: "0 < getNumberOfPolygons mesh_345"
    by (simp add: getNumberOfPolygons_def mesh_345_def)
  from updateMesh3D_polygons_follow_table[OF tbl updateMesh3D_345_first red] n
  have "\<exists>polygon. getPolygon mesh_345 0 = Some polygon \<and> length polygon = 3 \<and>
          (\<forall>v \<in> set polygon. \<exists>point. table_345 (getLmkId v) = Some point \<and>
             getVertexPosition v = to_Point3f point)"
    by blast
  then show ?thesis
    using updateMesh3D_345_first getPolygon_345(1) by (auto simp: list_all_iff)
qed

text \<open>
  Claim C2 as stated speaks of the table given to \<^verbatim>\<open>updateMesh3D\<close>. With
  \<^verbatim>\<open>add_extra_lmks_from_stereo\<close> set, an empty table and a stereo frame with the valid
  landmarks 1, 2 and 3, the mesh receives the polygon of these landmarks, none of
  which is a key of the table given.
\<close>

theorem updateMesh3D_stereo_landmarks_counterexample:
  "FLAGS_reduce_mesh_to_time_horizon stereo_flags \<and>
   updateMesh3D id_pose id_pose const_ratio lookup_pixel one_triangle_2d stereo_flags empty_mesh
     no_landmarks frame_345 () = Inr mesh_345 \<and>
   getPolygon mesh_345 0 = Some triangle_345 \<and>
   getLmkId (triangle_345 ! 0) = 1 \<and> no_landmarks 1 = None"
  using updateMesh3D_345_stereo getPolygon_345(1)
  by (simp add: stereo_flags_def single_flags_def triangle_345_def no_landmarks_def)

section \<open>Updating twice with the same inputs\<close>

text \<open>
  Claim C3, as amended. When a call of \<^verbatim>\<open>updateMesh3D\<close> has returned, a second call with
  the same inputs returns as well, and the content of the mesh after it is the content
  after the first call followed by the polygons that the 2D triangulation contributes,
  which are the content of the mesh that the same call leaves when it starts from the
  empty mesh. The content is the same after both calls only if the triangulation
  contributes no polygon.
\<close>

theorem updateMesh3D_twice_appends_fresh_polygons:
  assumes "updateMesh3D tt tf rt fnd m2d fl mesh vio sf pose = Inr mesh1"
  shows "\<exists>mesh2 fresh.
           updateMesh3D tt tf rt fnd m2d fl mesh1 vio sf pose = Inr mesh2 \<and>
           updateMesh3D tt tf rt fnd m2d fl empty_mesh vio sf pose = Inr fresh \<and>
           mesh_content mesh2 = mesh_content mesh1 @ mesh_content fresh \<and>
           (mesh_content mesh2 = mesh_content mesh1 \<longleftrightarrow> mesh_content fresh = [])"
proof -
  from assms obtain tbl where
    t: "points_with_id_all tf fl vio sf pose = Inr tbl"
    and p: "populate3dMeshTimeHorizon tt rt fnd fl mesh (m2d sf tbl) tbl (m_left_frame sf) pose
              (FLAGS_min_ratio_btw_largest_smallest_side fl) (FLAGS_min_elongation_ratio fl)
              (FLAGS_max_triangle_side fl) = Inr mesh1"
    by (auto simp: updateMesh3D_def split: sum.splits)
  from populate3dMeshTimeHorizon_twice[OF p] obtain mesh2 fresh where
    "populate3dMeshTimeHorizon tt rt fnd fl mesh1 (m2d sf tbl) tbl (m_left_frame sf) pose
              (FLAGS_min_ratio_btw_largest_smallest_side fl) (FLAGS_min_elongation_ratio fl)
              (FLAGS_max_triangle_side fl) = Inr mesh2"
    "populate3dMeshTimeHorizon tt rt fnd fl empty_mesh (m2d sf tbl) tbl (m_left_frame sf) pose
              (FLAGS_min_ratio_btw_largest_smallest_side fl) (FLAGS_min_elongation_ratio fl)
              (FLAGS_max_triangle_side fl) = Inr fresh"
    "mesh_content mesh2 = mesh_content mesh1 @ mesh_content fresh"
    by blast
  then show ?thesis using t by (auto simp: updateMesh3D_def)
qed

theorem updateMesh3D_twice_appends_fresh_polygons_witness:
  "updateMesh3D id_pose id_pose const_ratio lookup_pixel one_triangle_2d single_flags empty_mesh
     table_345 frame_345 () = Inr mesh_345 \<and>
   updateMesh3D id_pose id_pose const_ratio lookup_pixel one_triangle_2d single_flags mesh_345
     table_345 frame_345 () = Inr mesh_345_twice \<and>
   mesh_content mesh_345_twice = mesh_content mesh_345 @ mesh_content mesh_345"
  using updateMesh3D_twice_appends_fresh_polygons[OF updateMesh3D_345_first]
        updateMesh3D_345_first updateMesh3D_345_second
  by simp

text \<open>
  Claim C3 as stated says that the content is the same after the second call. From the
  empty mesh, with the three landmarks of a 3-4-5 triangle in the table, the first call
  leaves one polygon and the second call leaves it twice.
\<close>

theorem updateMesh3D_twice_counterexample:
  "updateMesh3D id_pose id_pose const_ratio lookup_pixel one_triangle_2d single_flags empty_mesh
     table_345 frame_345 () = Inr mesh_345 \<and>
   updateMesh3D id_pose id_pose const_ratio lookup_pixel one_triangle_2d single_flags mesh_345
     table_345 frame_345 () = Inr mesh_345_twice \<and>
   mesh_content mesh_345_twice \<noteq> mesh_content mesh_345"
  using updateMesh3D_345_first updateMesh3D_345_second
  by (simp add: mesh_content_345)

end
